theory Spec2Isabelle
  imports Complex_Main
begin

section \<open>Strings\<close>

text \<open>
  Python strings are modelled as \<open>string\<close> (lists of 8-bit characters), so the model
  covers ASCII text. \<open>is_space\<close> is the ASCII part of what \<^verbatim>\<open>str.strip()\<close> removes
  (tab, line feed, vertical tab, form feed, carriage return, the separators 0x1C to 0x1F
  and the space).
\<close>

definition is_space :: "char \<Rightarrow> bool" where
  "is_space c \<longleftrightarrow>
     c \<in> set [CHR 0x09, CHR 0x0A, CHR 0x0B, CHR 0x0C, CHR 0x0D,
              CHR 0x1C, CHR 0x1D, CHR 0x1E, CHR 0x1F, CHR 0x20]"

definition py_strip :: "string \<Rightarrow> string" where
  "py_strip s = rev (dropWhile is_space (rev (dropWhile is_space s)))"

text \<open>
  \<^verbatim>\<open>float()\<close> has a narrower notion of white space than \<^verbatim>\<open>str.strip()\<close>: on ASCII
  text it skips the six characters of C's \<^verbatim>\<open>isspace\<close> only (tab, line feed, vertical tab,
  form feed, carriage return, space), so the separators 0x1C to 0x1F stay and make the
  string no number.
\<close>

definition is_float_space :: "char \<Rightarrow> bool" where
  "is_float_space c \<longleftrightarrow> c \<in> set [CHR 0x09, CHR 0x0A, CHR 0x0B, CHR 0x0C, CHR 0x0D, CHR 0x20]"

definition float_strip :: "string \<Rightarrow> string" where
  "float_strip s = rev (dropWhile is_float_space (rev (dropWhile is_float_space s)))"

definition lower_char :: "char \<Rightarrow> char" where
  "lower_char c =
     (case map_of (zip ''ABCDEFGHIJKLMNOPQRSTUVWXYZ'' ''abcdefghijklmnopqrstuvwxyz'') c of
        Some d \<Rightarrow> d
      | None \<Rightarrow> c)"

definition py_lower :: "string \<Rightarrow> string" where
  "py_lower s = map lower_char s"

definition is_digit :: "char \<Rightarrow> bool" where
  "is_digit c \<longleftrightarrow> c \<in> set ''0123456789''"

definition digit_val :: "char \<Rightarrow> nat" where
  "digit_val c = of_char c - 48"

definition int_of_digits :: "string \<Rightarrow> int" where
  "int_of_digits ds = foldl (\<lambda>a c. 10 * a + int (digit_val c)) 0 ds"

section \<open>The built-in \<^verbatim>\<open>float()\<close> on strings\<close>

text \<open>
  \<^verbatim>\<open>float(s)\<close> accepts, after stripping white space, an optional sign followed by
  \<^verbatim>\<open>inf\<close>, \<^verbatim>\<open>infinity\<close> or \<^verbatim>\<open>nan\<close> in any case, or by a decimal number
  \<^verbatim>\<open>[digitpart] "." digitpart | digitpart ["."]\<close> with an optional exponent, where a
  \<^verbatim>\<open>digitpart\<close> is \<^verbatim>\<open>digit (["_"] digit)*\<close>; anything else raises \<^verbatim>\<open>ValueError\<close>
  (\<open>None\<close> here). The result is the binary64 number nearest to the decimal value of the
  literal, ties going to the even mantissa, and infinity when that number would be
  \<open>2 ^ 1024\<close> or more; a finite result is kept as the rational it is equal to (so the
  two zeros are one value here).
\<close>

datatype pyfloat = Finite rat | Infinite bool | NaN

text \<open>
  Rounding to binary64. \<open>bit_length n\<close> is the number of binary digits of \<open>n\<close>, so
  \<open>floor_log2 x\<close> is the exponent \<open>e\<close> with \<open>2 ^ e \<le> x < 2 ^ (e + 1)\<close> for a positive
  \<open>x\<close>. The binary64 numbers with that exponent are the multiples of \<open>2 ^ (e - 52)\<close>;
  below \<open>2 ^ (- 1022)\<close> (the subnormal numbers) they are the multiples of
  \<open>2 ^ (- 1074)\<close>.
\<close>

function bit_length :: "int \<Rightarrow> nat" where
  "bit_length n = (if n \<le> 0 then 0 else Suc (bit_length (n div 2)))"
  by pat_completeness auto
termination by (relation "measure nat") auto

declare bit_length.simps [simp del]

definition pow2 :: "int \<Rightarrow> rat" where
  "pow2 k = (if 0 \<le> k then 2 ^ nat k else 1 / 2 ^ nat (- k))"

definition floor_log2 :: "rat \<Rightarrow> int" where
  "floor_log2 x =
     (if 1 \<le> x then int (bit_length \<lfloor>x\<rfloor>) - 1
      else - int (bit_length (\<lceil>1 / x\<rceil> - 1)))"

definition round_half_even :: "rat \<Rightarrow> int" where
  "round_half_even y =
     (let n = \<lfloor>y\<rfloor>; f = y - of_int n
      in if f < 1 / 2 then n else if 1 / 2 < f then n + 1 else if even n then n else n + 1)"

text \<open>\<open>binary64 x\<close>, for \<open>x \<ge> 0\<close>.\<close>

definition binary64 :: "rat \<Rightarrow> pyfloat" where
  "binary64 x =
     (if x = 0 then Finite 0
      else
        (let e = max (floor_log2 x) (- 1022);
             q = pow2 (e - 52);
             v = of_int (round_half_even (x / q)) * q
         in if pow2 1024 \<le> v then Infinite False else Finite v))"

fun digits_tail :: "string \<Rightarrow> string \<times> string" where
  "digits_tail [] = ([], [])"
| "digits_tail [c] = (if is_digit c then ([c], []) else ([], [c]))"
| "digits_tail (c # d # s) =
     (if is_digit c then (case digits_tail (d # s) of (ds, r) \<Rightarrow> (c # ds, r))
      else if c = CHR ''_'' \<and> is_digit d then (case digits_tail s of (ds, r) \<Rightarrow> (d # ds, r))
      else ([], c # d # s))"

definition digitpart :: "string \<Rightarrow> (string \<times> string) option" where
  "digitpart s =
     (case s of
        [] \<Rightarrow> None
      | c # r \<Rightarrow> if is_digit c then (case digits_tail r of (ds, r') \<Rightarrow> Some (c # ds, r'))
                 else None)"

text \<open>The mantissa: integer digits, fraction digits and what follows them.\<close>

definition float_number :: "string \<Rightarrow> (string \<times> string \<times> string) option" where
  "float_number s =
     (case digitpart s of
        Some (ip, r) \<Rightarrow>
          (case r of
             c # r' \<Rightarrow>
               if c = CHR ''.'' then
                 (case digitpart r' of
                    Some (fp, r'') \<Rightarrow> Some (ip, fp, r'')
                  | None \<Rightarrow> Some (ip, [], r'))
               else Some (ip, [], r)
           | [] \<Rightarrow> Some (ip, [], []))
      | None \<Rightarrow>
          (case s of
             c # r' \<Rightarrow>
               if c = CHR ''.'' then
                 (case digitpart r' of
                    Some (fp, r'') \<Rightarrow> Some ([], fp, r'')
                  | None \<Rightarrow> None)
               else None
           | [] \<Rightarrow> None))"

text \<open>The exponent: absent, or \<^verbatim>\<open>e\<close>/\<^verbatim>\<open>E\<close>, an optional sign and a digit part, up to the end.\<close>

definition float_exponent :: "string \<Rightarrow> int option" where
  "float_exponent s =
     (case s of
        [] \<Rightarrow> Some 0
      | c # r \<Rightarrow>
          if c = CHR ''e'' \<or> c = CHR ''E'' then
            (let (neg, r') =
               (case r of
                  [] \<Rightarrow> (False, r)
                | x # r1 \<Rightarrow>
                    if x = CHR ''-'' then (True, r1)
                    else if x = CHR ''+'' then (False, r1)
                    else (False, r))
             in case digitpart r' of
                  Some (ds, []) \<Rightarrow> Some (if neg then - int_of_digits ds else int_of_digits ds)
                | Some (ds, y # ys) \<Rightarrow> None
                | None \<Rightarrow> None)
          else None)"

definition scale10 :: "rat \<Rightarrow> int \<Rightarrow> rat" where
  "scale10 m e = (if 0 \<le> e then m * 10 ^ nat e else m / 10 ^ nat (- e))"

definition abs_float_value :: "string \<Rightarrow> pyfloat option" where
  "abs_float_value s =
     (if py_lower s = ''inf'' \<or> py_lower s = ''infinity'' then Some (Infinite False)
      else if py_lower s = ''nan'' then Some NaN
      else
        (case float_number s of
           None \<Rightarrow> None
         | Some (ip, fp, r) \<Rightarrow>
             (case float_exponent r of
                None \<Rightarrow> None
              | Some e \<Rightarrow>
                  Some (binary64 (scale10 (of_int (int_of_digits (ip @ fp)))
                                    (e - int (length fp)))))))"

definition negate :: "pyfloat \<Rightarrow> pyfloat" where
  "negate x = (case x of Finite q \<Rightarrow> Finite (- q) | Infinite b \<Rightarrow> Infinite (\<not> b) | NaN \<Rightarrow> NaN)"

definition py_float :: "string \<Rightarrow> pyfloat option" where
  "py_float s =
     (case float_strip s of
        [] \<Rightarrow> None
      | c # r \<Rightarrow>
          if c = CHR ''-'' then map_option negate (abs_float_value r)
          else if c = CHR ''+'' then abs_float_value r
          else abs_float_value (c # r))"

section \<open>Spreadsheet data: cells, sheets, workbooks\<close>

text \<open>
  What the program sees of the spreadsheet library: a cell has a value, a font and a
  border; a sheet has a title and its cells; a workbook is the ordered list of its sheets.
  A row is the list of its cells from column 1 on, a cell the program never touched is
  blank, and a sheet maps every row index to its row. Column widths, row heights, merged
  ranges, fills and number formats are not part of the model, and cell values are stored as
  they are given (the library's own checks on cell strings are outside the model).
\<close>

datatype cell_value = Empty | Num pyfloat | Str string

datatype side = Side (border_style: string) (side_color: string)

datatype border = Border (b_left: "side option") (b_right: "side option")
                         (b_top: "side option") (b_bottom: "side option")

datatype font = Font (font_color: "string option")

record cell =
  cvalue :: cell_value
  cfont :: "font option"
  cborder :: "border option"

definition blank_cell :: cell where
  "blank_cell = \<lparr>cvalue = Empty, cfont = None, cborder = None\<rparr>"

record sheet =
  title :: string
  rows :: "nat \<Rightarrow> cell list"

definition cell_at :: "sheet \<Rightarrow> nat \<Rightarrow> nat \<Rightarrow> cell" where
  "cell_at s r c = (if 1 \<le> c \<and> c \<le> length (rows s r) then rows s r ! (c - 1) else blank_cell)"

definition put_cell :: "cell list \<Rightarrow> nat \<Rightarrow> cell \<Rightarrow> cell list" where
  "put_cell row c x = (row @ replicate (c - length row) blank_cell)[c - 1 := x]"

definition update_cell :: "sheet \<Rightarrow> nat \<Rightarrow> nat \<Rightarrow> (cell \<Rightarrow> cell) \<Rightarrow> sheet" where
  "update_cell s r c f = s\<lparr>rows := (rows s)(r := put_cell (rows s r) c (f (cell_at s r c)))\<rparr>"

text \<open>
  \<^verbatim>\<open>sheet.insert_rows(idx)\<close>: every cell of a row at or below \<open>idx\<close> moves one row down,
  and row \<open>idx\<close> is left without cells.
\<close>

definition insert_rows :: "sheet \<Rightarrow> nat \<Rightarrow> sheet" where
  "insert_rows s idx =
     s\<lparr>rows := (\<lambda>r. if r < idx then rows s r else if r = idx then [] else rows s (r - 1))\<rparr>"

datatype exn = ValueError | IndexError | KeyError | FileNotFoundError | FileExistsError
  | PermissionError | IsADirectoryError | InvalidFileException | BadZipFile | AttributeError
  | LibraryError

text \<open>
  The messages the program prints, one constructor for each message of the modelled code
  (consecutive \<^verbatim>\<open>print\<close> calls of one message are one constructor; the text of a
  caught exception is left out).
\<close>

datatype msg =
    Error_opening string
  | Warn_page_out_of_range int string string
  | Error_processing_field string string
  | Warn_header_not_found string string
  | Sheet_not_found_creating string string
  | Critical_template_not_found string
  | Warn_no_batea string
  | Skipping_pdf_missing_template string
  | Writing_data string string nat
  | Creating_sheet string
  | Skipping_batea_missing_template string
  | Removing_template
  | Success_saved string
  | Error_could_not_save string
  | Error_saving string
  | Processing_finished
  | Template_file_not_found
  | File_exists_will_update string
  | Created_backup string string
  | Warn_backup_failed string
  | Error_could_not_open string
  | Error_loading_workbook
  | Warn_template_sheet_missing string string
  | Critical_plantilla_not_found string
  | Copying_properties string string
  | Finished_copying string
  | Created_template_sheet string
  | Critical_template_creation_failed
  | Creating_new_file string
  | Error_could_not_open_new string
  | Error_loading_new_workbook
  | Attempting_template_creation

section \<open>The Row Writer (\<^verbatim>\<open>write_data_to_sheet\<close>)\<close>

definition black_font :: font where
  "black_font = Font (Some ''000000'')"

definition thin_border_side :: side where
  "thin_border_side = Side ''thin'' ''000000''"

definition thin_border :: border where
  "thin_border = Border (Some thin_border_side) (Some thin_border_side)
                        (Some thin_border_side) (Some thin_border_side)"

text \<open>
  \<^verbatim>\<open>sheet.cell(row, column)\<close> raises \<^verbatim>\<open>ValueError\<close> when the row or the column is below
  1; \<open>sheet_cell\<close> is that access followed by an update of the cell.
\<close>

definition sheet_cell :: "sheet \<Rightarrow> nat \<Rightarrow> nat \<Rightarrow> (cell \<Rightarrow> cell) \<Rightarrow> exn + sheet" where
  "sheet_cell s r c f = (if r < 1 \<or> c < 1 then Inl ValueError else Inr (update_cell s r c f))"

fun apply_border :: "sheet \<Rightarrow> nat \<Rightarrow> nat list \<Rightarrow> exn + sheet" where
  "apply_border s t [] = Inr s"
| "apply_border s t (col_idx # cols) =
     (case sheet_cell s t col_idx (\<lambda>x. x\<lparr>cborder := Some thin_border\<rparr>) of
        Inl e \<Rightarrow> Inl e
      | Inr s' \<Rightarrow> apply_border s' t cols)"

definition field_to_header_map :: "(string \<times> string) list" where
  "field_to_header_map =
     [(''FECHA'', ''FECHA''), (''BATEA'', ''BATEA''), (''EMPRESA'', ''EMPRESA''),
      (''NIF EMPRESA'', ''NIF EMPRESA''), (''KG BRUTOS'', ''KG BRUTOS''),
      (''DESCUENTO'', ''DESCUENTO''), (''KG NETOS'', ''KG NETOS'')]"

definition dict_get :: "(string \<rightharpoonup> string) \<Rightarrow> string \<Rightarrow> string \<Rightarrow> string" where
  "dict_get d k dflt = (case d k of None \<Rightarrow> dflt | Some v \<Rightarrow> v)"

text \<open>
  The value the writer stores for a raw string: the number when \<^verbatim>\<open>float\<close> accepts it, the
  string itself when \<^verbatim>\<open>float\<close> raises \<^verbatim>\<open>ValueError\<close>.
\<close>

definition coerce :: "string \<Rightarrow> cell_value" where
  "coerce v = (case py_float v of Some x \<Rightarrow> Num x | None \<Rightarrow> Str v)"

text \<open>
  One round of the loop over \<^verbatim>\<open>field_to_header_map\<close>. Both branches of the
  \<^verbatim>\<open>try\<close> write through \<^verbatim>\<open>sheet.cell\<close>, so a column below 1 raises in the handler
  too and the \<^verbatim>\<open>ValueError\<close> leaves the function.
\<close>

definition write_field ::
  "(string \<rightharpoonup> nat) \<Rightarrow> (string \<rightharpoonup> string) \<Rightarrow> nat \<Rightarrow> sheet \<times> msg list \<Rightarrow> string \<times> string
     \<Rightarrow> exn + sheet \<times> msg list" where
  "write_field header_map data_row target_row st fh =
     (case st of (s, out) \<Rightarrow>
     (case fh of (field_name, header_name) \<Rightarrow>
        (case header_map header_name of
           Some col_idx \<Rightarrow>
             (let value_to_write = dict_get data_row field_name ''''
              in case sheet_cell s target_row col_idx
                        (\<lambda>x. x\<lparr>cvalue := coerce value_to_write, cfont := Some black_font\<rparr>) of
                   Inl e \<Rightarrow> Inl e
                 | Inr s' \<Rightarrow> Inr (s', out))
         | None \<Rightarrow> Inr (s, out @ [Warn_header_not_found header_name (title s)]))))"

fun write_fields ::
  "(string \<rightharpoonup> nat) \<Rightarrow> (string \<rightharpoonup> string) \<Rightarrow> nat \<Rightarrow> sheet \<times> msg list
     \<Rightarrow> (string \<times> string) list \<Rightarrow> exn + sheet \<times> msg list" where
  "write_fields header_map data_row target_row st [] = Inr st"
| "write_fields header_map data_row target_row st (fh # fhs) =
     (case write_field header_map data_row target_row st fh of
        Inl e \<Rightarrow> Inl e
      | Inr st' \<Rightarrow> write_fields header_map data_row target_row st' fhs)"

definition write_data_to_sheet ::
  "sheet \<Rightarrow> (string \<rightharpoonup> nat) \<Rightarrow> (string \<rightharpoonup> string) \<Rightarrow> nat \<Rightarrow> exn + sheet \<times> msg list" where
  "write_data_to_sheet s header_map data_row target_row =
     (case apply_border (insert_rows s target_row) target_row [1..<15] of
        Inl e \<Rightarrow> Inl e
      | Inr s1 \<Rightarrow> write_fields header_map data_row target_row (s1, []) field_to_header_map)"

section \<open>Header map (\<^verbatim>\<open>get_header_map\<close>)\<close>

text \<open>
  Two things the program leaves to its libraries are parameters of the model:
  Python's \<^verbatim>\<open>str()\<close> of a number, and the title openpyxl substitutes when a requested
  sheet title is already taken (its \<^verbatim>\<open>avoid_duplicate_name\<close>).
\<close>

record pylib =
  str_of_float :: "pyfloat \<Rightarrow> string"
  dedup_title :: "string list \<Rightarrow> string \<Rightarrow> string"

definition truthy :: "cell_value \<Rightarrow> bool" where
  "truthy v = (case v of Empty \<Rightarrow> False | Num x \<Rightarrow> x \<noteq> Finite 0 | Str s \<Rightarrow> s \<noteq> [])"

definition py_str :: "pylib \<Rightarrow> cell_value \<Rightarrow> string" where
  "py_str L v = (case v of Empty \<Rightarrow> ''None'' | Num x \<Rightarrow> str_of_float L x | Str s \<Rightarrow> s)"

fun header_scan :: "pylib \<Rightarrow> (string \<rightharpoonup> nat) \<Rightarrow> nat \<Rightarrow> cell list \<Rightarrow> (string \<rightharpoonup> nat)" where
  "header_scan L header_map col [] = header_map"
| "header_scan L header_map col (x # xs) =
     header_scan L
       (if truthy (cvalue x) then header_map(py_strip (py_str L (cvalue x)) \<mapsto> col)
        else header_map)
       (Suc col) xs"

definition get_header_map :: "pylib \<Rightarrow> sheet \<Rightarrow> nat \<Rightarrow> (string \<rightharpoonup> nat)" where
  "get_header_map L s header_row = header_scan L Map.empty 1 (rows s header_row)"

section \<open>Workbooks and the Sheet Provisioner (\<^verbatim>\<open>get_or_create_sheet\<close>)\<close>

record workbook =
  sheets :: "sheet list"
  active :: nat

definition sheetnames :: "workbook \<Rightarrow> string list" where
  "sheetnames wb = map title (sheets wb)"

fun index_of :: "string \<Rightarrow> string list \<Rightarrow> nat option" where
  "index_of n [] = None"
| "index_of n (x # xs) = (if x = n then Some 0 else map_option Suc (index_of n xs))"

text \<open>\<^verbatim>\<open>workbook[name]\<close>: the first sheet of that title, as its position in the workbook.\<close>

definition sheet_index :: "workbook \<Rightarrow> string \<Rightarrow> nat option" where
  "sheet_index wb n = index_of n (sheetnames wb)"

definition set_sheet :: "workbook \<Rightarrow> nat \<Rightarrow> sheet \<Rightarrow> workbook" where
  "set_sheet wb i s = wb\<lparr>sheets := (sheets wb)[i := s]\<rparr>"

text \<open>
  The library's title setter: an empty title and a title with one of the characters
  \<^verbatim>\<open>\ * ? : / [ ]\<close> raise \<^verbatim>\<open>ValueError\<close>; a new title that equals a title of the workbook
  up to case is replaced by a free one; any other title is stored as it is.
\<close>

definition invalid_title_chars :: "char list" where
  "invalid_title_chars = [CHR 0x5C, CHR ''*'', CHR ''?'', CHR '':'', CHR ''/'', CHR ''['', CHR '']'']"

definition valid_title :: "string \<Rightarrow> bool" where
  "valid_title v \<longleftrightarrow> v \<noteq> [] \<and> (\<forall>c \<in> set v. c \<notin> set invalid_title_chars)"

definition title_taken :: "string list \<Rightarrow> string \<Rightarrow> bool" where
  "title_taken names v \<longleftrightarrow> py_lower v \<in> set (map py_lower names)"

definition set_title :: "pylib \<Rightarrow> string list \<Rightarrow> string \<Rightarrow> string \<Rightarrow> exn + string" where
  "set_title L names old v =
     (if \<not> valid_title v then Inl ValueError
      else if old \<noteq> v \<and> title_taken names v then Inr (dedup_title L names v)
      else Inr v)"

definition empty_sheet :: "string \<Rightarrow> sheet" where
  "empty_sheet t = \<lparr>title = t, rows = (\<lambda>r. [])\<rparr>"

text \<open>\<^verbatim>\<open>workbook.create_sheet(title=...)\<close>: a new empty sheet at the end of the workbook.\<close>

definition create_sheet :: "pylib \<Rightarrow> workbook \<Rightarrow> string \<Rightarrow> exn + workbook" where
  "create_sheet L wb t =
     (case set_title L (sheetnames wb) [] t of
        Inl e \<Rightarrow> Inl e
      | Inr t' \<Rightarrow> Inr (wb\<lparr>sheets := sheets wb @ [empty_sheet t']\<rparr>))"

text \<open>
  \<^verbatim>\<open>workbook.copy_worksheet(ws)\<close>: a new sheet at the end, titled after the source with
  \<^verbatim>\<open>" Copy"\<close> appended, holding a copy of every cell of the source.
\<close>

definition copy_worksheet :: "pylib \<Rightarrow> workbook \<Rightarrow> nat \<Rightarrow> exn + workbook" where
  "copy_worksheet L wb i =
     (case create_sheet L wb (title (sheets wb ! i) @ '' Copy'') of
        Inl e \<Rightarrow> Inl e
      | Inr wb' \<Rightarrow>
          Inr (set_sheet wb' (length (sheets wb))
                 ((sheets wb' ! length (sheets wb))\<lparr>rows := rows (sheets wb ! i)\<rparr>)))"

definition rename_sheet :: "pylib \<Rightarrow> workbook \<Rightarrow> nat \<Rightarrow> string \<Rightarrow> exn + workbook" where
  "rename_sheet L wb i v =
     (case set_title L (sheetnames wb) (title (sheets wb ! i)) v of
        Inl e \<Rightarrow> Inl e
      | Inr t \<Rightarrow> Inr (set_sheet wb i ((sheets wb ! i)\<lparr>title := t\<rparr>)))"

text \<open>
  The sheet is returned as its position in the (updated) workbook, \<open>None\<close> for Python's
  \<^verbatim>\<open>None\<close>. The source's check that the template sheet belongs to the workbook cannot
  fail for a sheet that was just looked up in that workbook and has no branch here.
\<close>

definition get_or_create_sheet ::
  "pylib \<Rightarrow> workbook \<Rightarrow> string \<Rightarrow> string \<Rightarrow> exn + nat option \<times> workbook \<times> msg list" where
  "get_or_create_sheet L wb batea_name template_sheet_name =
     (if batea_name \<in> set (sheetnames wb) then Inr (sheet_index wb batea_name, wb, [])
      else
        (let out = [Sheet_not_found_creating batea_name template_sheet_name]
         in case sheet_index wb template_sheet_name of
              None \<Rightarrow> Inr (None, wb, out @ [Critical_template_not_found template_sheet_name])
            | Some ti \<Rightarrow>
                (case copy_worksheet L wb ti of
                   Inl e \<Rightarrow> Inl e
                 | Inr wb1 \<Rightarrow>
                     (case rename_sheet L wb1 (length (sheets wb)) batea_name of
                        Inl e \<Rightarrow> Inl e
                      | Inr wb2 \<Rightarrow> Inr (Some (length (sheets wb)), wb2, out)))))"

section \<open>The two write loops of \<^verbatim>\<open>main\<close>\<close>

text \<open>
  An extracted row is the dictionary \<^verbatim>\<open>main\<close> builds for one PDF; reading its
  \<^verbatim>\<open>'Source File'\<close> entry raises \<^verbatim>\<open>KeyError\<close> when the entry is missing.
\<close>

type_synonym data_row = "string \<rightharpoonup> string"

definition source_file :: "data_row \<Rightarrow> exn + string" where
  "source_file d = (case d ''Source File'' of None \<Rightarrow> Inl KeyError | Some f \<Rightarrow> Inr f)"

definition TEMPLATE :: string where
  "TEMPLATE = ''TEMPLATE''"

definition UNKNOWN_BATEA :: string where
  "UNKNOWN_BATEA = ''UNKNOWN_BATEA''"

text \<open>Inserting one row into the sheet at a position of the workbook, at the fixed row 5.\<close>

definition write_row :: "workbook \<Rightarrow> nat \<Rightarrow> (string \<rightharpoonup> nat) \<Rightarrow> data_row \<Rightarrow> exn + workbook \<times> msg list" where
  "write_row wb i header_map data_row =
     (case write_data_to_sheet (sheets wb ! i) header_map data_row 5 of
        Inl e \<Rightarrow> Inl e
      | Inr (s', out) \<Rightarrow> Inr (set_sheet wb i s', out))"

text \<open>One round of the update-mode loop over \<^verbatim>\<open>all_data\<close>.\<close>

definition update_step :: "pylib \<Rightarrow> workbook \<times> msg list \<Rightarrow> data_row \<Rightarrow> exn + workbook \<times> msg list" where
  "update_step L st data_row =
     (case st of (wb, out) \<Rightarrow>
      (let batea = py_strip (dict_get data_row ''BATEA'' '''')
       in if batea = [] then
            (case source_file data_row of
               Inl e \<Rightarrow> Inl e
             | Inr src \<Rightarrow> Inr (wb, out @ [Warn_no_batea src]))
          else
            (case get_or_create_sheet L wb batea TEMPLATE of
               Inl e \<Rightarrow> Inl e
             | Inr (None, wb1, out1) \<Rightarrow>
                 (case source_file data_row of
                    Inl e \<Rightarrow> Inl e
                  | Inr src \<Rightarrow> Inr (wb1, out @ out1 @ [Skipping_pdf_missing_template src]))
             | Inr (Some i, wb1, out1) \<Rightarrow>
                 (let header_map = get_header_map L (sheets wb1 ! i) 4
                  in case source_file data_row of
                       Inl e \<Rightarrow> Inl e
                     | Inr src \<Rightarrow>
                         (case write_row wb1 i header_map data_row of
                            Inl e \<Rightarrow> Inl e
                          | Inr (wb2, out2) \<Rightarrow>
                              Inr (wb2, out @ out1 @ [Writing_data src batea 5] @ out2))))))"

fun update_rows :: "pylib \<Rightarrow> workbook \<times> msg list \<Rightarrow> data_row list \<Rightarrow> exn + workbook \<times> msg list" where
  "update_rows L st [] = Inr st"
| "update_rows L st (d # ds) =
     (case update_step L st d of
        Inl e \<Rightarrow> Inl e
      | Inr st' \<Rightarrow> update_rows L st' ds)"

text \<open>
  Create mode groups the rows first. \<^verbatim>\<open>data_by_batea\<close> is a dictionary, so its keys
  come in the order of their first row.
\<close>

definition create_key :: "data_row \<Rightarrow> string" where
  "create_key row =
     (let batea = py_strip (dict_get row ''BATEA'' UNKNOWN_BATEA)
      in if batea = [] then UNKNOWN_BATEA else batea)"

fun add_to_group :: "string \<Rightarrow> data_row \<Rightarrow> (string \<times> data_row list) list \<Rightarrow> (string \<times> data_row list) list" where
  "add_to_group k d [] = [(k, [d])]"
| "add_to_group k d ((k', ds) # g) =
     (if k' = k then (k', ds @ [d]) # g else (k', ds) # add_to_group k d g)"

definition group_by_batea :: "data_row list \<Rightarrow> (string \<times> data_row list) list" where
  "group_by_batea all_data = foldl (\<lambda>g row. add_to_group (create_key row) row g) [] all_data"

text \<open>The inner loop of create mode: the rows of one group, into one sheet.\<close>

fun write_group ::
  "workbook \<times> msg list \<Rightarrow> nat \<Rightarrow> (string \<rightharpoonup> nat) \<Rightarrow> string \<Rightarrow> data_row list \<Rightarrow> exn + workbook \<times> msg list" where
  "write_group st i header_map batea_name [] = Inr st"
| "write_group (wb, out) i header_map batea_name (d # ds) =
     (case source_file d of
        Inl e \<Rightarrow> Inl e
      | Inr src \<Rightarrow>
          (case write_row wb i header_map d of
             Inl e \<Rightarrow> Inl e
           | Inr (wb', out') \<Rightarrow>
               write_group (wb', out @ [Writing_data src batea_name 5] @ out') i header_map batea_name ds))"

definition create_step ::
  "pylib \<Rightarrow> workbook \<times> msg list \<Rightarrow> string \<times> data_row list \<Rightarrow> exn + workbook \<times> msg list" where
  "create_step L st grp =
     (case st of (wb, out) \<Rightarrow>
     (case grp of (batea_name, batea_data) \<Rightarrow>
        (case get_or_create_sheet L wb batea_name TEMPLATE of
           Inl e \<Rightarrow> Inl e
         | Inr (None, wb1, out1) \<Rightarrow>
             Inr (wb1, out @ [Creating_sheet batea_name] @ out1
                         @ [Skipping_batea_missing_template batea_name])
         | Inr (Some i, wb1, out1) \<Rightarrow>
             write_group (wb1, out @ [Creating_sheet batea_name] @ out1) i
               (get_header_map L (sheets wb1 ! i) 4) batea_name batea_data)))"

fun create_groups ::
  "pylib \<Rightarrow> workbook \<times> msg list \<Rightarrow> (string \<times> data_row list) list \<Rightarrow> exn + workbook \<times> msg list" where
  "create_groups L st [] = Inr st"
| "create_groups L st (g # gs) =
     (case create_step L st g of
        Inl e \<Rightarrow> Inl e
      | Inr st' \<Rightarrow> create_groups L st' gs)"

section \<open>Files, paths and the clock\<close>

text \<open>
  The file system as the program uses it: regular files with their content (a workbook, or
  \<open>Junk\<close>, something the library cannot read), the directories that exist besides the working
  directory, and the paths the operating system refuses to write (a file open in Excel, a
  protected place). Paths follow the POSIX rules of \<^verbatim>\<open>os.path\<close>.
\<close>

datatype fcontent = Xlsx workbook | Junk

record world =
  files :: "string \<rightharpoonup> fcontent"
  dirs :: "string set"
  locked :: "string set"

definition path_exists :: "world \<Rightarrow> string \<Rightarrow> bool" where
  "path_exists w p \<longleftrightarrow> files w p \<noteq> None \<or> p \<in> dirs w"

definition basename :: "string \<Rightarrow> string" where
  "basename p = rev (takeWhile (\<lambda>c. c \<noteq> CHR ''/'') (rev p))"

definition dirname :: "string \<Rightarrow> string" where
  "dirname p = rev (dropWhile (\<lambda>c. c = CHR ''/'') (dropWhile (\<lambda>c. c \<noteq> CHR ''/'') (rev p)))"

definition path_join :: "string \<Rightarrow> string \<Rightarrow> string" where
  "path_join a b =
     (case b of
        [] \<Rightarrow> (if a = [] \<or> last a = CHR ''/'' then a else a @ ''/'')
      | c # r \<Rightarrow>
          if c = CHR ''/'' then b
          else if a = [] \<or> last a = CHR ''/'' then a @ b
          else a @ ''/'' @ b)"

text \<open>
  \<^verbatim>\<open>os.path.splitext\<close>: the extension starts at the last dot of the last component, unless
  only dots come before it in that component.
\<close>

definition splitext :: "string \<Rightarrow> string \<times> string" where
  "splitext p =
     (if CHR ''.'' \<in> set (dropWhile (\<lambda>c. c = CHR ''.'') (basename p)) then
        (let ext = CHR ''.'' # rev (takeWhile (\<lambda>c. c \<noteq> CHR ''.'') (rev p))
         in (take (length p - length ext) p, ext))
      else (p, []))"

definition makedirs :: "world \<Rightarrow> string \<Rightarrow> exn + world" where
  "makedirs w p =
     (if p \<in> dirs w then Inr w
      else if files w p \<noteq> None then Inl FileExistsError
      else if p \<in> locked w then Inl PermissionError
      else Inr (w\<lparr>dirs := insert p (dirs w)\<rparr>))"

definition write_file :: "world \<Rightarrow> string \<Rightarrow> fcontent \<Rightarrow> exn + world" where
  "write_file w p c =
     (if p \<in> dirs w then Inl IsADirectoryError
      else if dirname p \<noteq> [] \<and> dirname p \<notin> dirs w then Inl FileNotFoundError
      else if p \<in> locked w then Inl PermissionError
      else Inr (w\<lparr>files := (files w)(p \<mapsto> c)\<rparr>))"

definition shutil_copy :: "world \<Rightarrow> string \<Rightarrow> string \<Rightarrow> exn + world" where
  "shutil_copy w src dst =
     (case files w src of
        None \<Rightarrow> Inl (if src \<in> dirs w then IsADirectoryError else FileNotFoundError)
      | Some c \<Rightarrow> write_file w (if dst \<in> dirs w then path_join dst (basename src) else dst) c)"

text \<open>
  \<^verbatim>\<open>load_workbook\<close> looks at the extension of the name first and raises
  \<^verbatim>\<open>InvalidFileException\<close> unless it is one of the four formats the library reads; then
  it opens the file as a zip archive. For unreadable content the exception is taken to be
  \<^verbatim>\<open>BadZipFile\<close> (the file is no archive); whichever it is, \<^verbatim>\<open>main\<close> handles it in
  its \<^verbatim>\<open>except Exception\<close> branches.
\<close>

definition supported_format :: "string \<Rightarrow> bool" where
  "supported_format p \<longleftrightarrow>
     py_lower (snd (splitext p)) \<in> set [''.xlsx'', ''.xlsm'', ''.xltx'', ''.xltm'']"

definition load_workbook :: "world \<Rightarrow> string \<Rightarrow> exn + workbook" where
  "load_workbook w p =
     (if \<not> supported_format p then Inl InvalidFileException
      else
        (case files w p of
           None \<Rightarrow> Inl (if p \<in> dirs w then IsADirectoryError else FileNotFoundError)
         | Some Junk \<Rightarrow> Inl BadZipFile
         | Some (Xlsx wb) \<Rightarrow> Inr wb))"

text \<open>
  \<^verbatim>\<open>workbook.save\<close> opens the file for writing first, which empties it, and writes the
  workbook then; the library refuses a workbook without a sheet only while writing, so
  that failure leaves an unreadable file behind. The result is the file system afterwards
  and the exception raised, if any.
\<close>

definition save_workbook :: "world \<Rightarrow> workbook \<Rightarrow> string \<Rightarrow> world \<times> exn option" where
  "save_workbook w wb p =
     (case write_file w p (if sheets wb = [] then Junk else Xlsx wb) of
        Inl e \<Rightarrow> (w, Some e)
      | Inr w' \<Rightarrow> (w', if sheets wb = [] then Some IndexError else None))"

text \<open>
  \<^verbatim>\<open>datetime.now().strftime("%Y-%m-%d_%H%M%S")\<close>, for the years 1000 to 9999: the
  microseconds of the clock do not reach the text.
\<close>

record datetime =
  year :: nat
  month :: nat
  day :: nat
  hour :: nat
  minute :: nat
  second :: nat
  microsecond :: nat

definition digit_char :: "nat \<Rightarrow> char" where
  "digit_char n = ''0123456789'' ! (n mod 10)"

definition dec :: "nat \<Rightarrow> nat \<Rightarrow> string" where
  "dec w n = map (\<lambda>i. digit_char (n div 10 ^ i)) (rev [0..<w])"

definition strftime :: "datetime \<Rightarrow> string" where
  "strftime now =
     dec 4 (year now) @ ''-'' @ dec 2 (month now) @ ''-'' @ dec 2 (day now) @ ''_''
       @ dec 2 (hour now) @ dec 2 (minute now) @ dec 2 (second now)"

section \<open>The Workbook Orchestrator (\<^verbatim>\<open>main\<close>, from the template check on)\<close>

text \<open>
  How a run ends: an early \<^verbatim>\<open>return\<close>, an exception nobody catches, or the terminal save
  step, with the workbook that was handed to \<^verbatim>\<open>save\<close> and the exception the step
  caught, if any. The messages printed before an uncaught exception are not kept.
\<close>

datatype outcome = Returned | Crashed exn | Finished workbook "exn option"

definition backup_path_of :: "datetime \<Rightarrow> string \<Rightarrow> string" where
  "backup_path_of now output_filename =
     (case splitext output_filename of
        (base_name, extension) \<Rightarrow>
          path_join ''.old'' (base_name @ ''_'' @ strftime now @ extension))"

definition backup_output :: "world \<Rightarrow> datetime \<Rightarrow> string \<Rightarrow> world \<times> msg list" where
  "backup_output w now output_filename =
     (case makedirs w ''.old'' of
        Inl e \<Rightarrow> (w, [Warn_backup_failed output_filename])
      | Inr w1 \<Rightarrow>
          (case shutil_copy w1 output_filename (backup_path_of now output_filename) of
             Inl e \<Rightarrow> (w1, [Warn_backup_failed output_filename])
           | Inr w2 \<Rightarrow>
               (w2, [Created_backup output_filename (backup_path_of now output_filename)])))"

text \<open>
  \<^verbatim>\<open>copy_sheet_properties\<close>, for what the model keeps of a sheet: a value of the source
  replaces the target's (\<^verbatim>\<open>cell(..., value=None)\<close> leaves it), and the style of a styled
  source cell replaces the target's.
\<close>

definition has_style :: "cell \<Rightarrow> bool" where
  "has_style x \<longleftrightarrow> cfont x \<noteq> None \<or> cborder x \<noteq> None"

definition overlay_cell :: "cell \<Rightarrow> cell \<Rightarrow> cell" where
  "overlay_cell x y =
     \<lparr>cvalue = (if cvalue x = Empty then cvalue y else cvalue x),
      cfont = (if has_style x then cfont x else cfont y),
      cborder = (if has_style x then cborder x else cborder y)\<rparr>"

definition nth_cell :: "cell list \<Rightarrow> nat \<Rightarrow> cell" where
  "nth_cell xs i = (if i < length xs then xs ! i else blank_cell)"

definition overlay_row :: "cell list \<Rightarrow> cell list \<Rightarrow> cell list" where
  "overlay_row xs ys =
     map (\<lambda>i. overlay_cell (nth_cell xs i) (nth_cell ys i)) [0..<max (length xs) (length ys)]"

definition copy_sheet_properties :: "sheet \<Rightarrow> sheet \<Rightarrow> sheet \<times> msg list" where
  "copy_sheet_properties source_sheet target_sheet =
     (target_sheet\<lparr>rows := (\<lambda>r. overlay_row (rows source_sheet r) (rows target_sheet r))\<rparr>,
      [Copying_properties (title source_sheet) (title target_sheet),
       Finished_copying (title target_sheet)])"

text \<open>
  Update mode, lines 353 to 383: a workbook without a sheet named TEMPLATE gets one, built
  from the active sheet of the template file. \<open>Inl\<close> is the early \<^verbatim>\<open>return\<close>.
\<close>

definition ensure_template ::
  "pylib \<Rightarrow> world \<Rightarrow> workbook \<Rightarrow> string \<Rightarrow> string \<Rightarrow> msg list + workbook \<times> msg list" where
  "ensure_template L w wb output_filename template_path =
     (if TEMPLATE \<in> set (sheetnames wb) then Inr (wb, [])
      else
        (let out = [Warn_template_sheet_missing TEMPLATE output_filename, Attempting_template_creation]
         in if \<not> path_exists w template_path then
              Inl (out @ [Critical_plantilla_not_found template_path])
            else
              (case load_workbook w template_path of
                 Inl e \<Rightarrow> Inl (out @ [Critical_template_creation_failed])
               | Inr template_wb \<Rightarrow>
                   (case create_sheet L wb TEMPLATE of
                      Inl e \<Rightarrow> Inl (out @ [Critical_template_creation_failed])
                    | Inr wb1 \<Rightarrow>
                        if active template_wb < length (sheets template_wb) then
                          (case copy_sheet_properties (sheets template_wb ! active template_wb)
                                  (sheets wb1 ! length (sheets wb)) of
                             (target_sheet, out1) \<Rightarrow>
                               Inr (set_sheet wb1 (length (sheets wb)) target_sheet,
                                    out @ out1 @ [Created_template_sheet output_filename]))
                        else Inl (out @ [Critical_template_creation_failed])))))"

text \<open>The terminal step, lines 464 to 482.\<close>

definition del_sheet :: "workbook \<Rightarrow> string \<Rightarrow> exn + workbook" where
  "del_sheet wb n =
     (case sheet_index wb n of
        None \<Rightarrow> Inl KeyError
      | Some i \<Rightarrow> Inr (wb\<lparr>sheets := take i (sheets wb) @ drop (Suc i) (sheets wb)\<rparr>))"

definition remove_template :: "workbook \<Rightarrow> exn + workbook \<times> msg list" where
  "remove_template wb =
     (if TEMPLATE \<in> set (sheetnames wb) then
        (case del_sheet wb TEMPLATE of
           Inl e \<Rightarrow> Inl e
         | Inr wb' \<Rightarrow> Inr (wb', [Removing_template]))
      else Inr (wb, []))"

definition save_error_msg :: "exn \<Rightarrow> string \<Rightarrow> msg" where
  "save_error_msg e output_filename =
     (if e = PermissionError then Error_could_not_save output_filename
      else Error_saving output_filename)"

definition finish :: "world \<Rightarrow> workbook \<Rightarrow> string \<Rightarrow> msg list \<Rightarrow> world \<times> msg list \<times> outcome" where
  "finish w wb output_filename out =
     (case remove_template wb of
        Inl e \<Rightarrow>
          (w, out @ [save_error_msg e output_filename, Processing_finished], Finished wb (Some e))
      | Inr (wb', out1) \<Rightarrow>
          (case save_workbook w wb' output_filename of
             (w', Some e) \<Rightarrow>
               (w', out @ out1 @ [save_error_msg e output_filename, Processing_finished],
                Finished wb' (Some e))
           | (w', None) \<Rightarrow>
               (w', out @ out1 @ [Success_saved output_filename, Processing_finished],
                Finished wb' None)))"

definition load_error_msg :: "exn \<Rightarrow> msg \<Rightarrow> msg \<Rightarrow> msg" where
  "load_error_msg e m1 m2 = (if e = InvalidFileException \<or> e = FileNotFoundError then m1 else m2)"

definition main_update ::
  "pylib \<Rightarrow> world \<Rightarrow> datetime \<Rightarrow> string \<Rightarrow> string \<Rightarrow> data_row list \<Rightarrow> world \<times> msg list \<times> outcome" where
  "main_update L w now template_path output_filename all_data =
     (case backup_output w now output_filename of
        (w1, out1) \<Rightarrow>
          (let out = [File_exists_will_update output_filename] @ out1
           in case load_workbook w1 output_filename of
                Inl e \<Rightarrow>
                  (w1, out @ [load_error_msg e (Error_could_not_open output_filename)
                                 Error_loading_workbook], Returned)
              | Inr workbook \<Rightarrow>
                  (case ensure_template L w1 workbook output_filename template_path of
                     Inl out2 \<Rightarrow> (w1, out @ out2, Returned)
                   | Inr (wb1, out2) \<Rightarrow>
                       (case update_rows L (wb1, out @ out2) all_data of
                          Inl e \<Rightarrow> (w1, [], Crashed e)
                        | Inr (wb2, out3) \<Rightarrow> finish w1 wb2 output_filename out3))))"

text \<open>
  Create mode, lines 407 to 460. The \<^verbatim>\<open>try\<close> around the load also covers the renaming of
  the active sheet; \<^verbatim>\<open>workbook.active\<close> is \<^verbatim>\<open>None\<close> when the active index points at
  no sheet, and setting its title then raises \<^verbatim>\<open>AttributeError\<close>.
\<close>

definition load_and_rename :: "pylib \<Rightarrow> world \<Rightarrow> string \<Rightarrow> exn + workbook" where
  "load_and_rename L w output_filename =
     (case load_workbook w output_filename of
        Inl e \<Rightarrow> Inl e
      | Inr workbook \<Rightarrow>
          if active workbook < length (sheets workbook) then
            rename_sheet L workbook (active workbook) TEMPLATE
          else Inl AttributeError)"

definition main_create ::
  "pylib \<Rightarrow> world \<Rightarrow> string \<Rightarrow> string \<Rightarrow> data_row list \<Rightarrow> world \<times> msg list \<times> outcome" where
  "main_create L w template_path output_filename all_data =
     (let out = [Creating_new_file output_filename];
          data_by_batea = group_by_batea all_data
      in case shutil_copy w template_path output_filename of
           Inl e \<Rightarrow> (w, [], Crashed e)
         | Inr w1 \<Rightarrow>
             (case load_and_rename L w1 output_filename of
                Inl e \<Rightarrow>
                  (w1, out @ [load_error_msg e (Error_could_not_open_new output_filename)
                                 Error_loading_new_workbook], Returned)
              | Inr workbook \<Rightarrow>
                  (case create_groups L (workbook, out) data_by_batea of
                     Inl e \<Rightarrow> (w1, [], Crashed e)
                   | Inr (wb2, out2) \<Rightarrow> finish w1 wb2 output_filename out2)))"

definition ends_with :: "string \<Rightarrow> string \<Rightarrow> bool" where
  "ends_with s suffix \<longleftrightarrow> length suffix \<le> length s \<and> drop (length s - length suffix) s = suffix"

text \<open>
  \<^verbatim>\<open>main\<close> from line 298 on. \<open>output_name\<close> is what the operator types at the prompt,
  \<open>all_data\<close> the rows extracted before.
\<close>

definition with_xlsx :: "string \<Rightarrow> string" where
  "with_xlsx output_name =
     (if ends_with (py_lower output_name) ''.xlsx'' then output_name
      else output_name @ ''.xlsx'')"

definition main_excel ::
  "pylib \<Rightarrow> world \<Rightarrow> datetime \<Rightarrow> string \<Rightarrow> string \<Rightarrow> data_row list \<Rightarrow> world \<times> msg list \<times> outcome" where
  "main_excel L w now template_path output_name all_data =
     (if \<not> path_exists w template_path then (w, [Template_file_not_found], Returned)
      else
        (let output_filename = with_xlsx output_name
         in if path_exists w output_filename
            then main_update L w now template_path output_filename all_data
            else main_create L w template_path output_filename all_data))"

section \<open>The Field Extractor (\<^verbatim>\<open>extract_data_from_pdf\<close>)\<close>

text \<open>
  A field descriptor has the three entries of the configuration: a name, a page index and
  the list of rectangle coordinates (of any length). A document is what the PDF library
  gives: its page count and, for a page index, the page or the exception
  \<^verbatim>\<open>load_page\<close> raises; a page gives the text inside a rectangle, or the exception
  \<^verbatim>\<open>get_text\<close> raises. \<open>pdfs\<close> maps a path to its document when \<^verbatim>\<open>fitz.open\<close>
  succeeds.
\<close>

record field_desc =
  fname :: string
  page :: int
  rect :: "rat list"

datatype pdf_page = Page (get_text: "rat \<times> rat \<times> rat \<times> rat \<Rightarrow> exn + string")

record document =
  page_count :: int
  load_page :: "int \<Rightarrow> exn + pdf_page"

definition replace_char :: "char \<Rightarrow> char \<Rightarrow> string \<Rightarrow> string" where
  "replace_char a b s = map (\<lambda>c. if c = a then b else c) s"

definition clean_text :: "string \<Rightarrow> string" where
  "clean_text raw = replace_char CHR 0x0D CHR '' '' (replace_char CHR 0x0A CHR '' '' (py_strip raw))"

text \<open>The body of the \<^verbatim>\<open>try\<close> for one field past the page check: \<open>Inl\<close> is a raise.\<close>

definition read_field :: "document \<Rightarrow> field_desc \<Rightarrow> exn + string" where
  "read_field doc field =
     (case load_page doc (page field) of
        Inl e \<Rightarrow> Inl e
      | Inr pg \<Rightarrow>
          (case rect field of
             x0 # y0 # x1 # y1 # others \<Rightarrow>
               (case get_text pg (x0, y0, x1, y1) of
                  Inl e \<Rightarrow> Inl e
                | Inr text \<Rightarrow> Inr (clean_text text))
           | _ \<Rightarrow> Inl IndexError))"

definition extract_field ::
  "string \<Rightarrow> document \<Rightarrow> (string \<rightharpoonup> string) \<times> msg list \<Rightarrow> field_desc \<Rightarrow> (string \<rightharpoonup> string) \<times> msg list" where
  "extract_field pdf_path doc st field =
     (case st of (extracted_data, out) \<Rightarrow>
        if page field \<ge> page_count doc then
          (extracted_data(fname field \<mapsto> []),
           out @ [Warn_page_out_of_range (page field) pdf_path (fname field)])
        else
          (case read_field doc field of
             Inr text \<Rightarrow> (extracted_data(fname field \<mapsto> text), out)
           | Inl e \<Rightarrow>
               (extracted_data(fname field \<mapsto> ''ERROR''),
                out @ [Error_processing_field (fname field) pdf_path])))"

definition extract_data_from_pdf ::
  "(string \<rightharpoonup> document) \<Rightarrow> string \<Rightarrow> field_desc list \<Rightarrow> (string \<rightharpoonup> string) option \<times> msg list" where
  "extract_data_from_pdf pdfs pdf_path flds =
     (case pdfs pdf_path of
        None \<Rightarrow> (None, [Error_opening pdf_path])
      | Some doc \<Rightarrow>
          (case foldl (extract_field pdf_path doc) (Map.empty, []) flds of
             (extracted_data, out) \<Rightarrow> (Some extracted_data, out)))"

section \<open>Notions used in the statements\<close>

text \<open>
  The cell the Row Writer leaves in column \<open>c\<close> of the inserted row: the border on the
  columns 1 to 14, then one write for each entry of \<^verbatim>\<open>field_to_header_map\<close> whose header
  sits in that column, in the order of the loop. \<open>header_warnings\<close> are the messages of
  the loop, \<open>cols_ok\<close> says that a header map names columns from 1 on.
\<close>

definition border_cell :: "nat \<Rightarrow> cell" where
  "border_cell c = (if 1 \<le> c \<and> c \<le> 14 then blank_cell\<lparr>cborder := Some thin_border\<rparr> else blank_cell)"

definition put_field :: "(string \<rightharpoonup> nat) \<Rightarrow> data_row \<Rightarrow> nat \<Rightarrow> cell \<Rightarrow> string \<times> string \<Rightarrow> cell" where
  "put_field hm d c x fh =
     (if hm (snd fh) = Some c
      then x\<lparr>cvalue := coerce (dict_get d (fst fh) ''''), cfont := Some black_font\<rparr>
      else x)"

definition written_cell :: "(string \<rightharpoonup> nat) \<Rightarrow> data_row \<Rightarrow> nat \<Rightarrow> cell" where
  "written_cell hm d c = foldl (put_field hm d c) (border_cell c) field_to_header_map"

definition header_warnings :: "(string \<rightharpoonup> nat) \<Rightarrow> string \<Rightarrow> (string \<times> string) list \<Rightarrow> msg list" where
  "header_warnings hm t fhs =
     map (\<lambda>fh. Warn_header_not_found (snd fh) t) (filter (\<lambda>fh. hm (snd fh) = None) fhs)"

definition cols_ok :: "(string \<rightharpoonup> nat) \<Rightarrow> bool" where
  "cols_ok hm \<longleftrightarrow> (\<forall>h c. hm h = Some c \<longrightarrow> 1 \<le> c)"

text \<open>A small sheet, header map and extracted row, used to instantiate the results.\<close>

definition hdr :: "string \<Rightarrow> cell" where
  "hdr t = \<lparr>cvalue = Str t, cfont = None, cborder = None\<rparr>"

definition ex_sheet :: sheet where
  "ex_sheet = \<lparr>title = ''B7'',
               rows = (\<lambda>r. if r = 4 then [hdr ''FECHA'', hdr ''BATEA'', hdr ''KG NETOS'']
                           else if r = 5 then [hdr ''old'']
                           else [])\<rparr>"

definition ex_header_map :: "string \<rightharpoonup> nat" where
  "ex_header_map = [''FECHA'' \<mapsto> 1, ''BATEA'' \<mapsto> 2, ''KG NETOS'' \<mapsto> 3]"

definition ex_row :: data_row where
  "ex_row = [''FECHA'' \<mapsto> ''12/05'', ''BATEA'' \<mapsto> ''A-102'', ''KG NETOS'' \<mapsto> ''1500.50'',
             ''Source File'' \<mapsto> ''a.pdf'']"

text \<open>
  For the Field Extractor: the string and the messages one round of the loop leaves for a
  field, and what it means for a string to be free of line breaks and trimmed.
\<close>

definition field_value :: "document \<Rightarrow> field_desc \<Rightarrow> string" where
  "field_value doc field =
     (if page field \<ge> page_count doc then []
      else (case read_field doc field of Inr text \<Rightarrow> text | Inl e \<Rightarrow> ''ERROR''))"

definition field_msgs :: "string \<Rightarrow> document \<Rightarrow> field_desc \<Rightarrow> msg list" where
  "field_msgs pdf_path doc field =
     (if page field \<ge> page_count doc
      then [Warn_page_out_of_range (page field) pdf_path (fname field)]
      else (case read_field doc field of
              Inr text \<Rightarrow> []
            | Inl e \<Rightarrow> [Error_processing_field (fname field) pdf_path]))"

definition no_linebreak :: "string \<Rightarrow> bool" where
  "no_linebreak v \<longleftrightarrow> CHR 0x0A \<notin> set v \<and> CHR 0x0D \<notin> set v"

definition trimmed :: "string \<Rightarrow> bool" where
  "trimmed v \<longleftrightarrow> v = [] \<or> (\<not> is_space (hd v) \<and> \<not> is_space (last v))"

definition ex_doc :: document where
  "ex_doc =
     \<lparr>page_count = 1,
      load_page = (\<lambda>n. if n = 0
                        then Inr (Page (\<lambda>r. Inr ('' 12/05/2024'' @ [CHR 0x0A] @ ''10:30 '')))
                        else Inl ValueError)\<rparr>"

definition ex_fields :: "field_desc list" where
  "ex_fields =
     [\<lparr>fname = ''FECHA'', page = 0, rect = [0, 0, 100, 20]\<rparr>,
      \<lparr>fname = ''BATEA'', page = 3, rect = [0, 20, 100, 40]\<rparr>,
      \<lparr>fname = ''EMPRESA'', page = 0, rect = [0, 40]\<rparr>]"

definition ex_pdfs :: "string \<rightharpoonup> document" where
  "ex_pdfs = [''a.pdf'' \<mapsto> ex_doc]"

text \<open>
  \<open>stacked s s' hm ds\<close>: the sheet \<open>s'\<close> is \<open>s\<close> after the rows \<open>ds\<close> were written one
  after the other at row 5 under the header map \<open>hm\<close>: the title and the rows 1 to 4 are
  those of \<open>s\<close>, the rows 5, 6, ... hold the rows of \<open>ds\<close> from the last to the first, and
  below them the old rows of \<open>s\<close> follow, moved down by the number of rows written.
  \<open>has_source\<close> says that a row has its \<^verbatim>\<open>'Source File'\<close> entry.
\<close>

definition stacked :: "sheet \<Rightarrow> sheet \<Rightarrow> (string \<rightharpoonup> nat) \<Rightarrow> data_row list \<Rightarrow> bool" where
  "stacked s s' hm ds \<longleftrightarrow>
     title s' = title s
     \<and> (\<forall>r. r < 5 \<longrightarrow> rows s' r = rows s r)
     \<and> (\<forall>j c. j < length ds \<longrightarrow> cell_at s' (5 + j) c = written_cell hm (ds ! (length ds - 1 - j)) c)
     \<and> (\<forall>r c. 5 \<le> r \<longrightarrow> cell_at s' (r + length ds) c = cell_at s r c)"

definition has_source :: "data_row \<Rightarrow> bool" where
  "has_source d \<longleftrightarrow> d ''Source File'' \<noteq> None"

definition update_key :: "data_row \<Rightarrow> string" where
  "update_key d = py_strip (dict_get d ''BATEA'' '''')"

text \<open>The workbook a loop returns, without its messages.\<close>

definition wb_of :: "exn + workbook \<times> msg list \<Rightarrow> exn + workbook" where
  "wb_of r = (case r of Inl e \<Rightarrow> Inl e | Inr (wb, out) \<Rightarrow> Inr wb)"

definition template_sheet :: sheet where
  "template_sheet = \<lparr>title = ''TEMPLATE'',
                     rows = (\<lambda>r. if r = 4 then [hdr ''FECHA'', hdr ''BATEA'', hdr ''KG NETOS'']
                                 else [])\<rparr>"

definition ex_wb :: workbook where
  "ex_wb = \<lparr>sheets = [ex_sheet, template_sheet], active = 0\<rparr>"

definition ex_lib :: pylib where
  "ex_lib = \<lparr>str_of_float = (\<lambda>x. ''0.0''),
            dedup_title = (\<lambda>names v. v @ replicate (Suc (sum_list (map length names))) CHR ''1'')\<rparr>"

definition ex_row2 :: data_row where
  "ex_row2 = [''FECHA'' \<mapsto> ''13/05'', ''BATEA'' \<mapsto> '' B7 '', ''KG NETOS'' \<mapsto> ''20'',
              ''Source File'' \<mapsto> ''b.pdf'']"

definition ex_row3 :: data_row where
  "ex_row3 = [''FECHA'' \<mapsto> ''14/05'', ''BATEA'' \<mapsto> ''B7'', ''KG NETOS'' \<mapsto> ''30'',
              ''Source File'' \<mapsto> ''c.pdf'']"

definition ex_row_nokey :: data_row where
  "ex_row_nokey = [''FECHA'' \<mapsto> ''15/05'', ''BATEA'' \<mapsto> ''  '', ''Source File'' \<mapsto> ''d.pdf'']"

text \<open>
  A library is sound about duplicates when the title it substitutes is not one of the
  titles it was given (openpyxl counts up until the title is free). A world is well formed
  when no workbook file has two sheets of one title.
\<close>

definition lib_fresh :: "pylib \<Rightarrow> bool" where
  "lib_fresh L \<longleftrightarrow> (\<forall>names v. dedup_title L names v \<notin> set names)"

definition wf_world :: "world \<Rightarrow> bool" where
  "wf_world w \<longleftrightarrow> (\<forall>p wb. files w p = Some (Xlsx wb) \<longrightarrow> distinct (sheetnames wb))"

text \<open>
  The keys of a create-mode run that the library stores as sheet titles unchanged: each is
  a valid title, and none equals, up to case, another key, the template name or the title
  \<^verbatim>\<open>TEMPLATE Copy\<close> a fresh clone bears before it is renamed (the template name itself may
  be a key).
\<close>

definition keys_accepted :: "string list \<Rightarrow> bool" where
  "keys_accepted K \<longleftrightarrow>
     (\<forall>k \<in> set K. valid_title k \<and> py_lower k \<noteq> py_lower ''TEMPLATE Copy''
        \<and> (\<forall>k' \<in> set (TEMPLATE # K). py_lower k' = py_lower k \<longrightarrow> k' = k))"

text \<open>
  What a run delivers: the sheet titles of the workbook it saved, and the value of a cell
  of a sheet of that workbook.
\<close>

definition saved_workbook :: "world \<times> msg list \<times> outcome \<Rightarrow> workbook option" where
  "saved_workbook res = (case snd (snd res) of Finished wb None \<Rightarrow> Some wb | _ \<Rightarrow> None)"

definition saved_names :: "world \<times> msg list \<times> outcome \<Rightarrow> string list option" where
  "saved_names res = map_option sheetnames (saved_workbook res)"

definition saved_value :: "world \<times> msg list \<times> outcome \<Rightarrow> string \<Rightarrow> nat \<Rightarrow> nat \<Rightarrow> cell_value option" where
  "saved_value res n r c =
     (case saved_workbook res of
        None \<Rightarrow> None
      | Some wb \<Rightarrow>
          (case sheet_index wb n of
             None \<Rightarrow> None
           | Some i \<Rightarrow> Some (cvalue (cell_at (sheets wb ! i) r c))))"

definition plantilla_wb :: workbook where
  "plantilla_wb = \<lparr>sheets = [template_sheet\<lparr>title := ''Hoja1''\<rparr>], active = 0\<rparr>"

definition create_world :: world where
  "create_world = \<lparr>files = [''PLANTILLA.xlsx'' \<mapsto> Xlsx plantilla_wb], dirs = {}, locked = {}\<rparr>"

definition ex_row_template :: data_row where
  "ex_row_template = [''FECHA'' \<mapsto> ''16/05'', ''BATEA'' \<mapsto> ''TEMPLATE'', ''KG NETOS'' \<mapsto> ''40'',
                      ''Source File'' \<mapsto> ''t.pdf'']"

definition ex_now :: datetime where
  "ex_now = \<lparr>year = 2025, month = 3, day = 9, hour = 14, minute = 5, second = 7, microsecond = 123456\<rparr>"

(*DEFS_END*)

section \<open>The Row Writer: what one call does\<close>

lemma length_put_cell: "length (put_cell row c x) = max (length row) c"
  by (auto simp: put_cell_def)

lemma nth_put_cell:
  "1 \<le> c \<Longrightarrow> i < max (length row) c \<Longrightarrow>
   put_cell row c x ! i = (if i = c - 1 then x else if i < length row then row ! i else blank_cell)"
  by (auto simp: put_cell_def nth_list_update nth_append)

lemma cell_at_update_cell:
  "1 \<le> c \<Longrightarrow> cell_at (update_cell s r c f) r' c' =
     (if r' = r \<and> c' = c then f (cell_at s r c) else cell_at s r' c')"
  by (auto simp: cell_at_def update_cell_def length_put_cell nth_put_cell)

lemma rows_update_cell: "r' \<noteq> r \<Longrightarrow> rows (update_cell s r c f) r' = rows s r'"
  by (simp add: update_cell_def)

lemma title_update_cell: "title (update_cell s r c f) = title s"
  by (simp add: update_cell_def)

lemma cell_at_insert_rows:
  "cell_at (insert_rows s t) r c =
     (if r < t then cell_at s r c else if r = t then blank_cell else cell_at s (r - 1) c)"
  by (simp add: cell_at_def insert_rows_def)

lemma apply_border_ok:
  assumes "1 \<le> t" and "\<forall>c \<in> set cols. 1 \<le> c"
  shows "\<exists>s'. apply_border s t cols = Inr s' \<and> title s' = title s
           \<and> (\<forall>r. r \<noteq> t \<longrightarrow> rows s' r = rows s r)
           \<and> (\<forall>c. cell_at s' t c =
                 (if c \<in> set cols then (cell_at s t c)\<lparr>cborder := Some thin_border\<rparr>
                  else cell_at s t c))"
  using assms
proof (induction cols arbitrary: s)
  case Nil
  then show ?case by simp
next
  case (Cons a cols)
  let ?s1 = "update_cell s t a (\<lambda>x. x\<lparr>cborder := Some thin_border\<rparr>)"
  from Cons.prems have a: "1 \<le> a" and rest: "\<forall>c \<in> set cols. 1 \<le> c" by auto
  from Cons.IH [OF Cons.prems(1) rest, of ?s1] obtain s' where
    s': "apply_border ?s1 t cols = Inr s'" "title s' = title ?s1"
        "\<forall>r. r \<noteq> t \<longrightarrow> rows s' r = rows ?s1 r"
        "\<forall>c. cell_at s' t c =
                 (if c \<in> set cols then (cell_at ?s1 t c)\<lparr>cborder := Some thin_border\<rparr>
                  else cell_at ?s1 t c)"
    by blast
  have "apply_border s t (a # cols) = Inr s'"
    using s'(1) a Cons.prems(1) by (simp add: sheet_cell_def)
  moreover have "title s' = title s"
    using s'(2) by (simp add: title_update_cell)
  moreover have "\<forall>r. r \<noteq> t \<longrightarrow> rows s' r = rows s r"
    using s'(3) by (simp add: rows_update_cell)
  moreover have "\<forall>c. cell_at s' t c =
                 (if c \<in> set (a # cols) then (cell_at s t c)\<lparr>cborder := Some thin_border\<rparr>
                  else cell_at s t c)"
    using s'(4) a by (auto simp: cell_at_update_cell)
  ultimately show ?case by blast
qed

lemma write_fields_ok:
  assumes "1 \<le> t" and "cols_ok hm"
  shows "\<exists>s'. write_fields hm d t (s, out) fhs = Inr (s', out @ header_warnings hm (title s) fhs)
           \<and> title s' = title s
           \<and> (\<forall>r. r \<noteq> t \<longrightarrow> rows s' r = rows s r)
           \<and> (\<forall>c. cell_at s' t c = foldl (put_field hm d c) (cell_at s t c) fhs)"
proof (induction fhs arbitrary: s out)
  case Nil
  then show ?case by (simp add: header_warnings_def)
next
  case (Cons fh fhs)
  obtain f h where fh: "fh = (f, h)" by (cases fh)
  show ?case
  proof (cases "hm h")
    case None
    from Cons.IH [of s "out @ [Warn_header_not_found h (title s)]"]
    show ?thesis using None fh
      by (auto simp: write_field_def header_warnings_def put_field_def)
  next
    case (Some c)
    with assms(2) have c: "1 \<le> c" by (auto simp: cols_ok_def)
    let ?s1 = "update_cell s t c (\<lambda>x. x\<lparr>cvalue := coerce (dict_get d f ''''), cfont := Some black_font\<rparr>)"
    from Cons.IH [of ?s1 out] obtain s' where
      s': "write_fields hm d t (?s1, out) fhs = Inr (s', out @ header_warnings hm (title ?s1) fhs)"
          "title s' = title ?s1" "\<forall>r. r \<noteq> t \<longrightarrow> rows s' r = rows ?s1 r"
          "\<forall>c'. cell_at s' t c' = foldl (put_field hm d c') (cell_at ?s1 t c') fhs"
      by blast
    have "write_fields hm d t (s, out) (fh # fhs) = Inr (s', out @ header_warnings hm (title s) (fh # fhs))"
      using s'(1) Some fh c assms(1)
      by (simp add: write_field_def sheet_cell_def header_warnings_def title_update_cell)
    moreover have "title s' = title s" using s'(2) by (simp add: title_update_cell)
    moreover have "\<forall>r. r \<noteq> t \<longrightarrow> rows s' r = rows s r"
      using s'(3) by (simp add: rows_update_cell)
    moreover have "\<forall>c'. cell_at s' t c' = foldl (put_field hm d c') (cell_at s t c') (fh # fhs)"
      using s'(4) Some fh c by (auto simp: cell_at_update_cell put_field_def)
    ultimately show ?thesis by blast
  qed
qed

lemma write_data_to_sheet_ok:
  assumes "1 \<le> t" and "cols_ok hm"
  shows "\<exists>s'. write_data_to_sheet s hm d t = Inr (s', header_warnings hm (title s) field_to_header_map)
           \<and> title s' = title s
           \<and> (\<forall>r. r < t \<longrightarrow> rows s' r = rows s r)
           \<and> (\<forall>r. t < r \<longrightarrow> rows s' r = rows s (r - 1))
           \<and> (\<forall>c. cell_at s' t c = written_cell hm d c)"
proof -
  let ?s0 = "insert_rows s t"
  have "\<forall>c \<in> set [1..<15]. 1 \<le> (c::nat)" by simp
  from apply_border_ok [OF assms(1) this, of ?s0] obtain s1 where
    s1: "apply_border ?s0 t [1..<15] = Inr s1" "title s1 = title ?s0"
        "\<forall>r. r \<noteq> t \<longrightarrow> rows s1 r = rows ?s0 r"
        "\<forall>c. cell_at s1 t c =
                 (if c \<in> set [1..<15] then (cell_at ?s0 t c)\<lparr>cborder := Some thin_border\<rparr>
                  else cell_at ?s0 t c)"
    by blast
  from write_fields_ok [OF assms, of d s1 "[]" field_to_header_map] obtain s' where
    s': "write_fields hm d t (s1, []) field_to_header_map
           = Inr (s', [] @ header_warnings hm (title s1) field_to_header_map)"
        "title s' = title s1" "\<forall>r. r \<noteq> t \<longrightarrow> rows s' r = rows s1 r"
        "\<forall>c. cell_at s' t c = foldl (put_field hm d c) (cell_at s1 t c) field_to_header_map"
    by blast
  have t0: "title ?s0 = title s" by (simp add: insert_rows_def)
  have "write_data_to_sheet s hm d t = Inr (s', header_warnings hm (title s) field_to_header_map)"
    using s1(1,2) s'(1) t0 by (simp add: write_data_to_sheet_def)
  moreover have "title s' = title s" using s'(2) s1(2) t0 by simp
  moreover have "\<forall>r. r < t \<longrightarrow> rows s' r = rows s r"
    using s'(3) s1(3) by (simp add: insert_rows_def)
  moreover have "\<forall>r. t < r \<longrightarrow> rows s' r = rows s (r - 1)"
    using s'(3) s1(3) by (simp add: insert_rows_def)
  moreover have "\<forall>c. cell_at s1 t c = border_cell c"
    using s1(4) by (auto simp: cell_at_insert_rows border_cell_def)
  then have "\<forall>c. cell_at s' t c = written_cell hm d c"
    using s'(4) by (simp add: written_cell_def)
  ultimately show ?thesis by blast
qed

lemma cborder_foldl_put_field: "cborder (foldl (put_field hm d c) x fhs) = cborder x"
  by (induction fhs arbitrary: x) (auto simp: put_field_def)

lemma cborder_written_cell:
  "cborder (written_cell hm d c) = (if 1 \<le> c \<and> c \<le> 14 then Some thin_border else None)"
  by (simp add: written_cell_def cborder_foldl_put_field border_cell_def blank_cell_def)

lemma foldl_put_field_untouched:
  "\<forall>fh \<in> set fhs. hm (snd fh) \<noteq> Some c \<Longrightarrow> foldl (put_field hm d c) x fhs = x"
  by (induction fhs arbitrary: x) (auto simp: put_field_def)

lemma written_cell_untouched:
  "\<forall>fh \<in> set field_to_header_map. hm (snd fh) \<noteq> Some c \<Longrightarrow> written_cell hm d c = border_cell c"
  by (simp add: written_cell_def foldl_put_field_untouched)

lemma foldl_put_field_hit:
  assumes "fh \<in> set fhs" and "hm (snd fh) = Some c"
      and "\<forall>g \<in> set fhs. hm (snd g) = Some c \<longrightarrow> g = fh"
  shows "foldl (put_field hm d c) x fhs
           = x\<lparr>cvalue := coerce (dict_get d (fst fh) ''''), cfont := Some black_font\<rparr>"
  using assms
proof (induction fhs arbitrary: x)
  case Nil
  then show ?case by simp
next
  case (Cons g fhs)
  from Cons.prems(3) have rest: "\<forall>g \<in> set fhs. hm (snd g) = Some c \<longrightarrow> g = fh" by simp
  show ?case
  proof (cases "fh \<in> set fhs")
    case True
    have idem: "(put_field hm d c x g)\<lparr>cvalue := coerce (dict_get d (fst fh) ''''), cfont := Some black_font\<rparr>
                  = x\<lparr>cvalue := coerce (dict_get d (fst fh) ''''), cfont := Some black_font\<rparr>"
      by (simp add: put_field_def)
    from Cons.IH [OF True Cons.prems(2) rest, of "put_field hm d c x g"] idem
    show ?thesis by simp
  next
    case False
    with Cons.prems(1) have g: "g = fh" by simp
    from False rest have "\<forall>g \<in> set fhs. hm (snd g) \<noteq> Some c" by blast
    from foldl_put_field_untouched [OF this, of d "put_field hm d c x g"]
    have "foldl (put_field hm d c) x (g # fhs) = put_field hm d c x g" by simp
    also have "\<dots> = x\<lparr>cvalue := coerce (dict_get d (fst fh) ''''), cfont := Some black_font\<rparr>"
      using g Cons.prems(2) by (simp add: put_field_def)
    finally show ?thesis .
  qed
qed

lemma distinct_headers: "distinct (map snd field_to_header_map)"
  by (simp add: field_to_header_map_def)

lemma written_cell_hit:
  assumes "(f, h) \<in> set field_to_header_map" and "hm h = Some c"
      and "\<forall>fh \<in> set field_to_header_map. hm (snd fh) = Some c \<longrightarrow> snd fh = h"
  shows "written_cell hm d c
           = (border_cell c)\<lparr>cvalue := coerce (dict_get d f ''''), cfont := Some black_font\<rparr>"
proof -
  have "\<forall>g \<in> set field_to_header_map. hm (snd g) = Some c \<longrightarrow> g = (f, h)"
  proof (intro ballI impI)
    fix g assume g: "g \<in> set field_to_header_map" "hm (snd g) = Some c"
    with assms(3) have "snd g = h" by blast
    from distinct_headers have "inj_on snd (set field_to_header_map)"
      by (simp add: distinct_map)
    from inj_onD [OF this, of g "(f, h)"] g(1) assms(1) \<open>snd g = h\<close>
    show "g = (f, h)" by simp
  qed
  from foldl_put_field_hit [OF assms(1) _ this, of d "border_cell c"] assms(2)
  show ?thesis by (simp add: written_cell_def)
qed

lemma binary64_1500_50: "binary64 (3001 / 2) = Finite (3001 / 2)"
  by code_simp

lemma py_float_1500_50: "py_float ''1500.50'' = Some (Finite (3001 / 2))"
proof -
  have "py_float ''1500.50'' = Some (binary64 (3001 / 2))"
    by (simp add: py_float_def float_strip_def is_float_space_def abs_float_value_def py_lower_def
          lower_char_def float_number_def digitpart_def is_digit_def float_exponent_def scale10_def
          int_of_digits_def digit_val_def)
  then show ?thesis by (simp only: binary64_1500_50)
qed

lemma py_float_A_102: "py_float ''A-102'' = None"
  by (simp add: py_float_def float_strip_def is_float_space_def abs_float_value_def py_lower_def
        lower_char_def float_number_def digitpart_def is_digit_def float_exponent_def)

text \<open>
  Claim C6. Every value the Row Writer writes goes through \<^verbatim>\<open>float\<close> first: for an
  entry of \<^verbatim>\<open>field_to_header_map\<close> whose header the sheet has, in a column no other of
  these headers shares, the cell of the inserted row holds the number when the raw string
  is a float literal and the raw string itself otherwise; \<^verbatim>\<open>"1500.50"\<close> is stored as
  the number 1500.5, \<^verbatim>\<open>"A-102"\<close> as text; in both branches the font of the cell is the
  black font. Rows and columns count from 1, as the library demands.
\<close>

theorem row_writer_coerces_values:
  assumes "1 \<le> t" and "cols_ok hm"
      and "(f, h) \<in> set field_to_header_map" and "hm h = Some c"
      and "\<forall>fh \<in> set field_to_header_map. hm (snd fh) = Some c \<longrightarrow> snd fh = h"
  shows "\<exists>s' out. write_data_to_sheet s hm d t = Inr (s', out)
           \<and> cvalue (cell_at s' t c) =
               (case py_float (dict_get d f '''') of
                  Some x \<Rightarrow> Num x
                | None \<Rightarrow> Str (dict_get d f ''''))
           \<and> cfont (cell_at s' t c) = Some black_font
           \<and> (dict_get d f '''' = ''1500.50'' \<longrightarrow> cvalue (cell_at s' t c) = Num (Finite (3001 / 2)))
           \<and> (dict_get d f '''' = ''A-102'' \<longrightarrow> cvalue (cell_at s' t c) = Str ''A-102'')"
proof -
  from write_data_to_sheet_ok [OF assms(1,2), of s d] obtain s' where
    s': "write_data_to_sheet s hm d t = Inr (s', header_warnings hm (title s) field_to_header_map)"
        "\<forall>c. cell_at s' t c = written_cell hm d c"
    by blast
  have w: "cell_at s' t c
             = (border_cell c)\<lparr>cvalue := coerce (dict_get d f ''''), cfont := Some black_font\<rparr>"
    using s'(2) written_cell_hit [OF assms(3,4,5)] by simp
  have "cvalue (cell_at s' t c) =
               (case py_float (dict_get d f '''') of
                  Some x \<Rightarrow> Num x
                | None \<Rightarrow> Str (dict_get d f ''''))"
    using w by (simp add: coerce_def)
  moreover have "cfont (cell_at s' t c) = Some black_font" using w by simp
  moreover have "dict_get d f '''' = ''1500.50'' \<longrightarrow> cvalue (cell_at s' t c) = Num (Finite (3001 / 2))"
    using w by (simp add: coerce_def py_float_1500_50)
  moreover have "dict_get d f '''' = ''A-102'' \<longrightarrow> cvalue (cell_at s' t c) = Str ''A-102''"
    using w by (simp add: coerce_def py_float_A_102)
  ultimately show ?thesis using s'(1) by blast
qed

text \<open>
  Claim C7. A call of the Row Writer at a row index \<open>t\<close> (from 1 on, with a header map
  whose columns count from 1) returns normally; the rows above \<open>t\<close> keep their cells,
  every cell at or below \<open>t\<close> is found one row lower, so nothing is overwritten; the new
  row \<open>t\<close> has the thin black border on the columns 1 to 14 and on no other column,
  whatever the header map and the data, and is blank in every column no field is written to.
\<close>

theorem row_writer_inserts_bordered_row:
  assumes "1 \<le> t" and "cols_ok hm"
  shows "\<exists>s' out. write_data_to_sheet s hm d t = Inr (s', out)
           \<and> (\<forall>r c. r < t \<longrightarrow> cell_at s' r c = cell_at s r c)
           \<and> (\<forall>r c. t \<le> r \<longrightarrow> cell_at s' (Suc r) c = cell_at s r c)
           \<and> (\<forall>c. 1 \<le> c \<and> c \<le> 14 \<longrightarrow> cborder (cell_at s' t c) = Some thin_border)
           \<and> (\<forall>c. \<not> (1 \<le> c \<and> c \<le> 14) \<longrightarrow> cborder (cell_at s' t c) = None)
           \<and> (\<forall>c. (\<forall>fh \<in> set field_to_header_map. hm (snd fh) \<noteq> Some c) \<longrightarrow>
                  cvalue (cell_at s' t c) = Empty \<and> cfont (cell_at s' t c) = None)"
proof -
  from write_data_to_sheet_ok [OF assms, of s d] obtain s' where
    s': "write_data_to_sheet s hm d t = Inr (s', header_warnings hm (title s) field_to_header_map)"
        "\<forall>r. r < t \<longrightarrow> rows s' r = rows s r"
        "\<forall>r. t < r \<longrightarrow> rows s' r = rows s (r - 1)"
        "\<forall>c. cell_at s' t c = written_cell hm d c"
    by blast
  have "\<forall>r c. r < t \<longrightarrow> cell_at s' r c = cell_at s r c"
    using s'(2) by (simp add: cell_at_def)
  moreover have "\<forall>r c. t \<le> r \<longrightarrow> cell_at s' (Suc r) c = cell_at s r c"
    using s'(3) by (simp add: cell_at_def)
  moreover have "\<forall>c. 1 \<le> c \<and> c \<le> 14 \<longrightarrow> cborder (cell_at s' t c) = Some thin_border"
    using s'(4) by (simp add: cborder_written_cell)
  moreover have "\<forall>c. \<not> (1 \<le> c \<and> c \<le> 14) \<longrightarrow> cborder (cell_at s' t c) = None"
    using s'(4) by (simp add: cborder_written_cell)
  moreover have "\<forall>c. (\<forall>fh \<in> set field_to_header_map. hm (snd fh) \<noteq> Some c) \<longrightarrow>
                  cvalue (cell_at s' t c) = Empty \<and> cfont (cell_at s' t c) = None"
    using s'(4) by (simp add: written_cell_untouched border_cell_def blank_cell_def)
  ultimately show ?thesis using s'(1) by blast
qed

lemma cols_ok_ex: "cols_ok ex_header_map"
  by (auto simp: cols_ok_def ex_header_map_def split: if_splits)

theorem row_writer_coerces_values_witness:
  "(1::nat) \<le> 5 \<and> cols_ok ex_header_map
   \<and> (''KG NETOS'', ''KG NETOS'') \<in> set field_to_header_map \<and> ex_header_map ''KG NETOS'' = Some 3
   \<and> (\<exists>s' out. write_data_to_sheet ex_sheet ex_header_map ex_row 5 = Inr (s', out)
         \<and> cvalue (cell_at s' 5 3) = Num (Finite (3001 / 2))
         \<and> cfont (cell_at s' 5 3) = Some black_font)"
proof -
  have a: "(1::nat) \<le> 5" by simp
  have b: "(''KG NETOS'', ''KG NETOS'') \<in> set field_to_header_map"
    by (simp add: field_to_header_map_def)
  have c: "ex_header_map ''KG NETOS'' = Some 3" by (simp add: ex_header_map_def)
  have d: "\<forall>fh \<in> set field_to_header_map. ex_header_map (snd fh) = Some 3 \<longrightarrow> snd fh = ''KG NETOS''"
    by (simp add: field_to_header_map_def ex_header_map_def)
  have e: "dict_get ex_row ''KG NETOS'' '''' = ''1500.50''"
    by (simp add: dict_get_def ex_row_def)
  from row_writer_coerces_values [OF a cols_ok_ex b c d, of ex_sheet ex_row] e
  obtain s' out where
    "write_data_to_sheet ex_sheet ex_header_map ex_row 5 = Inr (s', out)"
    "cvalue (cell_at s' 5 3) = Num (Finite (3001 / 2))"
    "cfont (cell_at s' 5 3) = Some black_font"
    by blast
  then have "\<exists>s' out. write_data_to_sheet ex_sheet ex_header_map ex_row 5 = Inr (s', out)
         \<and> cvalue (cell_at s' 5 3) = Num (Finite (3001 / 2))
         \<and> cfont (cell_at s' 5 3) = Some black_font"
    by blast
  with a b c cols_ok_ex show ?thesis by blast
qed

theorem row_writer_inserts_bordered_row_witness:
  "(1::nat) \<le> 5 \<and> cols_ok ex_header_map
   \<and> (\<exists>s' out. write_data_to_sheet ex_sheet ex_header_map ex_row 5 = Inr (s', out)
         \<and> cell_at s' 4 1 = hdr ''FECHA'' \<and> cell_at s' 6 1 = hdr ''old''
         \<and> cborder (cell_at s' 5 14) = Some thin_border
         \<and> cvalue (cell_at s' 5 9) = Empty)"
proof -
  have a: "(1::nat) \<le> 5" by simp
  have n: "\<forall>fh \<in> set field_to_header_map. ex_header_map (snd fh) \<noteq> Some 9"
    by (simp add: field_to_header_map_def ex_header_map_def)
  from row_writer_inserts_bordered_row [OF a cols_ok_ex, of ex_sheet ex_row] obtain s' out where
    s': "write_data_to_sheet ex_sheet ex_header_map ex_row 5 = Inr (s', out)"
        "\<forall>r c. r < 5 \<longrightarrow> cell_at s' r c = cell_at ex_sheet r c"
        "\<forall>r c. 5 \<le> r \<longrightarrow> cell_at s' (Suc r) c = cell_at ex_sheet r c"
        "\<forall>c. 1 \<le> c \<and> c \<le> 14 \<longrightarrow> cborder (cell_at s' 5 c) = Some thin_border"
        "\<forall>c. (\<forall>fh \<in> set field_to_header_map. ex_header_map (snd fh) \<noteq> Some c) \<longrightarrow>
                  cvalue (cell_at s' 5 c) = Empty \<and> cfont (cell_at s' 5 c) = None"
    by blast
  have e4: "cell_at ex_sheet 4 1 = hdr ''FECHA''" by (simp add: cell_at_def ex_sheet_def)
  have e5: "cell_at ex_sheet 5 1 = hdr ''old''" by (simp add: cell_at_def ex_sheet_def)
  from s'(2) have "cell_at s' 4 1 = cell_at ex_sheet 4 1" by simp
  with e4 have c1: "cell_at s' 4 1 = hdr ''FECHA''" by simp
  from s'(3) have "cell_at s' (Suc 5) 1 = cell_at ex_sheet 5 1" by blast
  with e5 have c2: "cell_at s' 6 1 = hdr ''old''" by (simp add: eval_nat_numeral)
  from s'(4) have c3: "cborder (cell_at s' 5 14) = Some thin_border" by simp
  from s'(5) n have c4: "cvalue (cell_at s' 5 9) = Empty" by blast
  from s'(1) c1 c2 c3 c4 have "\<exists>s' out. write_data_to_sheet ex_sheet ex_header_map ex_row 5 = Inr (s', out)
         \<and> cell_at s' 4 1 = hdr ''FECHA'' \<and> cell_at s' 6 1 = hdr ''old''
         \<and> cborder (cell_at s' 5 14) = Some thin_border
         \<and> cvalue (cell_at s' 5 9) = Empty"
    by blast
  with a cols_ok_ex show ?thesis by blast
qed

section \<open>The Field Extractor\<close>

lemma extract_field_eq:
  "extract_field p doc (m, out) f = (m(fname f \<mapsto> field_value doc f), out @ field_msgs p doc f)"
  by (simp add: extract_field_def field_value_def field_msgs_def split: sum.splits)

lemma foldl_extract_field:
  "foldl (extract_field p doc) (m, out) flds
     = (m ++ map_of (rev (map (\<lambda>f. (fname f, field_value doc f)) flds)),
        out @ concat (map (field_msgs p doc) flds))"
proof (induction flds arbitrary: m out)
  case Nil
  then show ?case by simp
next
  case (Cons f flds)
  show ?case
    by (simp add: extract_field_eq Cons.IH map_add_def fun_eq_iff split: option.splits)
qed

lemma last_dropWhile: "dropWhile P xs \<noteq> [] \<Longrightarrow> last (dropWhile P xs) = last xs"
  by (induction xs) (auto split: if_splits)

lemma trimmed_py_strip: "trimmed (py_strip s)"
proof (cases "py_strip s = []")
  case True
  then show ?thesis by (simp add: trimmed_def)
next
  case False
  let ?ys = "dropWhile is_space s"
  let ?zs = "dropWhile is_space (rev ?ys)"
  from False have zs: "?zs \<noteq> []" by (simp add: py_strip_def)
  have ys: "?ys \<noteq> []"
  proof
    assume a: "?ys = []"
    have "?zs = []" unfolding a by simp
    with zs show False by simp
  qed
  have "\<not> is_space (hd ?zs)" using zs by (rule hd_dropWhile)
  then have l: "\<not> is_space (last (py_strip s))"
    using zs by (simp add: py_strip_def last_rev)
  have "last ?zs = last (rev ?ys)" using zs by (rule last_dropWhile)
  also have "\<dots> = hd ?ys" using ys by (simp add: last_rev)
  finally have "hd (py_strip s) = hd ?ys" using zs by (simp add: py_strip_def hd_rev)
  moreover have "\<not> is_space (hd ?ys)" using ys by (rule hd_dropWhile)
  ultimately show ?thesis using l by (simp add: trimmed_def)
qed

lemma is_space_breaks: "is_space CHR 0x0A" "is_space CHR 0x0D"
  by (simp_all add: is_space_def)

lemma clean_text_eq:
  "clean_text raw = map (\<lambda>c. if c = CHR 0x0A \<or> c = CHR 0x0D then CHR '' '' else c) (py_strip raw)"
  by (auto simp: clean_text_def replace_char_def)

lemma no_linebreak_clean_text: "no_linebreak (clean_text raw)"
  by (auto simp: clean_text_eq no_linebreak_def)

lemma trimmed_clean_text: "trimmed (clean_text raw)"
proof -
  let ?g = "\<lambda>c. if c = CHR 0x0A \<or> c = CHR 0x0D then CHR '' '' else c"
  have g: "\<not> is_space c \<Longrightarrow> ?g c = c" for c using is_space_breaks by auto
  show ?thesis
  proof (cases "py_strip raw = []")
    case True
    then show ?thesis by (simp add: clean_text_eq trimmed_def)
  next
    case False
    with trimmed_py_strip [of raw] have e: "\<not> is_space (hd (py_strip raw))" "\<not> is_space (last (py_strip raw))"
      by (simp_all add: trimmed_def)
    from False have "hd (clean_text raw) = ?g (hd (py_strip raw))" "last (clean_text raw) = ?g (last (py_strip raw))"
      by (simp_all add: clean_text_eq hd_map last_map)
    with e g show ?thesis by (simp add: trimmed_def)
  qed
qed

lemma read_field_clean: "read_field doc f = Inr v \<Longrightarrow> \<exists>raw. v = clean_text raw"
  by (auto simp: read_field_def split: sum.splits list.splits)

lemma field_value_clean: "no_linebreak (field_value doc f) \<and> trimmed (field_value doc f)"
proof -
  have "no_linebreak ''ERROR''" "trimmed ''ERROR''" "no_linebreak []" "trimmed []"
    by (simp_all add: no_linebreak_def trimmed_def is_space_def)
  then show ?thesis
    using no_linebreak_clean_text trimmed_clean_text
    by (auto simp: field_value_def split: sum.splits dest!: read_field_clean)
qed

lemma map_of_rev_last:
  assumes "k \<notin> fst ` set post"
  shows "map_of (rev (pre @ (k, v) # post)) k = Some v"
proof -
  have "map_of (rev post) k = None"
    using assms by (simp add: map_of_eq_None_iff)
  then show ?thesis by (simp add: map_add_def)
qed

lemma map_of_rev_other:
  "n \<noteq> k \<Longrightarrow> map_of (rev (pre @ (k, v) # post)) n = map_of (rev (pre @ post)) n"
  by (simp add: map_add_def split: option.splits)

text \<open>
  Claim C8. When the document opens, extraction returns a dictionary, whatever the list of
  descriptors: its keys are exactly the names of the descriptors (one entry for each name);
  no value contains a line feed or a carriage return, and no value begins or ends with
  white space; the value of a field whose page is in range and whose text the library
  returns is that text, stripped, with every line feed and every carriage return replaced
  by one space and every other character kept (for a name that occurs more than once, the
  last descriptor of that name counts).
\<close>

theorem extraction_one_clean_entry_per_name:
  assumes "pdfs pdf_path = Some doc"
  shows "\<exists>m out. extract_data_from_pdf pdfs pdf_path flds = (Some m, out)
           \<and> dom m = fname ` set flds
           \<and> (\<forall>n v. m n = Some v \<longrightarrow> no_linebreak v \<and> trimmed v)
           \<and> (\<forall>pre f post pg x0 y0 x1 y1 others raw.
                 flds = pre @ f # post \<and> fname f \<notin> fname ` set post
                 \<and> page f < page_count doc \<and> load_page doc (page f) = Inr pg
                 \<and> rect f = x0 # y0 # x1 # y1 # others \<and> get_text pg (x0, y0, x1, y1) = Inr raw
                 \<longrightarrow> m (fname f) =
                       Some (map (\<lambda>c. if c = CHR 0x0A \<or> c = CHR 0x0D then CHR '' '' else c)
                               (py_strip raw)))"
proof -
  let ?kv = "\<lambda>f. (fname f, field_value doc f)"
  let ?m = "map_of (rev (map ?kv flds))"
  let ?out = "concat (map (field_msgs pdf_path doc) flds)"
  have res: "extract_data_from_pdf pdfs pdf_path flds = (Some ?m, ?out)"
    unfolding extract_data_from_pdf_def foldl_extract_field using assms by simp
  have d: "dom ?m = fname ` set flds"
    by (simp add: dom_map_of_conv_image_fst image_image)
  have c: "\<forall>n v. ?m n = Some v \<longrightarrow> no_linebreak v \<and> trimmed v"
  proof (intro allI impI)
    fix n v assume "?m n = Some v"
    then have "(n, v) \<in> set (rev (map ?kv flds))" by (rule map_of_SomeD)
    then obtain f where "v = field_value doc f" by auto
    then show "no_linebreak v \<and> trimmed v" by (simp add: field_value_clean)
  qed
  have v: "\<forall>pre f post pg x0 y0 x1 y1 others raw.
                 flds = pre @ f # post \<and> fname f \<notin> fname ` set post
                 \<and> page f < page_count doc \<and> load_page doc (page f) = Inr pg
                 \<and> rect f = x0 # y0 # x1 # y1 # others \<and> get_text pg (x0, y0, x1, y1) = Inr raw
                 \<longrightarrow> ?m (fname f) =
                       Some (map (\<lambda>c. if c = CHR 0x0A \<or> c = CHR 0x0D then CHR '' '' else c)
                               (py_strip raw))"
  proof (intro allI impI, elim conjE)
    fix pre f post pg x0 y0 x1 y1 others raw
    assume h: "flds = pre @ f # post" "fname f \<notin> fname ` set post"
      "page f < page_count doc" "load_page doc (page f) = Inr pg"
      "rect f = x0 # y0 # x1 # y1 # others" "get_text pg (x0, y0, x1, y1) = Inr raw"
    from h(2) have "fname f \<notin> fst ` set (map ?kv post)" by (simp add: image_image)
    from map_of_rev_last [OF this, of "map ?kv pre" "field_value doc f"] h(1)
    have "?m (fname f) = Some (field_value doc f)" by simp
    moreover have "field_value doc f = clean_text raw"
      using h(3-6) by (simp add: field_value_def read_field_def)
    ultimately show "?m (fname f) =
                       Some (map (\<lambda>c. if c = CHR 0x0A \<or> c = CHR 0x0D then CHR '' '' else c)
                               (py_strip raw))"
      by (simp add: clean_text_eq)
  qed
  from res d c v show ?thesis by blast
qed

theorem extraction_one_clean_entry_per_name_witness:
  "ex_pdfs ''a.pdf'' = Some ex_doc
   \<and> (\<exists>m out. extract_data_from_pdf ex_pdfs ''a.pdf'' ex_fields = (Some m, out)
         \<and> dom m = {''FECHA'', ''BATEA'', ''EMPRESA''}
         \<and> m ''FECHA'' = Some ''12/05/2024 10:30'')"
proof -
  have a: "ex_pdfs ''a.pdf'' = Some ex_doc" by (simp add: ex_pdfs_def)
  from extraction_one_clean_entry_per_name
         [where pdfs = ex_pdfs and pdf_path = "''a.pdf''" and doc = ex_doc and flds = ex_fields, OF a]
  obtain m out where
    r: "extract_data_from_pdf ex_pdfs ''a.pdf'' ex_fields = (Some m, out)"
       "dom m = fname ` set ex_fields"
       "\<forall>pre f post pg x0 y0 x1 y1 others raw.
                 ex_fields = pre @ f # post \<and> fname f \<notin> fname ` set post
                 \<and> page f < page_count ex_doc \<and> load_page ex_doc (page f) = Inr pg
                 \<and> rect f = x0 # y0 # x1 # y1 # others \<and> get_text pg (x0, y0, x1, y1) = Inr raw
                 \<longrightarrow> m (fname f) =
                       Some (map (\<lambda>c. if c = CHR 0x0A \<or> c = CHR 0x0D then CHR '' '' else c)
                               (py_strip raw))"
    by blast
  let ?f = "\<lparr>fname = ''FECHA'', page = 0, rect = [0, 0, 100, 20]\<rparr>"
  let ?post = "[\<lparr>fname = ''BATEA'', page = 3, rect = [0, 20, 100, 40]\<rparr>,
      \<lparr>fname = ''EMPRESA'', page = 0, rect = [0, 40]\<rparr>]"
  let ?pg = "Page (\<lambda>r. Inr ('' 12/05/2024'' @ [CHR 0x0A] @ ''10:30 ''))"
  have h: "ex_fields = [] @ ?f # ?post \<and> fname ?f \<notin> fname ` set ?post
                 \<and> page ?f < page_count ex_doc \<and> load_page ex_doc (page ?f) = Inr ?pg
                 \<and> rect ?f = 0 # 0 # 100 # 20 # [] \<and> get_text ?pg (0, 0, 100, 20) = Inr ('' 12/05/2024'' @ [CHR 0x0A] @ ''10:30 '')"
    by (simp add: ex_fields_def ex_doc_def)
  from r(3) h have "m (fname ?f) =
       Some (map (\<lambda>c. if c = CHR 0x0A \<or> c = CHR 0x0D then CHR '' '' else c)
                               (py_strip ('' 12/05/2024'' @ [CHR 0x0A] @ ''10:30 '')))"
    by blast
  then have v: "m ''FECHA'' = Some ''12/05/2024 10:30''"
    by (simp add: py_strip_def is_space_def)
  from r(2) have d: "dom m = {''FECHA'', ''BATEA'', ''EMPRESA''}"
    by (simp add: ex_fields_def)
  from a r(1) d v show ?thesis by blast
qed

text \<open>
  Claim C9. A failure on one field never ends the extraction: for any descriptor \<open>f\<close>
  among any others, the extraction of an opened document returns a dictionary. If the page
  of \<open>f\<close> is out of range (at or past the page count), the warning is printed and the entry
  of \<open>f\<close> is the empty string; if the page is in range and anything in reading the field
  raises (loading the page, a rectangle of fewer than four coordinates, the text
  extraction), the error is printed and the entry is \<^verbatim>\<open>"ERROR"\<close> (the entry of a name is
  that of its last descriptor). Every other name has the entry it has when \<open>f\<close> is left out
  of the list.
\<close>

theorem extraction_field_failures_are_local:
  assumes "pdfs pdf_path = Some doc"
  shows "\<exists>m out m' out'.
           extract_data_from_pdf pdfs pdf_path (pre @ f # post) = (Some m, out)
           \<and> extract_data_from_pdf pdfs pdf_path (pre @ post) = (Some m', out')
           \<and> (\<forall>n. n \<noteq> fname f \<longrightarrow> m n = m' n)
           \<and> (page f \<ge> page_count doc \<longrightarrow>
                 Warn_page_out_of_range (page f) pdf_path (fname f) \<in> set out
                 \<and> (fname f \<notin> fname ` set post \<longrightarrow> m (fname f) = Some []))
           \<and> (\<forall>e. page f < page_count doc \<and> read_field doc f = Inl e \<longrightarrow>
                 Error_processing_field (fname f) pdf_path \<in> set out
                 \<and> (fname f \<notin> fname ` set post \<longrightarrow> m (fname f) = Some ''ERROR''))"
proof -
  let ?kv = "\<lambda>f. (fname f, field_value doc f)"
  let ?m = "map_of (rev (map ?kv (pre @ f # post)))"
  let ?out = "concat (map (field_msgs pdf_path doc) (pre @ f # post))"
  let ?m' = "map_of (rev (map ?kv (pre @ post)))"
  let ?out' = "concat (map (field_msgs pdf_path doc) (pre @ post))"
  have r: "extract_data_from_pdf pdfs pdf_path (pre @ f # post) = (Some ?m, ?out)"
    unfolding extract_data_from_pdf_def foldl_extract_field using assms by simp
  have r': "extract_data_from_pdf pdfs pdf_path (pre @ post) = (Some ?m', ?out')"
    unfolding extract_data_from_pdf_def foldl_extract_field using assms by simp
  have o: "\<forall>n. n \<noteq> fname f \<longrightarrow> ?m n = ?m' n"
    using map_of_rev_other [of _ "fname f" "map ?kv pre" "field_value doc f" "map ?kv post"]
    by simp
  have msgs: "set (field_msgs pdf_path doc f) \<subseteq> set ?out" by auto
  have own: "fname f \<notin> fname ` set post \<longrightarrow> ?m (fname f) = Some (field_value doc f)"
  proof
    assume "fname f \<notin> fname ` set post"
    then have "fname f \<notin> fst ` set (map ?kv post)" by (simp add: image_image)
    from map_of_rev_last [OF this, of "map ?kv pre" "field_value doc f"]
    show "?m (fname f) = Some (field_value doc f)" by simp
  qed
  have w: "page f \<ge> page_count doc \<longrightarrow>
                 Warn_page_out_of_range (page f) pdf_path (fname f) \<in> set ?out
                 \<and> (fname f \<notin> fname ` set post \<longrightarrow> ?m (fname f) = Some [])"
  proof
    assume p: "page f \<ge> page_count doc"
    then have "field_msgs pdf_path doc f = [Warn_page_out_of_range (page f) pdf_path (fname f)]"
      "field_value doc f = []"
      by (simp_all add: field_msgs_def field_value_def)
    with msgs own show "Warn_page_out_of_range (page f) pdf_path (fname f) \<in> set ?out
                 \<and> (fname f \<notin> fname ` set post \<longrightarrow> ?m (fname f) = Some [])"
      by simp
  qed
  have e: "\<forall>e. page f < page_count doc \<and> read_field doc f = Inl e \<longrightarrow>
                 Error_processing_field (fname f) pdf_path \<in> set ?out
                 \<and> (fname f \<notin> fname ` set post \<longrightarrow> ?m (fname f) = Some ''ERROR'')"
  proof (intro allI impI, elim conjE)
    fix e assume p: "page f < page_count doc" "read_field doc f = Inl e"
    then have "field_msgs pdf_path doc f = [Error_processing_field (fname f) pdf_path]"
      "field_value doc f = ''ERROR''"
      by (simp_all add: field_msgs_def field_value_def)
    with msgs own show "Error_processing_field (fname f) pdf_path \<in> set ?out
                 \<and> (fname f \<notin> fname ` set post \<longrightarrow> ?m (fname f) = Some ''ERROR'')"
      by simp
  qed
  from r r' o w e show ?thesis by blast
qed

theorem extraction_field_failures_are_local_witness:
  "ex_pdfs ''a.pdf'' = Some ex_doc
   \<and> (\<exists>m out. extract_data_from_pdf ex_pdfs ''a.pdf'' ex_fields = (Some m, out)
         \<and> Warn_page_out_of_range 3 ''a.pdf'' ''BATEA'' \<in> set out
         \<and> m ''BATEA'' = Some [])"
proof -
  have a: "ex_pdfs ''a.pdf'' = Some ex_doc" by (simp add: ex_pdfs_def)
  let ?pre = "[\<lparr>fname = ''FECHA'', page = 0, rect = [0, 0, 100, 20]\<rparr>]"
  let ?f = "\<lparr>fname = ''BATEA'', page = 3, rect = [0, 20, 100, 40]\<rparr>"
  let ?post = "[\<lparr>fname = ''EMPRESA'', page = 0, rect = [0, 40]\<rparr>]"
  have s: "ex_fields = ?pre @ ?f # ?post" by (simp add: ex_fields_def)
  have p: "page ?f \<ge> page_count ex_doc" by (simp add: ex_doc_def)
  have n: "fname ?f \<notin> fname ` set ?post" by simp
  from extraction_field_failures_are_local
         [where pdfs = ex_pdfs and pdf_path = "''a.pdf''" and doc = ex_doc
            and pre = ?pre and f = ?f and post = ?post, OF a]
  obtain m out where
    r: "extract_data_from_pdf ex_pdfs ''a.pdf'' (?pre @ ?f # ?post) = (Some m, out)"
       "page ?f \<ge> page_count ex_doc \<longrightarrow>
                 Warn_page_out_of_range (page ?f) ''a.pdf'' (fname ?f) \<in> set out
                 \<and> (fname ?f \<notin> fname ` set ?post \<longrightarrow> m (fname ?f) = Some [])"
    by blast
  from r(2) p n have "Warn_page_out_of_range (page ?f) ''a.pdf'' (fname ?f) \<in> set out"
    "m (fname ?f) = Some []" by blast+
  then have "Warn_page_out_of_range 3 ''a.pdf'' ''BATEA'' \<in> set out" "m ''BATEA'' = Some []"
    by simp_all
  with a r(1) s show ?thesis by auto
qed

section \<open>Sheets of a workbook\<close>

lemma index_of_None: "n \<notin> set xs \<Longrightarrow> index_of n xs = None"
  by (induction xs) auto

lemma index_of_Some:
  "n \<in> set xs \<Longrightarrow> \<exists>i. index_of n xs = Some i \<and> i < length xs \<and> xs ! i = n \<and> (\<forall>j < i. xs ! j \<noteq> n)"
proof (induction xs)
  case Nil
  then show ?case by simp
next
  case (Cons x xs)
  show ?case
  proof (cases "x = n")
    case True
    then show ?thesis by simp
  next
    case False
    with Cons obtain i where i: "index_of n xs = Some i" "i < length xs" "xs ! i = n" "\<forall>j < i. xs ! j \<noteq> n"
      by auto
    have "\<forall>j < Suc i. (x # xs) ! j \<noteq> n"
      using False i(4) by (auto simp: nth_Cons split: nat.splits)
    with False i show ?thesis by simp
  qed
qed

lemma index_of_SomeD:
  "index_of n xs = Some i \<Longrightarrow> i < length xs \<and> xs ! i = n \<and> (\<forall>j < i. xs ! j \<noteq> n)"
proof -
  assume a: "index_of n xs = Some i"
  then have "n \<in> set xs" using index_of_None [of n xs] by auto
  from index_of_Some [OF this] a show ?thesis by auto
qed

lemma index_of_append_new: "n \<notin> set xs \<Longrightarrow> index_of n (xs @ [n]) = Some (length xs)"
  by (induction xs) auto

lemma sheetnames_set_sheet:
  "title s = title (sheets wb ! i) \<Longrightarrow> sheetnames (set_sheet wb i s) = sheetnames wb"
  by (cases "i < length (sheets wb)")
     (simp_all add: sheetnames_def set_sheet_def map_update list_update_same_conv list_update_beyond)

lemma sheet_index_SomeD:
  "sheet_index wb n = Some i \<Longrightarrow> i < length (sheets wb) \<and> title (sheets wb ! i) = n"
  by (auto simp: sheet_index_def sheetnames_def dest!: index_of_SomeD)

section \<open>The header map\<close>

lemma header_scan_cols:
  "header_scan L hm col xs h = Some c \<Longrightarrow> hm h = Some c \<or> col \<le> c"
proof (induction xs arbitrary: hm col)
  case Nil
  then show ?case by simp
next
  case (Cons x xs)
  from Cons.IH [OF Cons.prems [simplified]] show ?case
    by (auto split: if_splits)
qed

lemma cols_ok_get_header_map: "cols_ok (get_header_map L s hr)"
  using header_scan_cols [of L Map.empty 1 "rows s hr"]
  by (fastforce simp: cols_ok_def get_header_map_def)

lemma get_header_map_cong: "rows s' hr = rows s hr \<Longrightarrow> get_header_map L s' hr = get_header_map L s hr"
  by (simp add: get_header_map_def)

section \<open>Rows written one after the other at row 5\<close>

lemma stacked_Nil: "stacked s s hm []"
  by (simp add: stacked_def)

lemma stacked_snoc:
  assumes st: "stacked s s1 hm ds"
      and w: "title s2 = title s1" "\<forall>r. r < 5 \<longrightarrow> rows s2 r = rows s1 r"
             "\<forall>r. 5 < r \<longrightarrow> rows s2 r = rows s1 (r - 1)"
             "\<forall>c. cell_at s2 5 c = written_cell hm d c"
  shows "stacked s s2 hm (ds @ [d])"
proof -
  have low: "cell_at s2 r c = cell_at s1 (r - 1) c" if "5 < r" for r c
    using w(3) that by (simp add: cell_at_def)
  have a: "title s2 = title s" using st w(1) by (simp add: stacked_def)
  have b: "\<forall>r. r < 5 \<longrightarrow> rows s2 r = rows s r" using st w(2) by (simp add: stacked_def)
  have c: "\<forall>j c. j < length (ds @ [d]) \<longrightarrow>
             cell_at s2 (5 + j) c = written_cell hm ((ds @ [d]) ! (length (ds @ [d]) - 1 - j)) c"
  proof (intro allI impI)
    fix j c assume j: "j < length (ds @ [d])"
    show "cell_at s2 (5 + j) c = written_cell hm ((ds @ [d]) ! (length (ds @ [d]) - 1 - j)) c"
    proof (cases j)
      case 0
      then show ?thesis using w(4) by simp
    next
      case (Suc k)
      with j have k: "k < length ds" by simp
      have "cell_at s2 (5 + j) c = cell_at s1 (5 + k) c" using low [of "5 + j" c] Suc by simp
      also have "\<dots> = written_cell hm (ds ! (length ds - 1 - k)) c"
        using st k by (simp add: stacked_def)
      also have "ds ! (length ds - 1 - k) = (ds @ [d]) ! (length (ds @ [d]) - 1 - j)"
      proof -
        have "length ds - 1 - k < length ds" using k by arith
        then show ?thesis using Suc by (simp add: nth_append)
      qed
      finally show ?thesis .
    qed
  qed
  have e: "\<forall>r c. 5 \<le> r \<longrightarrow> cell_at s2 (r + length (ds @ [d])) c = cell_at s r c"
  proof (intro allI impI)
    fix r c assume r: "(5::nat) \<le> r"
    have "cell_at s2 (r + length (ds @ [d])) c = cell_at s1 (r + length ds) c"
      using low [of "r + length (ds @ [d])" c] r by simp
    also have "\<dots> = cell_at s r c" using st r by (simp add: stacked_def)
    finally show "cell_at s2 (r + length (ds @ [d])) c = cell_at s r c" .
  qed
  from a b c e show ?thesis unfolding stacked_def by blast
qed

lemma stacked_header: "stacked s s' hm ds \<Longrightarrow> get_header_map L s' 4 = get_header_map L s 4"
  by (rule get_header_map_cong) (simp add: stacked_def)

lemma write_row_ok:
  assumes "cols_ok hm"
  shows "\<exists>s'. write_row wb i hm d
                 = Inr (set_sheet wb i s', header_warnings hm (title (sheets wb ! i)) field_to_header_map)
           \<and> title s' = title (sheets wb ! i)
           \<and> (\<forall>r. r < 5 \<longrightarrow> rows s' r = rows (sheets wb ! i) r)
           \<and> (\<forall>r. 5 < r \<longrightarrow> rows s' r = rows (sheets wb ! i) (r - 1))
           \<and> (\<forall>c. cell_at s' 5 c = written_cell hm d c)"
proof -
  have "(1::nat) \<le> 5" by simp
  from write_data_to_sheet_ok [OF this assms, of "sheets wb ! i" d] obtain s' where
    "write_data_to_sheet (sheets wb ! i) hm d 5
       = Inr (s', header_warnings hm (title (sheets wb ! i)) field_to_header_map)"
    "title s' = title (sheets wb ! i)"
    "\<forall>r. r < 5 \<longrightarrow> rows s' r = rows (sheets wb ! i) r"
    "\<forall>r. 5 < r \<longrightarrow> rows s' r = rows (sheets wb ! i) (r - 1)"
    "\<forall>c. cell_at s' 5 c = written_cell hm d c"
    by blast
  then show ?thesis by (auto simp: write_row_def)
qed

section \<open>The Sheet Provisioner\<close>

lemma provision_existing:
  assumes "k \<in> set (sheetnames wb)"
  shows "\<exists>i. get_or_create_sheet L wb k t = Inr (Some i, wb, []) \<and> sheet_index wb k = Some i
           \<and> i < length (sheets wb) \<and> title (sheets wb ! i) = k"
proof -
  from index_of_Some [OF assms] obtain i where "sheet_index wb k = Some i"
    by (auto simp: sheet_index_def)
  with assms sheet_index_SomeD [OF this] show ?thesis
    by (simp add: get_or_create_sheet_def)
qed

lemma provision_no_template:
  assumes "k \<notin> set (sheetnames wb)" and "t \<notin> set (sheetnames wb)"
  shows "get_or_create_sheet L wb k t
           = Inr (None, wb, [Sheet_not_found_creating k t, Critical_template_not_found t])"
  using assms by (simp add: get_or_create_sheet_def sheet_index_def index_of_None)

lemma create_sheet_sheets:
  "create_sheet L wb t = Inr wb' \<Longrightarrow>
     \<exists>t'. set_title L (sheetnames wb) [] t = Inr t' \<and> wb' = wb\<lparr>sheets := sheets wb @ [empty_sheet t']\<rparr>"
  by (auto simp: create_sheet_def split: sum.splits)

lemma copy_worksheet_sheets:
  assumes "copy_worksheet L wb ti = Inr wb'"
  shows "\<exists>t'. set_title L (sheetnames wb) [] (title (sheets wb ! ti) @ '' Copy'') = Inr t'
           \<and> wb' = wb\<lparr>sheets := sheets wb @ [\<lparr>title = t', rows = rows (sheets wb ! ti)\<rparr>]\<rparr>"
proof -
  from assms obtain wbc where c: "create_sheet L wb (title (sheets wb ! ti) @ '' Copy'') = Inr wbc"
    and w: "wb' = set_sheet wbc (length (sheets wb))
                 ((sheets wbc ! length (sheets wb))\<lparr>rows := rows (sheets wb ! ti)\<rparr>)"
    by (auto simp: copy_worksheet_def split: sum.splits)
  from create_sheet_sheets [OF c] obtain t' where
    t: "set_title L (sheetnames wb) [] (title (sheets wb ! ti) @ '' Copy'') = Inr t'"
       "wbc = wb\<lparr>sheets := sheets wb @ [empty_sheet t']\<rparr>"
    by blast
  from w t(2) have "wb' = wb\<lparr>sheets := sheets wb @ [\<lparr>title = t', rows = rows (sheets wb ! ti)\<rparr>]\<rparr>"
    by (simp add: set_sheet_def empty_sheet_def)
  with t(1) show ?thesis by blast
qed

lemma provision_new:
  assumes "k \<notin> set (sheetnames wb)" and "get_or_create_sheet L wb k t = Inr (Some i, wb1, out1)"
  shows "\<exists>ti t0 t1. sheet_index wb t = Some ti
           \<and> set_title L (sheetnames wb) [] (title (sheets wb ! ti) @ '' Copy'') = Inr t0
           \<and> set_title L (sheetnames wb @ [t0]) t0 k = Inr t1
           \<and> i = length (sheets wb)
           \<and> wb1 = wb\<lparr>sheets := sheets wb @ [\<lparr>title = t1, rows = rows (sheets wb ! ti)\<rparr>]\<rparr>
           \<and> out1 = [Sheet_not_found_creating k t]"
proof -
  obtain ti where ti: "sheet_index wb t = Some ti"
    using assms by (cases "sheet_index wb t") (simp_all add: get_or_create_sheet_def)
  obtain wbc where c: "copy_worksheet L wb ti = Inr wbc"
    using assms ti by (cases "copy_worksheet L wb ti") (simp_all add: get_or_create_sheet_def)
  obtain wbr where r0: "rename_sheet L wbc (length (sheets wb)) k = Inr wbr"
    using assms ti c
    by (cases "rename_sheet L wbc (length (sheets wb)) k") (simp_all add: get_or_create_sheet_def)
  from assms ti c r0 have e: "Some (length (sheets wb)) = Some i" "wbr = wb1"
    "[Sheet_not_found_creating k t] = out1"
    by (simp_all add: get_or_create_sheet_def)
  from e(1) have i: "i = length (sheets wb)" by simp
  from e(3) have o: "out1 = [Sheet_not_found_creating k t]" by simp
  from r0 e(2) have r: "rename_sheet L wbc (length (sheets wb)) k = Inr wb1" by simp
  from copy_worksheet_sheets [OF c] obtain t0 where
    t0: "set_title L (sheetnames wb) [] (title (sheets wb ! ti) @ '' Copy'') = Inr t0"
        "wbc = wb\<lparr>sheets := sheets wb @ [\<lparr>title = t0, rows = rows (sheets wb ! ti)\<rparr>]\<rparr>"
    by blast
  from r t0(2) obtain t1 where
    t1: "set_title L (sheetnames wb @ [t0]) t0 k = Inr t1"
        "wb1 = wb\<lparr>sheets := sheets wb @ [\<lparr>title = t1, rows = rows (sheets wb ! ti)\<rparr>]\<rparr>"
    by (auto simp: rename_sheet_def set_sheet_def sheetnames_def split: sum.splits)
  from ti t0(1) t1 i o show ?thesis by blast
qed

lemma provision_index:
  assumes "get_or_create_sheet L wb k t = Inr (Some i, wb1, out1)" and "title (sheets wb1 ! i) = k"
  shows "sheet_index wb1 k = Some i"
proof (cases "k \<in> set (sheetnames wb)")
  case True
  from provision_existing [OF True, of L t] assms(1) show ?thesis by auto
next
  case False
  from provision_new [OF False assms(1)] obtain t1 s where
    w: "i = length (sheets wb)" "wb1 = wb\<lparr>sheets := sheets wb @ [\<lparr>title = t1, rows = s\<rparr>]\<rparr>"
    by blast
  with assms(2) have "t1 = k" by simp
  with w False show ?thesis
    using index_of_append_new [of k "sheetnames wb"]
    by (simp add: sheet_index_def sheetnames_def)
qed

section \<open>The write loops\<close>

lemma source_file_has_source: "has_source d \<Longrightarrow> \<exists>src. source_file d = Inr src"
  by (auto simp: has_source_def source_file_def)

lemma sheets_set_sheet:
  "i < length (sheets wb) \<Longrightarrow> sheets (set_sheet wb i s) ! i = s"
  "j \<noteq> i \<Longrightarrow> sheets (set_sheet wb i s) ! j = sheets wb ! j"
  "length (sheets (set_sheet wb i s)) = length (sheets wb)"
  by (simp_all add: set_sheet_def)

lemma sheet_index_set_sheet:
  "title s = title (sheets wb ! i) \<Longrightarrow> sheet_index (set_sheet wb i s) n = sheet_index wb n"
  by (simp add: sheet_index_def sheetnames_set_sheet)

lemma update_step_existing:
  assumes "update_key d = k" and "k \<noteq> []" and "has_source d" and "sheet_index wb k = Some i"
  shows "\<exists>s' out'. update_step L (wb, out) d = Inr (set_sheet wb i s', out')
           \<and> title s' = title (sheets wb ! i)
           \<and> (\<forall>r. r < 5 \<longrightarrow> rows s' r = rows (sheets wb ! i) r)
           \<and> (\<forall>r. 5 < r \<longrightarrow> rows s' r = rows (sheets wb ! i) (r - 1))
           \<and> (\<forall>c. cell_at s' 5 c = written_cell (get_header_map L (sheets wb ! i) 4) d c)"
proof -
  from assms(4) have k: "k \<in> set (sheetnames wb)"
    using index_of_None [of k "sheetnames wb"] by (auto simp: sheet_index_def)
  from provision_existing [OF k, of L TEMPLATE] assms(4)
  have p: "get_or_create_sheet L wb k TEMPLATE = Inr (Some i, wb, [])" by auto
  from source_file_has_source [OF assms(3)] obtain src where src: "source_file d = Inr src" ..
  let ?hm = "get_header_map L (sheets wb ! i) 4"
  from write_row_ok [OF cols_ok_get_header_map, of wb i L "sheets wb ! i" 4 d] obtain s' where
    s': "write_row wb i ?hm d
           = Inr (set_sheet wb i s', header_warnings ?hm (title (sheets wb ! i)) field_to_header_map)"
        "title s' = title (sheets wb ! i)"
        "\<forall>r. r < 5 \<longrightarrow> rows s' r = rows (sheets wb ! i) r"
        "\<forall>r. 5 < r \<longrightarrow> rows s' r = rows (sheets wb ! i) (r - 1)"
        "\<forall>c. cell_at s' 5 c = written_cell ?hm d c"
    by blast
  have "update_step L (wb, out) d
          = Inr (set_sheet wb i s',
                 out @ [] @ [Writing_data src k 5]
                   @ header_warnings ?hm (title (sheets wb ! i)) field_to_header_map)"
    using assms(1,2) p src s'(1) by (simp add: update_step_def update_key_def)
  with s'(2-5) show ?thesis by blast
qed

lemma update_rows_existing:
  assumes "\<forall>d \<in> set todo. update_key d = k \<and> has_source d" and "k \<noteq> []"
      and "sheet_index wb k = Some i"
      and "stacked s0 (sheets wb ! i) (get_header_map L s0 4) done"
  shows "\<exists>wb' out'. update_rows L (wb, out) todo = Inr (wb', out')
           \<and> sheet_index wb' k = Some i
           \<and> stacked s0 (sheets wb' ! i) (get_header_map L s0 4) (done @ todo)
           \<and> length (sheets wb') = length (sheets wb)
           \<and> (\<forall>j. j \<noteq> i \<longrightarrow> sheets wb' ! j = sheets wb ! j)"
  using assms
proof (induction todo arbitrary: wb out "done")
  case Nil
  then show ?case by simp
next
  case (Cons d todo)
  from Cons.prems(1) have d: "update_key d = k" "has_source d"
    and rest: "\<forall>d \<in> set todo. update_key d = k \<and> has_source d" by simp_all
  from sheet_index_SomeD [OF Cons.prems(3)] have i: "i < length (sheets wb)" by simp
  have hm: "get_header_map L (sheets wb ! i) 4 = get_header_map L s0 4"
    using Cons.prems(4) by (rule stacked_header)
  from update_step_existing [OF d(1) Cons.prems(2) d(2) Cons.prems(3), of L out] hm
  obtain s' out1 where
    s': "update_step L (wb, out) d = Inr (set_sheet wb i s', out1)"
        "title s' = title (sheets wb ! i)"
        "\<forall>r. r < 5 \<longrightarrow> rows s' r = rows (sheets wb ! i) r"
        "\<forall>r. 5 < r \<longrightarrow> rows s' r = rows (sheets wb ! i) (r - 1)"
        "\<forall>c. cell_at s' 5 c = written_cell (get_header_map L s0 4) d c"
    by auto
  let ?wb1 = "set_sheet wb i s'"
  have idx: "sheet_index ?wb1 k = Some i"
    using s'(2) Cons.prems(3) by (simp add: sheet_index_set_sheet)
  have st: "stacked s0 (sheets ?wb1 ! i) (get_header_map L s0 4) (done @ [d])"
    using stacked_snoc [OF Cons.prems(4) s'(2-5)] i by (simp add: sheets_set_sheet)
  from Cons.IH [OF rest Cons.prems(2) idx st, of out1] obtain wb' out' where
    r: "update_rows L (?wb1, out1) todo = Inr (wb', out')"
       "sheet_index wb' k = Some i"
       "stacked s0 (sheets wb' ! i) (get_header_map L s0 4) ((done @ [d]) @ todo)"
       "length (sheets wb') = length (sheets ?wb1)"
       "\<forall>j. j \<noteq> i \<longrightarrow> sheets wb' ! j = sheets ?wb1 ! j"
    by blast
  have "update_rows L (wb, out) (d # todo) = Inr (wb', out')" using s'(1) r(1) by simp
  moreover have "length (sheets wb') = length (sheets wb)" using r(4) by (simp add: sheets_set_sheet)
  moreover have "\<forall>j. j \<noteq> i \<longrightarrow> sheets wb' ! j = sheets wb ! j"
    using r(5) by (simp add: sheets_set_sheet)
  ultimately show ?case using r(2,3) by auto
qed

lemma write_group_ok:
  assumes "\<forall>d \<in> set todo. has_source d" and "cols_ok hm" and "i < length (sheets wb)"
      and "stacked s0 (sheets wb ! i) hm done"
  shows "\<exists>wb' out'. write_group (wb, out) i hm b todo = Inr (wb', out')
           \<and> sheetnames wb' = sheetnames wb
           \<and> stacked s0 (sheets wb' ! i) hm (done @ todo)
           \<and> length (sheets wb') = length (sheets wb)
           \<and> (\<forall>j. j \<noteq> i \<longrightarrow> sheets wb' ! j = sheets wb ! j)"
  using assms
proof (induction todo arbitrary: wb out "done")
  case Nil
  then show ?case by simp
next
  case (Cons d todo)
  from Cons.prems(1) have d: "has_source d" and rest: "\<forall>d \<in> set todo. has_source d" by simp_all
  from source_file_has_source [OF d] obtain src where src: "source_file d = Inr src" ..
  from write_row_ok [OF Cons.prems(2), of wb i d] obtain s' where
    s': "write_row wb i hm d
           = Inr (set_sheet wb i s', header_warnings hm (title (sheets wb ! i)) field_to_header_map)"
        "title s' = title (sheets wb ! i)"
        "\<forall>r. r < 5 \<longrightarrow> rows s' r = rows (sheets wb ! i) r"
        "\<forall>r. 5 < r \<longrightarrow> rows s' r = rows (sheets wb ! i) (r - 1)"
        "\<forall>c. cell_at s' 5 c = written_cell hm d c"
    by blast
  let ?wb1 = "set_sheet wb i s'"
  let ?out1 = "out @ [Writing_data src b 5] @ header_warnings hm (title (sheets wb ! i)) field_to_header_map"
  have i1: "i < length (sheets ?wb1)" using Cons.prems(3) by (simp add: sheets_set_sheet)
  have st: "stacked s0 (sheets ?wb1 ! i) hm (done @ [d])"
    using stacked_snoc [OF Cons.prems(4) s'(2-5)] Cons.prems(3) by (simp add: sheets_set_sheet)
  from Cons.IH [OF rest Cons.prems(2) i1 st, of ?out1] obtain wb' out' where
    r: "write_group (?wb1, ?out1) i hm b todo = Inr (wb', out')"
       "sheetnames wb' = sheetnames ?wb1"
       "stacked s0 (sheets wb' ! i) hm ((done @ [d]) @ todo)"
       "length (sheets wb') = length (sheets ?wb1)"
       "\<forall>j. j \<noteq> i \<longrightarrow> sheets wb' ! j = sheets ?wb1 ! j"
    by blast
  have "write_group (wb, out) i hm b (d # todo) = Inr (wb', out')" using src s'(1) r(1) by simp
  moreover have "sheetnames wb' = sheetnames wb" using r(2) s'(2) by (simp add: sheetnames_set_sheet)
  moreover have "length (sheets wb') = length (sheets wb)" using r(4) by (simp add: sheets_set_sheet)
  moreover have "\<forall>j. j \<noteq> i \<longrightarrow> sheets wb' ! j = sheets wb ! j"
    using r(5) by (simp add: sheets_set_sheet)
  ultimately show ?case using r(3) by auto
qed

section \<open>Claims on the Sheet Provisioner and the write loops\<close>

lemma index_of_remove:
  assumes "index_of n xs = Some i" and "xs ! t \<noteq> n"
  shows "index_of n (take t xs @ drop (Suc t) xs) = Some (if i < t then i else i - 1)
           \<and> (i < t \<or> t < i)"
  using assms
proof (induction xs arbitrary: i t)
  case Nil
  then show ?case by simp
next
  case (Cons x xs)
  show ?case
  proof (cases "x = n")
    case True
    with Cons.prems have i: "i = 0" by simp
    with Cons.prems True have "t \<noteq> 0" by (cases t) auto
    with True i show ?thesis by (cases t) auto
  next
    case False
    with Cons.prems(1) obtain i' where i': "index_of n xs = Some i'" "i = Suc i'" by auto
    show ?thesis
    proof (cases t)
      case 0
      with False i' show ?thesis by simp
    next
      case (Suc t')
      with Cons.prems(2) have "xs ! t' \<noteq> n" by simp
      from Cons.IH [OF i'(1) this] False i'(2) Suc show ?thesis by auto
    qed
  qed
qed

lemma nth_remove:
  assumes "i < length xs" and "i \<noteq> t"
  shows "(take t xs @ drop (Suc t) xs) ! (if i < t then i else i - 1) = xs ! i"
proof (cases "i < t")
  case True
  then show ?thesis using assms by (simp add: nth_append)
next
  case False
  with assms have ti: "t < i" by simp
  then have a: "\<not> i - 1 < t" "Suc t + (i - 1 - t) = i" "t < length xs"
    using assms(1) by arith+
  have "(take t xs @ drop (Suc t) xs) ! (i - 1) = drop (Suc t) xs ! (i - 1 - t)"
    using a(1,3) by (simp add: nth_append min_def)
  also have "\<dots> = xs ! i" using a(2) assms(1) by simp
  finally show ?thesis using False by simp
qed

lemma remove_template_keeps:
  assumes "sheet_index wb k = Some i" and "k \<noteq> TEMPLATE"
  shows "\<exists>wb' out' i'. remove_template wb = Inr (wb', out') \<and> sheet_index wb' k = Some i'
           \<and> sheets wb' ! i' = sheets wb ! i"
proof (cases "TEMPLATE \<in> set (sheetnames wb)")
  case False
  with assms show ?thesis by (simp add: remove_template_def)
next
  case True
  from index_of_Some [OF True] obtain t where
    t: "sheet_index wb TEMPLATE = Some t" "t < length (sheets wb)" "sheetnames wb ! t = TEMPLATE"
    by (auto simp: sheet_index_def sheetnames_def)
  let ?wb' = "wb\<lparr>sheets := take t (sheets wb) @ drop (Suc t) (sheets wb)\<rparr>"
  let ?i' = "if i < t then i else i - 1"
  have r: "remove_template wb = Inr (?wb', [Removing_template])"
    using True t(1) by (simp add: remove_template_def del_sheet_def)
  from assms(2) t(3) have ne: "sheetnames wb ! t \<noteq> k" by simp
  from index_of_remove [of k "sheetnames wb" i t] assms(1) ne
  have "index_of k (take t (sheetnames wb) @ drop (Suc t) (sheetnames wb)) = Some ?i'"
    and it: "i \<noteq> t"
    by (auto simp: sheet_index_def)
  then have idx: "sheet_index ?wb' k = Some ?i'"
    by (simp add: sheet_index_def sheetnames_def take_map drop_map)
  from sheet_index_SomeD [OF assms(1)] have "i < length (sheets wb)" by simp
  from nth_remove [OF this it] have "sheets ?wb' ! ?i' = sheets wb ! i" by simp
  with r idx show ?thesis by blast
qed

text \<open>
  Claim C5. If the key names a sheet, \<^verbatim>\<open>get_or_create_sheet\<close> returns a sheet of
  exactly that title (the first one), leaves the workbook as it is and prints nothing; a
  sheet it returns for a key that names no sheet is never one of the old sheets, so a title
  that differs in case only is no match. If the key names no sheet and the template name
  names none either, it returns \<^verbatim>\<open>None\<close> and leaves the workbook as it is; the update loop
  then skips the row and the create loop skips the group, both without a change of the
  workbook.
\<close>

theorem provisioner_existing_or_none:
  "(k \<in> set (sheetnames wb) \<longrightarrow>
      (\<exists>i. get_or_create_sheet L wb k t = Inr (Some i, wb, [])
            \<and> i < length (sheets wb) \<and> title (sheets wb ! i) = k
            \<and> (\<forall>j < i. title (sheets wb ! j) \<noteq> k)))
   \<and> (\<forall>i wb1 out1. k \<notin> set (sheetnames wb) \<and> get_or_create_sheet L wb k t = Inr (Some i, wb1, out1)
         \<longrightarrow> i = length (sheets wb))
   \<and> (k \<notin> set (sheetnames wb) \<and> t \<notin> set (sheetnames wb) \<longrightarrow>
         get_or_create_sheet L wb k t
           = Inr (None, wb, [Sheet_not_found_creating k t, Critical_template_not_found t]))
   \<and> (\<forall>src. update_key d = k \<and> k \<noteq> [] \<and> source_file d = Inr src
         \<and> k \<notin> set (sheetnames wb) \<and> TEMPLATE \<notin> set (sheetnames wb) \<longrightarrow>
         update_step L (wb, out) d
           = Inr (wb, out @ [Sheet_not_found_creating k TEMPLATE, Critical_template_not_found TEMPLATE,
                            Skipping_pdf_missing_template src]))
   \<and> (k \<notin> set (sheetnames wb) \<and> TEMPLATE \<notin> set (sheetnames wb) \<longrightarrow>
         create_step L (wb, out) (k, ds)
           = Inr (wb, out @ [Creating_sheet k, Sheet_not_found_creating k TEMPLATE,
                            Critical_template_not_found TEMPLATE, Skipping_batea_missing_template k]))"
proof (intro conjI impI allI)
  assume k: "k \<in> set (sheetnames wb)"
  from index_of_Some [OF k] obtain i where
    i: "index_of k (sheetnames wb) = Some i" "i < length (sheetnames wb)" "sheetnames wb ! i = k"
       "\<forall>j < i. sheetnames wb ! j \<noteq> k"
    by blast
  have "get_or_create_sheet L wb k t = Inr (Some i, wb, [])"
    using k i(1) by (simp add: get_or_create_sheet_def sheet_index_def)
  moreover have "i < length (sheets wb)" "title (sheets wb ! i) = k"
    using i(2,3) by (simp_all add: sheetnames_def)
  moreover have "\<forall>j < i. title (sheets wb ! j) \<noteq> k"
    using i(2,4) by (simp add: sheetnames_def)
  ultimately show "\<exists>i. get_or_create_sheet L wb k t = Inr (Some i, wb, [])
            \<and> i < length (sheets wb) \<and> title (sheets wb ! i) = k
            \<and> (\<forall>j < i. title (sheets wb ! j) \<noteq> k)"
    by blast
next
  fix i wb1 out1
  assume "k \<notin> set (sheetnames wb) \<and> get_or_create_sheet L wb k t = Inr (Some i, wb1, out1)"
  then have "k \<notin> set (sheetnames wb)" "get_or_create_sheet L wb k t = Inr (Some i, wb1, out1)"
    by simp_all
  from provision_new [OF this] show "i = length (sheets wb)" by blast
next
  assume "k \<notin> set (sheetnames wb) \<and> t \<notin> set (sheetnames wb)"
  then show "get_or_create_sheet L wb k t
           = Inr (None, wb, [Sheet_not_found_creating k t, Critical_template_not_found t])"
    by (simp add: provision_no_template)
next
  fix src
  assume "update_key d = k \<and> k \<noteq> [] \<and> source_file d = Inr src
         \<and> k \<notin> set (sheetnames wb) \<and> TEMPLATE \<notin> set (sheetnames wb)"
  then show "update_step L (wb, out) d
           = Inr (wb, out @ [Sheet_not_found_creating k TEMPLATE, Critical_template_not_found TEMPLATE,
                            Skipping_pdf_missing_template src])"
    by (simp add: update_step_def update_key_def provision_no_template)
next
  assume "k \<notin> set (sheetnames wb) \<and> TEMPLATE \<notin> set (sheetnames wb)"
  then show "create_step L (wb, out) (k, ds)
           = Inr (wb, out @ [Creating_sheet k, Sheet_not_found_creating k TEMPLATE,
                            Critical_template_not_found TEMPLATE, Skipping_batea_missing_template k])"
    by (simp add: create_step_def provision_no_template)
qed

lemma ex_names: "sheetnames ex_wb = [''B7'', ''TEMPLATE'']"
  by (simp add: sheetnames_def ex_wb_def ex_sheet_def template_sheet_def)

theorem provisioner_existing_or_none_witness:
  "''B7'' \<in> set (sheetnames ex_wb)
   \<and> get_or_create_sheet ex_lib ex_wb ''B7'' ''TEMPLATE'' = Inr (Some 0, ex_wb, [])
   \<and> ''b7'' \<notin> set (sheetnames (ex_wb\<lparr>sheets := [ex_sheet]\<rparr>))
   \<and> ''TEMPLATE'' \<notin> set (sheetnames (ex_wb\<lparr>sheets := [ex_sheet]\<rparr>))
   \<and> get_or_create_sheet ex_lib (ex_wb\<lparr>sheets := [ex_sheet]\<rparr>) ''b7'' ''TEMPLATE''
       = Inr (None, ex_wb\<lparr>sheets := [ex_sheet]\<rparr>,
              [Sheet_not_found_creating ''b7'' ''TEMPLATE'', Critical_template_not_found ''TEMPLATE''])"
proof -
  let ?wb1 = "ex_wb\<lparr>sheets := [ex_sheet]\<rparr>"
  have a: "''B7'' \<in> set (sheetnames ex_wb)" by (simp add: ex_names)
  have b: "''b7'' \<notin> set (sheetnames ?wb1)" "''TEMPLATE'' \<notin> set (sheetnames ?wb1)"
    by (simp_all add: sheetnames_def ex_sheet_def)
  note thm1 = provisioner_existing_or_none
    [where k = "''B7''" and wb = ex_wb and L = ex_lib and t = "''TEMPLATE''"]
  note thm2 = provisioner_existing_or_none
    [where k = "''b7''" and wb = ?wb1 and L = ex_lib and t = "''TEMPLATE''"]
  from thm1 a obtain i where
    i: "get_or_create_sheet ex_lib ex_wb ''B7'' ''TEMPLATE'' = Inr (Some i, ex_wb, [])"
       "\<forall>j < i. title (sheets ex_wb ! j) \<noteq> ''B7''"
    by blast
  have "title (sheets ex_wb ! 0) = ''B7''" by (simp add: ex_wb_def ex_sheet_def)
  with i(2) have "i = 0" by (cases i) auto
  with i(1) have c: "get_or_create_sheet ex_lib ex_wb ''B7'' ''TEMPLATE'' = Inr (Some 0, ex_wb, [])"
    by simp
  from thm2 b have "get_or_create_sheet ex_lib ?wb1 ''b7'' ''TEMPLATE''
       = Inr (None, ?wb1,
              [Sheet_not_found_creating ''b7'' ''TEMPLATE'', Critical_template_not_found ''TEMPLATE''])"
    by blast
  with a b c show ?thesis by blast
qed

lemma update_step_provisioned:
  assumes "update_key d = k" and "k \<noteq> []" and "has_source d"
      and "get_or_create_sheet L wb k TEMPLATE = Inr (Some i, wb1, out1)"
  shows "\<exists>s' out'. update_step L (wb, out) d = Inr (set_sheet wb1 i s', out')
           \<and> title s' = title (sheets wb1 ! i)
           \<and> (\<forall>r. r < 5 \<longrightarrow> rows s' r = rows (sheets wb1 ! i) r)
           \<and> (\<forall>r. 5 < r \<longrightarrow> rows s' r = rows (sheets wb1 ! i) (r - 1))
           \<and> (\<forall>c. cell_at s' 5 c = written_cell (get_header_map L (sheets wb1 ! i) 4) d c)"
proof -
  from source_file_has_source [OF assms(3)] obtain src where src: "source_file d = Inr src" ..
  let ?hm = "get_header_map L (sheets wb1 ! i) 4"
  from write_row_ok [OF cols_ok_get_header_map, of wb1 i L "sheets wb1 ! i" 4 d] obtain s' where
    s': "write_row wb1 i ?hm d
           = Inr (set_sheet wb1 i s', header_warnings ?hm (title (sheets wb1 ! i)) field_to_header_map)"
        "title s' = title (sheets wb1 ! i)"
        "\<forall>r. r < 5 \<longrightarrow> rows s' r = rows (sheets wb1 ! i) r"
        "\<forall>r. 5 < r \<longrightarrow> rows s' r = rows (sheets wb1 ! i) (r - 1)"
        "\<forall>c. cell_at s' 5 c = written_cell ?hm d c"
    by blast
  have "update_step L (wb, out) d
          = Inr (set_sheet wb1 i s',
                 out @ out1 @ [Writing_data src k 5]
                   @ header_warnings ?hm (title (sheets wb1 ! i)) field_to_header_map)"
    using assms(1,2,4) src s'(1) by (simp add: update_step_def update_key_def)
  with s'(2-5) show ?thesis by blast
qed

lemma stacked_cells:
  assumes "stacked s s' hm ds"
  shows "(\<forall>r c. r < 5 \<longrightarrow> cell_at s' r c = cell_at s r c)"
    and "(\<forall>j c. j < length ds \<longrightarrow> cell_at s' (5 + j) c = written_cell hm (ds ! (length ds - 1 - j)) c)"
    and "(\<forall>r c. 5 \<le> r \<longrightarrow> cell_at s' (r + length ds) c = cell_at s r c)"
    and "(\<forall>j c. j < length ds \<and> 1 \<le> c \<and> c \<le> 14 \<longrightarrow> cborder (cell_at s' (5 + j) c) = Some thin_border)"
proof -
  from assms show "\<forall>r c. r < 5 \<longrightarrow> cell_at s' r c = cell_at s r c"
    by (simp add: stacked_def cell_at_def)
  from assms show w: "\<forall>j c. j < length ds \<longrightarrow>
      cell_at s' (5 + j) c = written_cell hm (ds ! (length ds - 1 - j)) c"
    by (simp add: stacked_def)
  from assms show "\<forall>r c. 5 \<le> r \<longrightarrow> cell_at s' (r + length ds) c = cell_at s r c"
    by (simp add: stacked_def)
  from w show "\<forall>j c. j < length ds \<and> 1 \<le> c \<and> c \<le> 14 \<longrightarrow>
      cborder (cell_at s' (5 + j) c) = Some thin_border"
    by (simp add: cborder_written_cell)
qed

text \<open>
  Claim C1. Update mode, \<open>N\<close> rows that share one category key \<open>k\<close> (not empty after
  trimming), where the Sheet Provisioner answers the first of them with a sheet titled
  \<open>k\<close>, an old one or a fresh clone of the template: the loop ends normally, every one
  of the rows is inserted at row 5 of that sheet, so that afterwards the rows 1 to 4 (the
  header) are as before, row \<open>5 + j\<close> holds the row written \<open>j\<close>-th from the end (the input
  order reversed), each with the thin border on the columns 1 to 14, and the rows the sheet
  had from row 5 on follow, moved down by \<open>N\<close>. Unless \<open>k\<close> is the reserved name
  TEMPLATE, the terminal removal of the template leaves this sheet in the workbook.
\<close>

theorem update_mode_rows_below_header_reversed:
  assumes "\<forall>x \<in> set (d # ds). update_key x = k \<and> has_source x"
      and "k \<noteq> []"
      and "get_or_create_sheet L wb k TEMPLATE = Inr (Some i, wb1, out1)"
      and "title (sheets wb1 ! i) = k"
  shows "\<exists>wb' out'. update_rows L (wb, out) (d # ds) = Inr (wb', out')
           \<and> sheet_index wb' k = Some i
           \<and> (\<forall>r c. r < 5 \<longrightarrow> cell_at (sheets wb' ! i) r c = cell_at (sheets wb1 ! i) r c)
           \<and> (\<forall>j c. j < length (d # ds) \<longrightarrow>
                 cell_at (sheets wb' ! i) (5 + j) c
                   = written_cell (get_header_map L (sheets wb1 ! i) 4)
                       ((d # ds) ! (length (d # ds) - 1 - j)) c)
           \<and> (\<forall>j c. j < length (d # ds) \<and> 1 \<le> c \<and> c \<le> 14 \<longrightarrow>
                 cborder (cell_at (sheets wb' ! i) (5 + j) c) = Some thin_border)
           \<and> (\<forall>r c. 5 \<le> r \<longrightarrow>
                 cell_at (sheets wb' ! i) (r + length (d # ds)) c = cell_at (sheets wb1 ! i) r c)
           \<and> (k \<noteq> TEMPLATE \<longrightarrow>
                 (\<exists>wb'' out'' i'. remove_template wb' = Inr (wb'', out'')
                    \<and> sheet_index wb'' k = Some i' \<and> sheets wb'' ! i' = sheets wb' ! i))"
proof -
  let ?s0 = "sheets wb1 ! i"
  let ?hm = "get_header_map L ?s0 4"
  from assms(1) have d: "update_key d = k" "has_source d"
    and rest: "\<forall>x \<in> set ds. update_key x = k \<and> has_source x" by simp_all
  from provision_index [OF assms(3,4)] have idx1: "sheet_index wb1 k = Some i" .
  from sheet_index_SomeD [OF idx1] have i: "i < length (sheets wb1)" by simp
  from update_step_provisioned [OF d(1) assms(2) d(2) assms(3), of out] obtain s' out2 where
    s': "update_step L (wb, out) d = Inr (set_sheet wb1 i s', out2)"
        "title s' = title ?s0" "\<forall>r. r < 5 \<longrightarrow> rows s' r = rows ?s0 r"
        "\<forall>r. 5 < r \<longrightarrow> rows s' r = rows ?s0 (r - 1)"
        "\<forall>c. cell_at s' 5 c = written_cell ?hm d c"
    by blast
  let ?wb2 = "set_sheet wb1 i s'"
  have idx2: "sheet_index ?wb2 k = Some i" using s'(2) idx1 by (simp add: sheet_index_set_sheet)
  have st: "stacked ?s0 (sheets ?wb2 ! i) ?hm ([] @ [d])"
    using stacked_snoc [OF stacked_Nil s'(2-5)] i by (simp add: sheets_set_sheet)
  from update_rows_existing [OF rest assms(2) idx2 st, of out2] obtain wb' out' where
    r: "update_rows L (?wb2, out2) ds = Inr (wb', out')" "sheet_index wb' k = Some i"
       "stacked ?s0 (sheets wb' ! i) ?hm (([] @ [d]) @ ds)"
    by blast
  from r(3) have st': "stacked ?s0 (sheets wb' ! i) ?hm (d # ds)" by simp
  have run: "update_rows L (wb, out) (d # ds) = Inr (wb', out')" using s'(1) r(1) by simp
  have keep: "k \<noteq> TEMPLATE \<longrightarrow>
                 (\<exists>wb'' out'' i'. remove_template wb' = Inr (wb'', out'')
                    \<and> sheet_index wb'' k = Some i' \<and> sheets wb'' ! i' = sheets wb' ! i)"
    using remove_template_keeps [OF r(2)] by blast
  from run r(2) stacked_cells [OF st'] keep show ?thesis by blast
qed

lemma update_key_ex_rows: "update_key ex_row2 = ''B7''" "update_key ex_row3 = ''B7''"
  by (simp_all add: update_key_def dict_get_def ex_row2_def ex_row3_def py_strip_def is_space_def)

lemma has_source_ex_rows: "has_source ex_row2" "has_source ex_row3" "has_source ex_row_nokey"
  by (simp_all add: has_source_def ex_row2_def ex_row3_def ex_row_nokey_def)

lemma ex_provision: "get_or_create_sheet ex_lib ex_wb ''B7'' TEMPLATE = Inr (Some 0, ex_wb, [])"
  by (simp add: get_or_create_sheet_def ex_names sheet_index_def TEMPLATE_def)

lemma ex_header: "get_header_map ex_lib ex_sheet 4 = ex_header_map"
  by (simp add: get_header_map_def ex_sheet_def hdr_def truthy_def py_str_def py_strip_def
        is_space_def ex_header_map_def fun_eq_iff)

theorem update_mode_rows_below_header_reversed_witness:
  "(\<exists>wb' out'. update_rows ex_lib (ex_wb, []) [ex_row2, ex_row3] = Inr (wb', out')
      \<and> cvalue (cell_at (sheets wb' ! 0) 5 1) = Str ''14/05''
      \<and> cvalue (cell_at (sheets wb' ! 0) 6 1) = Str ''13/05''
      \<and> cborder (cell_at (sheets wb' ! 0) 6 14) = Some thin_border
      \<and> cell_at (sheets wb' ! 0) 7 1 = hdr ''old'')"
proof -
  have a: "\<forall>x \<in> set (ex_row2 # [ex_row3]). update_key x = ''B7'' \<and> has_source x"
    by (simp add: update_key_ex_rows has_source_ex_rows)
  have b: "''B7'' \<noteq> []" by simp
  have c: "title (sheets ex_wb ! 0) = ''B7''" by (simp add: ex_wb_def ex_sheet_def)
  have s0: "sheets ex_wb ! 0 = ex_sheet" by (simp add: ex_wb_def)
  from update_mode_rows_below_header_reversed [OF a b ex_provision c, of "[]"] obtain wb' out' where
    r: "update_rows ex_lib (ex_wb, []) [ex_row2, ex_row3] = Inr (wb', out')"
       "\<forall>j c. j < length [ex_row2, ex_row3] \<longrightarrow>
                 cell_at (sheets wb' ! 0) (5 + j) c
                   = written_cell (get_header_map ex_lib (sheets ex_wb ! 0) 4)
                       ([ex_row2, ex_row3] ! (length [ex_row2, ex_row3] - 1 - j)) c"
       "\<forall>j c. j < length [ex_row2, ex_row3] \<and> 1 \<le> c \<and> c \<le> 14 \<longrightarrow>
                 cborder (cell_at (sheets wb' ! 0) (5 + j) c) = Some thin_border"
       "\<forall>r c. 5 \<le> r \<longrightarrow>
                 cell_at (sheets wb' ! 0) (r + length [ex_row2, ex_row3]) c = cell_at (sheets ex_wb ! 0) r c"
    by blast
  from r(2) [rule_format, of 0 1] have "cell_at (sheets wb' ! 0) 5 1 = written_cell ex_header_map ex_row3 1"
    by (simp add: s0 ex_header)
  then have v1: "cvalue (cell_at (sheets wb' ! 0) 5 1) = Str ''14/05''"
    by (simp add: written_cell_def field_to_header_map_def put_field_def ex_header_map_def
          ex_row3_def dict_get_def coerce_def py_float_def float_strip_def is_float_space_def py_strip_def is_space_def
          abs_float_value_def py_lower_def lower_char_def float_number_def digitpart_def
          is_digit_def float_exponent_def)
  from r(2) [rule_format, of 1 1] have "cell_at (sheets wb' ! 0) 6 1 = written_cell ex_header_map ex_row2 1"
    by (simp add: s0 ex_header)
  then have v2: "cvalue (cell_at (sheets wb' ! 0) 6 1) = Str ''13/05''"
    by (simp add: written_cell_def field_to_header_map_def put_field_def ex_header_map_def
          ex_row2_def dict_get_def coerce_def py_float_def float_strip_def is_float_space_def py_strip_def is_space_def
          abs_float_value_def py_lower_def lower_char_def float_number_def digitpart_def
          is_digit_def float_exponent_def)
  from r(3) [rule_format, of 1 14] have v3: "cborder (cell_at (sheets wb' ! 0) 6 14) = Some thin_border"
    by simp
  from r(4) [rule_format, of 5 1] have v4: "cell_at (sheets wb' ! 0) 7 1 = hdr ''old''"
    by (simp add: s0 cell_at_def ex_sheet_def)
  from r(1) v1 v2 v3 v4 show ?thesis by blast
qed

section \<open>Rows without a category key\<close>

lemma wb_of_update_step: "wb_of (update_step L (wb, out) d) = wb_of (update_step L (wb, out') d)"
  by (simp add: update_step_def wb_of_def Let_def split: sum.splits option.splits prod.splits)

lemma wb_of_update_rows: "wb_of (update_rows L (wb, out) ds) = wb_of (update_rows L (wb, out') ds)"
proof (induction ds arbitrary: wb out out')
  case Nil
  then show ?case by (simp add: wb_of_def)
next
  case (Cons d ds)
  show ?case
  proof (cases "update_step L (wb, out) d")
    case (Inl e)
    with wb_of_update_step [of L wb out d out'] show ?thesis
      by (cases "update_step L (wb, out') d") (auto simp: wb_of_def)
  next
    case (Inr st)
    obtain wb1 o1 where st: "st = (wb1, o1)" by (cases st)
    from Inr st wb_of_update_step [of L wb out d out'] obtain o1' where
      "update_step L (wb, out') d = Inr (wb1, o1')"
      by (cases "update_step L (wb, out') d") (auto simp: wb_of_def)
    with Inr st Cons.IH [of wb1 o1 o1'] show ?thesis by simp
  qed
qed

lemma update_rows_append:
  "update_rows L st (xs @ ys)
     = (case update_rows L st xs of Inl e \<Rightarrow> Inl e | Inr st' \<Rightarrow> update_rows L st' ys)"
  by (induction xs arbitrary: st) (auto split: sum.splits)

lemma map_of_add_to_group:
  "map_of (add_to_group k d g) k'
     = (if k' = k then Some ((case map_of g k of None \<Rightarrow> [] | Some xs \<Rightarrow> xs) @ [d])
        else map_of g k')"
  by (induction g) auto

lemma map_of_foldl_group:
  "map_of (foldl (\<lambda>g row. add_to_group (create_key row) row g) g ds) k
     = (if filter (\<lambda>x. create_key x = k) ds = [] then map_of g k
        else Some ((case map_of g k of None \<Rightarrow> [] | Some xs \<Rightarrow> xs) @ filter (\<lambda>x. create_key x = k) ds))"
  by (induction ds arbitrary: g) (auto simp: map_of_add_to_group)

lemma map_of_group_by_batea:
  "map_of (group_by_batea ds) k
     = (if filter (\<lambda>x. create_key x = k) ds = [] then None
        else Some (filter (\<lambda>x. create_key x = k) ds))"
  by (simp add: group_by_batea_def map_of_foldl_group)

lemma create_step_provisioned:
  assumes "\<forall>x \<in> set grp. has_source x"
      and "get_or_create_sheet L wb k TEMPLATE = Inr (Some i, wb1, out1)"
      and "title (sheets wb1 ! i) = k"
  shows "\<exists>wb' out'. create_step L (wb, out) (k, grp) = Inr (wb', out')
           \<and> sheetnames wb' = sheetnames wb1
           \<and> sheet_index wb' k = Some i
           \<and> stacked (sheets wb1 ! i) (sheets wb' ! i) (get_header_map L (sheets wb1 ! i) 4) grp
           \<and> length (sheets wb') = length (sheets wb1)
           \<and> (\<forall>j. j \<noteq> i \<longrightarrow> sheets wb' ! j = sheets wb1 ! j)"
proof -
  let ?s0 = "sheets wb1 ! i"
  let ?hm = "get_header_map L ?s0 4"
  from provision_index [OF assms(2,3)] have idx1: "sheet_index wb1 k = Some i" .
  from sheet_index_SomeD [OF idx1] have i: "i < length (sheets wb1)" by simp
  from write_group_ok [OF assms(1) cols_ok_get_header_map [of L ?s0 4] i stacked_Nil,
                       where out = "out @ [Creating_sheet k] @ out1" and b = k]
  obtain wb' out' where
    r: "write_group (wb1, out @ [Creating_sheet k] @ out1) i ?hm k grp = Inr (wb', out')"
       "sheetnames wb' = sheetnames wb1"
       "stacked ?s0 (sheets wb' ! i) ?hm ([] @ grp)"
       "length (sheets wb') = length (sheets wb1)"
       "\<forall>j. j \<noteq> i \<longrightarrow> sheets wb' ! j = sheets wb1 ! j"
    by blast
  have "create_step L (wb, out) (k, grp) = Inr (wb', out')"
    using assms(2) r(1) by (simp add: create_step_def)
  moreover have "sheet_index wb' k = Some i" using idx1 r(2) by (simp add: sheet_index_def)
  ultimately show ?thesis using r(2-5) by auto
qed

text \<open>
  Claim C4. A row whose category key is empty after trimming (the entry is missing, empty
  or white space). Update mode: its round of the loop prints the warning and returns the
  workbook as it was, and a run with the row has the same final workbook (or the same
  uncaught exception) as the run without it. Create mode: the key of the row is the
  sentinel \<^verbatim>\<open>UNKNOWN_BATEA\<close>; the grouping puts the row into the group of that key; and
  the round of the loop for that group, when the Sheet Provisioner gives it a sheet of that
  title, writes the row into that sheet (it is one of the rows from row 5 on).
\<close>

theorem empty_key_dropped_or_sentinel:
  assumes "update_key d = []" and "has_source d"
  shows "(\<exists>src. source_file d = Inr src
            \<and> update_step L (wb, out) d = Inr (wb, out @ [Warn_no_batea src]))
         \<and> wb_of (update_rows L (wb, out) (pre @ d # post)) = wb_of (update_rows L (wb, out) (pre @ post))
         \<and> create_key d = UNKNOWN_BATEA
         \<and> (d \<in> set ds \<longrightarrow>
               (\<exists>grp. map_of (group_by_batea ds) UNKNOWN_BATEA = Some grp \<and> d \<in> set grp))
         \<and> (\<forall>grp i wb1 out1.
               d \<in> set grp \<and> (\<forall>x \<in> set grp. has_source x)
               \<and> get_or_create_sheet L wb UNKNOWN_BATEA TEMPLATE = Inr (Some i, wb1, out1)
               \<and> title (sheets wb1 ! i) = UNKNOWN_BATEA \<longrightarrow>
               (\<exists>wb' out' j. create_step L (wb, out) (UNKNOWN_BATEA, grp) = Inr (wb', out')
                  \<and> sheet_index wb' UNKNOWN_BATEA = Some i \<and> j < length grp
                  \<and> (\<forall>c. cell_at (sheets wb' ! i) (5 + j) c
                            = written_cell (get_header_map L (sheets wb1 ! i) 4) d c)))"
proof -
  from source_file_has_source [OF assms(2)] obtain src where src: "source_file d = Inr src" ..
  have step: "update_step L (wb', out') d = Inr (wb', out' @ [Warn_no_batea src])" for wb' out'
    using assms(1) src by (simp add: update_step_def update_key_def)
  have a: "\<exists>src. source_file d = Inr src
            \<and> update_step L (wb, out) d = Inr (wb, out @ [Warn_no_batea src])"
    using src step by blast
  have b: "wb_of (update_rows L (wb, out) (pre @ d # post)) = wb_of (update_rows L (wb, out) (pre @ post))"
  proof (cases "update_rows L (wb, out) pre")
    case (Inl e)
    then show ?thesis by (simp add: update_rows_append)
  next
    case (Inr st)
    obtain wb1 o1 where st: "st = (wb1, o1)" by (cases st)
    from Inr st step [of wb1 o1] show ?thesis
      using wb_of_update_rows [of L wb1 "o1 @ [Warn_no_batea src]" post o1]
      by (simp add: update_rows_append)
  qed
  have key: "create_key d = UNKNOWN_BATEA"
  proof (cases "d ''BATEA''")
    case None
    then show ?thesis
      by (simp add: create_key_def dict_get_def UNKNOWN_BATEA_def py_strip_def is_space_def)
  next
    case (Some v)
    with assms(1) have "py_strip v = []" by (simp add: update_key_def dict_get_def)
    with Some show ?thesis by (simp add: create_key_def dict_get_def)
  qed
  have c: "d \<in> set ds \<longrightarrow>
               (\<exists>grp. map_of (group_by_batea ds) UNKNOWN_BATEA = Some grp \<and> d \<in> set grp)"
  proof
    assume "d \<in> set ds"
    with key have "d \<in> set (filter (\<lambda>x. create_key x = UNKNOWN_BATEA) ds)" by simp
    moreover from this have "filter (\<lambda>x. create_key x = UNKNOWN_BATEA) ds \<noteq> []"
      by (auto simp: filter_empty_conv)
    ultimately show "\<exists>grp. map_of (group_by_batea ds) UNKNOWN_BATEA = Some grp \<and> d \<in> set grp"
      by (simp add: map_of_group_by_batea)
  qed
  have e: "\<forall>grp i wb1 out1.
               d \<in> set grp \<and> (\<forall>x \<in> set grp. has_source x)
               \<and> get_or_create_sheet L wb UNKNOWN_BATEA TEMPLATE = Inr (Some i, wb1, out1)
               \<and> title (sheets wb1 ! i) = UNKNOWN_BATEA \<longrightarrow>
               (\<exists>wb' out' j. create_step L (wb, out) (UNKNOWN_BATEA, grp) = Inr (wb', out')
                  \<and> sheet_index wb' UNKNOWN_BATEA = Some i \<and> j < length grp
                  \<and> (\<forall>c. cell_at (sheets wb' ! i) (5 + j) c
                            = written_cell (get_header_map L (sheets wb1 ! i) 4) d c))"
  proof (intro allI impI, elim conjE)
    fix grp i wb1 out1
    assume h: "d \<in> set grp" "\<forall>x \<in> set grp. has_source x"
      "get_or_create_sheet L wb UNKNOWN_BATEA TEMPLATE = Inr (Some i, wb1, out1)"
      "title (sheets wb1 ! i) = UNKNOWN_BATEA"
    from create_step_provisioned [OF h(2,3,4), of out] obtain wb' out' where
      r: "create_step L (wb, out) (UNKNOWN_BATEA, grp) = Inr (wb', out')"
         "sheet_index wb' UNKNOWN_BATEA = Some i"
         "stacked (sheets wb1 ! i) (sheets wb' ! i) (get_header_map L (sheets wb1 ! i) 4) grp"
      by blast
    from h(1) obtain n where n: "n < length grp" "grp ! n = d" by (auto simp: in_set_conv_nth)
    let ?j = "length grp - 1 - n"
    from n(1) have j: "?j < length grp" "length grp - 1 - ?j = n" by arith+
    from stacked_cells(2) [OF r(3)] j n(2)
    have "\<forall>c. cell_at (sheets wb' ! i) (5 + ?j) c
                 = written_cell (get_header_map L (sheets wb1 ! i) 4) d c"
      by auto
    with r(1,2) j(1) show "\<exists>wb' out' j. create_step L (wb, out) (UNKNOWN_BATEA, grp) = Inr (wb', out')
                  \<and> sheet_index wb' UNKNOWN_BATEA = Some i \<and> j < length grp
                  \<and> (\<forall>c. cell_at (sheets wb' ! i) (5 + j) c
                            = written_cell (get_header_map L (sheets wb1 ! i) 4) d c)"
      by blast
  qed
  from a b key c e show ?thesis by blast
qed

theorem empty_key_dropped_or_sentinel_witness:
  "update_key ex_row_nokey = [] \<and> has_source ex_row_nokey
   \<and> update_step ex_lib (ex_wb, []) ex_row_nokey = Inr (ex_wb, [Warn_no_batea ''d.pdf''])
   \<and> create_key ex_row_nokey = UNKNOWN_BATEA
   \<and> (\<exists>grp. map_of (group_by_batea [ex_row2, ex_row_nokey]) UNKNOWN_BATEA = Some grp
         \<and> ex_row_nokey \<in> set grp)"
proof -
  have a: "update_key ex_row_nokey = []"
    by (simp add: update_key_def dict_get_def ex_row_nokey_def py_strip_def is_space_def)
  have b: "has_source ex_row_nokey" by (rule has_source_ex_rows)
  have s: "source_file ex_row_nokey = Inr ''d.pdf''"
    by (simp add: source_file_def ex_row_nokey_def)
  have m: "ex_row_nokey \<in> set [ex_row2, ex_row_nokey]" by simp
  note t = empty_key_dropped_or_sentinel
    [OF a b, where L = ex_lib and wb = ex_wb and out = "[]" and ds = "[ex_row2, ex_row_nokey]"
       and pre = "[]" and post = "[]"]
  from t obtain src where
    "source_file ex_row_nokey = Inr src"
    "update_step ex_lib (ex_wb, []) ex_row_nokey = Inr (ex_wb, [] @ [Warn_no_batea src])"
    by blast
  with s have u: "update_step ex_lib (ex_wb, []) ex_row_nokey = Inr (ex_wb, [Warn_no_batea ''d.pdf''])"
    by simp
  from t have k: "create_key ex_row_nokey = UNKNOWN_BATEA" by blast
  from t m have g: "\<exists>grp. map_of (group_by_batea [ex_row2, ex_row_nokey]) UNKNOWN_BATEA = Some grp
         \<and> ex_row_nokey \<in> set grp"
    by blast
  from a b u k g show ?thesis by blast
qed

section \<open>Sheet titles stay distinct\<close>

lemma set_title_new:
  assumes "lib_fresh L" and "set_title L names [] v = Inr t"
  shows "t \<notin> set names"
proof (cases "title_taken names v")
  case True
  with assms show ?thesis
    by (auto simp: set_title_def lib_fresh_def valid_title_def split: if_splits)
next
  case False
  then have "v \<notin> set names" by (auto simp: title_taken_def)
  with assms False show ?thesis by (auto simp: set_title_def split: if_splits)
qed

lemma set_title_rename:
  assumes "lib_fresh L" and "set_title L names old v = Inr t"
  shows "t = old \<or> t \<notin> set names"
proof (cases "old \<noteq> v \<and> title_taken names v")
  case True
  with assms show ?thesis by (auto simp: set_title_def lib_fresh_def split: if_splits)
next
  case False
  show ?thesis
  proof (cases "old = v")
    case True
    with assms show ?thesis by (auto simp: set_title_def split: if_splits)
  next
    case ne: False
    with False have "v \<notin> set names" by (auto simp: title_taken_def)
    with assms False show ?thesis by (auto simp: set_title_def split: if_splits)
  qed
qed

lemma distinct_list_update_new:
  assumes "distinct xs" and "i < length xs" and "t = xs ! i \<or> t \<notin> set xs"
  shows "distinct (xs[i := t])"
proof (cases "t = xs ! i")
  case True
  with assms show ?thesis by (simp add: list_update_same_conv)
next
  case False
  with assms(3) have "t \<notin> set xs" by simp
  with assms(1,2) show ?thesis
    by (auto simp: distinct_conv_nth nth_list_update set_conv_nth)
qed

lemma create_sheet_distinct:
  assumes "lib_fresh L" and "distinct (sheetnames wb)" and "create_sheet L wb t = Inr wb'"
  shows "distinct (sheetnames wb')"
proof -
  from create_sheet_sheets [OF assms(3)] obtain t' where
    t': "set_title L (sheetnames wb) [] t = Inr t'" "wb' = wb\<lparr>sheets := sheets wb @ [empty_sheet t']\<rparr>"
    by blast
  from set_title_new [OF assms(1) t'(1)] assms(2) t'(2) show ?thesis
    by (simp add: sheetnames_def empty_sheet_def)
qed

lemma rename_sheet_distinct:
  assumes "lib_fresh L" and "distinct (sheetnames wb)" and "i < length (sheets wb)"
      and "rename_sheet L wb i v = Inr wb'"
  shows "distinct (sheetnames wb')"
proof -
  from assms(4) obtain t where
    t: "set_title L (sheetnames wb) (title (sheets wb ! i)) v = Inr t"
       "wb' = set_sheet wb i ((sheets wb ! i)\<lparr>title := t\<rparr>)"
    by (auto simp: rename_sheet_def split: sum.splits)
  from set_title_rename [OF assms(1) t(1)] assms(3)
  have "t = sheetnames wb ! i \<or> t \<notin> set (sheetnames wb)" by (simp add: sheetnames_def)
  from distinct_list_update_new [OF assms(2) _ this] assms(3)
  have "distinct ((sheetnames wb)[i := t])" by (simp add: sheetnames_def)
  with t(2) show ?thesis by (simp add: sheetnames_def set_sheet_def map_update)
qed

lemma provision_distinct:
  assumes "lib_fresh L" and "distinct (sheetnames wb)"
      and "get_or_create_sheet L wb k t = Inr (r, wb1, out1)"
  shows "distinct (sheetnames wb1)"
proof (cases "k \<in> set (sheetnames wb)")
  case True
  from provision_existing [OF True, of L t] assms(2,3) show ?thesis by auto
next
  case False
  show ?thesis
  proof (cases r)
    case None
    with assms(3) False have "wb1 = wb"
      by (auto simp: get_or_create_sheet_def Let_def split: option.splits sum.splits)
    with assms(2) show ?thesis by simp
  next
    case (Some i)
    from provision_new [OF False assms(3) [unfolded Some]] obtain ti t0 t1 where
      p: "set_title L (sheetnames wb) [] (title (sheets wb ! ti) @ '' Copy'') = Inr t0"
         "set_title L (sheetnames wb @ [t0]) t0 k = Inr t1"
         "wb1 = wb\<lparr>sheets := sheets wb @ [\<lparr>title = t1, rows = rows (sheets wb ! ti)\<rparr>]\<rparr>"
      by blast
    from set_title_new [OF assms(1) p(1)] have t0: "t0 \<notin> set (sheetnames wb)" .
    from set_title_rename [OF assms(1) p(2)] t0 have "t1 \<notin> set (sheetnames wb)" by auto
    with assms(2) p(3) show ?thesis by (simp add: sheetnames_def)
  qed
qed

lemma write_row_names:
  assumes "cols_ok hm" and "write_row wb i hm d = Inr (wb', out')"
  shows "sheetnames wb' = sheetnames wb"
proof -
  from write_row_ok [OF assms(1), of wb i d] assms(2) obtain s' where
    "wb' = set_sheet wb i s'" "title s' = title (sheets wb ! i)"
    by auto
  then show ?thesis by (simp add: sheetnames_set_sheet)
qed

lemma update_step_distinct:
  assumes "lib_fresh L" and "distinct (sheetnames wb)"
      and "update_step L (wb, out) d = Inr (wb', out')"
  shows "distinct (sheetnames wb')"
proof (cases "py_strip (dict_get d ''BATEA'' '''') = []")
  case True
  with assms(2,3) show ?thesis
    by (auto simp: update_step_def split: sum.splits)
next
  case False
  let ?k = "py_strip (dict_get d ''BATEA'' '''')"
  from assms(3) False obtain r wb1 out1 where
    p: "get_or_create_sheet L wb ?k TEMPLATE = Inr (r, wb1, out1)"
    by (cases "get_or_create_sheet L wb ?k TEMPLATE") (auto simp: update_step_def Let_def)
  from provision_distinct [OF assms(1,2) p] have d1: "distinct (sheetnames wb1)" .
  show ?thesis
  proof (cases r)
    case None
    with assms(3) False p have "wb' = wb1"
      by (auto simp: update_step_def Let_def split: sum.splits)
    with d1 show ?thesis by simp
  next
    case (Some i)
    with assms(3) False p obtain o2 where
      "write_row wb1 i (get_header_map L (sheets wb1 ! i) 4) d = Inr (wb', o2)"
      by (auto simp: update_step_def Let_def split: sum.splits prod.splits)
    from write_row_names [OF cols_ok_get_header_map this] d1 show ?thesis by simp
  qed
qed

lemma update_rows_distinct:
  assumes "lib_fresh L" and "distinct (sheetnames wb)"
      and "update_rows L (wb, out) ds = Inr (wb', out')"
  shows "distinct (sheetnames wb')"
  using assms(2,3)
proof (induction ds arbitrary: wb out)
  case Nil
  then show ?case by simp
next
  case (Cons d ds)
  from Cons.prems(2) obtain wb1 o1 where
    s: "update_step L (wb, out) d = Inr (wb1, o1)" "update_rows L (wb1, o1) ds = Inr (wb', out')"
    by (cases "update_step L (wb, out) d") auto
  from update_step_distinct [OF assms(1) Cons.prems(1) s(1)] have "distinct (sheetnames wb1)" .
  from Cons.IH [OF this s(2)] show ?case .
qed

lemma write_group_names:
  assumes "cols_ok hm" and "write_group (wb, out) i hm b ds = Inr (wb', out')"
  shows "sheetnames wb' = sheetnames wb"
  using assms(2)
proof (induction ds arbitrary: wb out)
  case Nil
  then show ?case by simp
next
  case (Cons d ds)
  from Cons.prems obtain src wb1 o1 where
    s: "source_file d = Inr src" "write_row wb i hm d = Inr (wb1, o1)"
       "write_group (wb1, out @ [Writing_data src b 5] @ o1) i hm b ds = Inr (wb', out')"
    by (auto split: sum.splits prod.splits)
  from write_row_names [OF assms(1) s(2)] Cons.IH [OF s(3)] show ?case by simp
qed

lemma create_step_distinct:
  assumes "lib_fresh L" and "distinct (sheetnames wb)"
      and "create_step L (wb, out) (k, grp) = Inr (wb', out')"
  shows "distinct (sheetnames wb')"
proof -
  from assms(3) obtain r wb1 out1 where
    p: "get_or_create_sheet L wb k TEMPLATE = Inr (r, wb1, out1)"
    by (cases "get_or_create_sheet L wb k TEMPLATE") (auto simp: create_step_def)
  from provision_distinct [OF assms(1,2) p] have d1: "distinct (sheetnames wb1)" .
  show ?thesis
  proof (cases r)
    case None
    with assms(3) p have "wb' = wb1" by (auto simp: create_step_def)
    with d1 show ?thesis by simp
  next
    case (Some i)
    with assms(3) p have
      "write_group (wb1, out @ [Creating_sheet k] @ out1) i (get_header_map L (sheets wb1 ! i) 4) k grp
         = Inr (wb', out')"
      by (simp add: create_step_def)
    from write_group_names [OF cols_ok_get_header_map this] d1 show ?thesis by simp
  qed
qed

lemma create_groups_distinct:
  assumes "lib_fresh L" and "distinct (sheetnames wb)"
      and "create_groups L (wb, out) gs = Inr (wb', out')"
  shows "distinct (sheetnames wb')"
  using assms(2,3)
proof (induction gs arbitrary: wb out)
  case Nil
  then show ?case by simp
next
  case (Cons g gs)
  obtain k grp where g: "g = (k, grp)" by (cases g)
  from Cons.prems(2) obtain wb1 o1 where
    s: "create_step L (wb, out) g = Inr (wb1, o1)" "create_groups L (wb1, o1) gs = Inr (wb', out')"
    by (cases "create_step L (wb, out) g") auto
  from create_step_distinct [OF assms(1) Cons.prems(1) s(1) [unfolded g]]
  have "distinct (sheetnames wb1)" .
  from Cons.IH [OF this s(2)] show ?case .
qed

lemma index_of_remove_distinct:
  assumes "distinct xs" and "index_of n xs = Some i"
  shows "n \<notin> set (take i xs @ drop (Suc i) xs)"
proof -
  from index_of_SomeD [OF assms(2)] have i: "i < length xs" "xs ! i = n" by simp_all
  from id_take_nth_drop [OF i(1)] i(2) have "xs = take i xs @ n # drop (Suc i) xs" by simp
  then have "distinct (take i xs @ n # drop (Suc i) xs)" using assms(1) by metis
  then show ?thesis by auto
qed

lemma remove_template_result:
  "\<exists>wb' out'. remove_template wb = Inr (wb', out')
      \<and> (distinct (sheetnames wb) \<longrightarrow> TEMPLATE \<notin> set (sheetnames wb'))
      \<and> (TEMPLATE \<notin> set (sheetnames wb) \<longrightarrow> wb' = wb)
      \<and> (\<forall>rest. sheetnames wb = TEMPLATE # rest \<longrightarrow> sheetnames wb' = rest \<and> sheets wb' = tl (sheets wb))"
proof (cases "TEMPLATE \<in> set (sheetnames wb)")
  case False
  then show ?thesis by (auto simp: remove_template_def)
next
  case True
  from index_of_Some [OF True] obtain t where t: "index_of TEMPLATE (sheetnames wb) = Some t" by blast
  let ?wb' = "wb\<lparr>sheets := take t (sheets wb) @ drop (Suc t) (sheets wb)\<rparr>"
  have r: "remove_template wb = Inr (?wb', [Removing_template])"
    using True t by (simp add: remove_template_def del_sheet_def sheet_index_def)
  have n: "sheetnames ?wb' = take t (sheetnames wb) @ drop (Suc t) (sheetnames wb)"
    by (simp add: sheetnames_def take_map drop_map)
  have a: "distinct (sheetnames wb) \<longrightarrow> TEMPLATE \<notin> set (sheetnames ?wb')"
    using index_of_remove_distinct [OF _ t] n by simp
  have b: "\<forall>rest. sheetnames wb = TEMPLATE # rest \<longrightarrow> sheetnames ?wb' = rest \<and> sheets ?wb' = tl (sheets wb)"
  proof (intro allI impI)
    fix rest assume h: "sheetnames wb = TEMPLATE # rest"
    with t have "t = 0" by simp
    with h n show "sheetnames ?wb' = rest \<and> sheets ?wb' = tl (sheets wb)"
      by (simp add: drop_Suc)
  qed
  from r a b True show ?thesis by blast
qed

section \<open>The file system steps\<close>

lemma makedirs_files: "makedirs w p = Inr w1 \<Longrightarrow> files w1 = files w \<and> dirs w1 = insert p (dirs w)"
  by (auto simp: makedirs_def split: if_splits)

lemma write_file_files:
  "write_file w p c = Inr w1 \<Longrightarrow> files w1 = (files w)(p \<mapsto> c) \<and> dirs w1 = dirs w \<and> p \<notin> dirs w"
  by (auto simp: write_file_def split: if_splits)

lemma shutil_copy_files:
  assumes "shutil_copy w src dst = Inr w1"
  shows "\<exists>c. files w src = Some c
           \<and> files w1 = (files w)((if dst \<in> dirs w then path_join dst (basename src) else dst) \<mapsto> c)
           \<and> dirs w1 = dirs w"
proof -
  from assms obtain c where c: "files w src = Some c"
    by (cases "files w src") (auto simp: shutil_copy_def)
  with assms have "write_file w (if dst \<in> dirs w then path_join dst (basename src) else dst) c = Inr w1"
    by (simp add: shutil_copy_def)
  from write_file_files [OF this] c show ?thesis by blast
qed

lemma backup_output_files:
  assumes "backup_output w now out = (w1, o1)"
  shows "files w1 = files w \<or> (\<exists>c p. files w out = Some c \<and> files w1 = (files w)(p \<mapsto> c))"
proof (cases "makedirs w ''.old''")
  case (Inl e)
  with assms show ?thesis by (simp add: backup_output_def)
next
  case (Inr wm)
  from makedirs_files [OF Inr] have m: "files wm = files w" by simp
  show ?thesis
  proof (cases "shutil_copy wm out (backup_path_of now out)")
    case (Inl e)
    with assms Inr m show ?thesis by (auto simp: backup_output_def)
  next
    case c: (Inr w2)
    from shutil_copy_files [OF c] m obtain x p where "files w out = Some x" "files w2 = (files w)(p \<mapsto> x)"
      by auto
    moreover from assms Inr c have "w1 = w2" by (simp add: backup_output_def)
    ultimately show ?thesis by blast
  qed
qed

lemma wf_world_backup_output:
  assumes "wf_world w" and "backup_output w now out = (w1, o1)"
  shows "wf_world w1"
  using backup_output_files [OF assms(2)] assms(1)
  by (auto simp: wf_world_def split: if_splits)

lemma load_workbook_files: "load_workbook w p = Inr wb \<Longrightarrow> files w p = Some (Xlsx wb)"
  by (auto simp: load_workbook_def split: if_splits option.splits fcontent.splits)

lemma load_workbook_supported: "load_workbook w p = Inr wb \<Longrightarrow> supported_format p"
  by (auto simp: load_workbook_def split: if_splits)

lemma load_workbook_distinct: "wf_world w \<Longrightarrow> load_workbook w p = Inr wb \<Longrightarrow> distinct (sheetnames wb)"
  by (auto simp: wf_world_def dest: load_workbook_files)

section \<open>The template sheet never reaches the saved workbook\<close>

lemma ensure_template_distinct:
  assumes "lib_fresh L" and "distinct (sheetnames wb)"
      and "ensure_template L w wb out tp = Inr (wb1, o1)"
  shows "distinct (sheetnames wb1)"
proof (cases "TEMPLATE \<in> set (sheetnames wb)")
  case True
  with assms show ?thesis by (simp add: ensure_template_def)
next
  case False
  from assms(3) False have pe: "path_exists w tp"
    by (cases "path_exists w tp") (simp_all add: ensure_template_def)
  from assms(3) False pe obtain twb where l: "load_workbook w tp = Inr twb"
    by (cases "load_workbook w tp") (simp_all add: ensure_template_def)
  from assms(3) False pe l obtain wbc where c: "create_sheet L wb TEMPLATE = Inr wbc"
    by (cases "create_sheet L wb TEMPLATE") (simp_all add: ensure_template_def)
  from assms(3) False pe l c have a: "active twb < length (sheets twb)"
    by (cases "active twb < length (sheets twb)") (simp_all add: ensure_template_def)
  obtain tgt o2 where
    p: "copy_sheet_properties (sheets twb ! active twb) (sheets wbc ! length (sheets wb)) = (tgt, o2)"
    by (cases "copy_sheet_properties (sheets twb ! active twb) (sheets wbc ! length (sheets wb))")
  from assms(3) False pe l c a p have w: "wb1 = set_sheet wbc (length (sheets wb)) tgt"
    by (simp add: ensure_template_def)
  from create_sheet_distinct [OF assms(1,2) c] have d: "distinct (sheetnames wbc)" .
  from p have "title tgt = title (sheets wbc ! length (sheets wb))"
    by (auto simp: copy_sheet_properties_def)
  from sheetnames_set_sheet [OF this] w d show ?thesis by simp
qed

lemma load_and_rename_distinct:
  assumes "lib_fresh L" and "wf_world w" and "load_and_rename L w out = Inr wb"
  shows "distinct (sheetnames wb)"
proof -
  from assms(3) obtain wb0 where
    l: "load_workbook w out = Inr wb0" and a: "active wb0 < length (sheets wb0)"
    and r: "rename_sheet L wb0 (active wb0) TEMPLATE = Inr wb"
    by (auto simp: load_and_rename_def split: sum.splits if_splits)
  from load_workbook_distinct [OF assms(2) l] have "distinct (sheetnames wb0)" .
  from rename_sheet_distinct [OF assms(1) this a r] show ?thesis .
qed

lemma finish_outcome:
  assumes "finish w wb out o1 = (w', o', oc)"
  shows "\<exists>wbs o2 e. remove_template wb = Inr (wbs, o2) \<and> oc = Finished wbs e
           \<and> save_workbook w wbs out = (w', e)"
proof -
  from remove_template_result [of wb] obtain wbs o2 where r: "remove_template wb = Inr (wbs, o2)"
    by blast
  obtain ws e where sv: "save_workbook w wbs out = (ws, e)" by (cases "save_workbook w wbs out")
  with assms r have "oc = Finished wbs e" "w' = ws" by (cases e; simp add: finish_def)+
  with r sv show ?thesis by auto
qed

lemma finish_no_template:
  assumes "distinct (sheetnames wb)" and "finish w wb out o1 = (w', o', Finished wbs e)"
  shows "TEMPLATE \<notin> set (sheetnames wbs)"
proof -
  from finish_outcome [OF assms(2)] obtain o2 where "remove_template wb = Inr (wbs, o2)" by auto
  with remove_template_result [of wb] assms(1) show ?thesis by auto
qed

lemma main_update_no_template:
  assumes "lib_fresh L" and "wf_world w"
      and "main_update L w now tp out ds = (w', o', Finished wbs e)"
  shows "TEMPLATE \<notin> set (sheetnames wbs)"
proof -
  obtain w1 o1 where b: "backup_output w now out = (w1, o1)" by (cases "backup_output w now out")
  from wf_world_backup_output [OF assms(2) b] have wf1: "wf_world w1" .
  from assms(3) b obtain wb0 where l: "load_workbook w1 out = Inr wb0"
    by (cases "load_workbook w1 out") (auto simp: main_update_def Let_def)
  from load_workbook_distinct [OF wf1 l] have d0: "distinct (sheetnames wb0)" .
  from assms(3) b l obtain wb1 o2 where t: "ensure_template L w1 wb0 out tp = Inr (wb1, o2)"
    by (cases "ensure_template L w1 wb0 out tp") (auto simp: main_update_def Let_def)
  from ensure_template_distinct [OF assms(1) d0 t] have d1: "distinct (sheetnames wb1)" .
  from assms(3) b l t obtain wb2 o3 where
    u: "update_rows L (wb1, [File_exists_will_update out] @ o1 @ o2) ds = Inr (wb2, o3)"
    by (cases "update_rows L (wb1, [File_exists_will_update out] @ o1 @ o2) ds")
       (auto simp: main_update_def Let_def)
  from update_rows_distinct [OF assms(1) d1 u] have d2: "distinct (sheetnames wb2)" .
  from assms(3) b l t u have "finish w1 wb2 out o3 = (w', o', Finished wbs e)"
    by (simp add: main_update_def Let_def)
  from finish_no_template [OF d2 this] show ?thesis .
qed

lemma wf_world_shutil_copy:
  assumes "wf_world w" and "shutil_copy w src dst = Inr w1"
  shows "wf_world w1"
  using shutil_copy_files [OF assms(2)] assms(1)
  by (auto simp: wf_world_def split: if_splits)

lemma main_create_no_template:
  assumes "lib_fresh L" and "wf_world w"
      and "main_create L w tp out ds = (w', o', Finished wbs e)"
  shows "TEMPLATE \<notin> set (sheetnames wbs)"
proof -
  from assms(3) obtain w1 where c: "shutil_copy w tp out = Inr w1"
    by (cases "shutil_copy w tp out") (auto simp: main_create_def Let_def)
  from wf_world_shutil_copy [OF assms(2) c] have wf1: "wf_world w1" .
  from assms(3) c obtain wb0 where l: "load_and_rename L w1 out = Inr wb0"
    by (cases "load_and_rename L w1 out") (auto simp: main_create_def Let_def)
  from load_and_rename_distinct [OF assms(1) wf1 l] have d0: "distinct (sheetnames wb0)" .
  from assms(3) c l obtain wb2 o2 where
    g: "create_groups L (wb0, [Creating_new_file out]) (group_by_batea ds) = Inr (wb2, o2)"
    by (cases "create_groups L (wb0, [Creating_new_file out]) (group_by_batea ds)")
       (auto simp: main_create_def Let_def)
  from create_groups_distinct [OF assms(1) d0 g] have d2: "distinct (sheetnames wb2)" .
  from assms(3) c l g have "finish w1 wb2 out o2 = (w', o', Finished wbs e)"
    by (simp add: main_create_def Let_def)
  from finish_no_template [OF d2 this] show ?thesis .
qed

lemma main_excel_no_template:
  assumes "lib_fresh L" and "wf_world w"
      and "main_excel L w now tp name ds = (w', o', Finished wbs e)"
  shows "TEMPLATE \<notin> set (sheetnames wbs)"
  using assms main_update_no_template [OF assms(1,2)] main_create_no_template [OF assms(1,2)]
  by (auto simp: main_excel_def Let_def split: if_splits)

section \<open>The sheets of a create-mode run\<close>

lemma keys_add_to_group:
  "map fst (add_to_group k d g) = (if k \<in> set (map fst g) then map fst g else map fst g @ [k])"
  by (induction g) force+

lemma keys_foldl_group:
  "distinct (map fst g) \<Longrightarrow>
     distinct (map fst (foldl (\<lambda>g row. add_to_group (create_key row) row g) g ds))
     \<and> set (map fst (foldl (\<lambda>g row. add_to_group (create_key row) row g) g ds))
         = set (map fst g) \<union> create_key ` set ds"
proof (induction ds arbitrary: g)
  case Nil
  then show ?case by simp
next
  case (Cons d ds)
  let ?g1 = "add_to_group (create_key d) d g"
  have d1: "distinct (map fst ?g1)" using Cons.prems by (simp add: keys_add_to_group)
  have s1: "set (map fst ?g1) = insert (create_key d) (set (map fst g))"
    by (auto simp: keys_add_to_group)
  from Cons.IH [OF d1] s1 show ?case by auto
qed

lemma group_keys:
  "distinct (map fst (group_by_batea ds))"
  "set (map fst (group_by_batea ds)) = create_key ` set ds"
  using keys_foldl_group [of "[]" ds] by (simp_all add: group_by_batea_def)

lemma template_copy_title: "TEMPLATE @ '' Copy'' = ''TEMPLATE Copy''"
  by (simp add: TEMPLATE_def)

lemma valid_template_titles: "valid_title TEMPLATE" "valid_title ''TEMPLATE Copy''"
  by (simp_all add: valid_title_def TEMPLATE_def invalid_title_chars_def)

lemma lower_template_copy: "py_lower TEMPLATE \<noteq> py_lower ''TEMPLATE Copy''"
proof
  assume "py_lower TEMPLATE = py_lower ''TEMPLATE Copy''"
  then have "length (py_lower TEMPLATE) = length (py_lower ''TEMPLATE Copy'')" by simp
  then show False by (simp add: py_lower_def TEMPLATE_def)
qed

lemma create_step_names:
  assumes acc: "keys_accepted K" and k: "k \<in> set K"
      and names: "sheetnames wb = TEMPLATE # done" and dn: "set done \<subseteq> set K" "k \<notin> set done"
      and step: "create_step L (wb, out) (k, grp) = Inr (wb', out')"
  shows "sheetnames wb' = TEMPLATE # done @ (if k = TEMPLATE then [] else [k])"
proof -
  from step obtain r wb1 out1 where
    p: "get_or_create_sheet L wb k TEMPLATE = Inr (r, wb1, out1)"
    by (cases "get_or_create_sheet L wb k TEMPLATE") (auto simp: create_step_def)
  have ti: "sheet_index wb TEMPLATE = Some 0" using names by (simp add: sheet_index_def)
  show ?thesis
  proof (cases "k = TEMPLATE")
    case True
    with names have "k \<in> set (sheetnames wb)" by simp
    from provision_existing [OF this, of L TEMPLATE] p obtain i where
      r: "r = Some i" "wb1 = wb" by auto
    with step p have
      "write_group (wb, out @ [Creating_sheet k] @ out1) i (get_header_map L (sheets wb ! i) 4) k grp
         = Inr (wb', out')"
      by (simp add: create_step_def)
    from write_group_names [OF cols_ok_get_header_map this] names True show ?thesis by simp
  next
    case False
    with names dn(2) have nk: "k \<notin> set (sheetnames wb)" by simp
    from p nk ti obtain i where r: "r = Some i"
      by (cases r) (auto simp: get_or_create_sheet_def Let_def split: sum.splits)
    from provision_new [OF nk p [unfolded r]] ti obtain t0 t1 where
      t: "set_title L (sheetnames wb) [] (title (sheets wb ! 0) @ '' Copy'') = Inr t0"
         "set_title L (sheetnames wb @ [t0]) t0 k = Inr t1"
         "wb1 = wb\<lparr>sheets := sheets wb @ [\<lparr>title = t1, rows = rows (sheets wb ! 0)\<rparr>]\<rparr>"
      by auto
    from sheet_index_SomeD [OF ti] have "title (sheets wb ! 0) = TEMPLATE" by simp
    with t(1) have t0r: "set_title L (sheetnames wb) [] ''TEMPLATE Copy'' = Inr t0"
      by (simp add: template_copy_title)
    have nt0: "\<not> title_taken (sheetnames wb) ''TEMPLATE Copy''"
    proof
      assume "title_taken (sheetnames wb) ''TEMPLATE Copy''"
      then have "\<exists>n \<in> set (TEMPLATE # done). py_lower n = py_lower ''TEMPLATE Copy''"
        using names by (simp add: title_taken_def image_iff) metis
      then obtain n where n: "n \<in> set (TEMPLATE # done)" "py_lower n = py_lower ''TEMPLATE Copy''"
        by blast
      show False
      proof (cases "n = TEMPLATE")
        case True
        with n(2) lower_template_copy show False by simp
      next
        case False
        with n(1) dn(1) have "n \<in> set K" by auto
        with acc n(2) show False by (auto simp: keys_accepted_def)
      qed
    qed
    from t0r nt0 have t0: "t0 = ''TEMPLATE Copy''"
      by (simp add: set_title_def valid_template_titles)
    from acc k have vk: "valid_title k" and lk: "py_lower k \<noteq> py_lower ''TEMPLATE Copy''"
      and uk: "\<forall>k' \<in> set (TEMPLATE # K). py_lower k' = py_lower k \<longrightarrow> k' = k"
      by (auto simp: keys_accepted_def)
    have nt1: "\<not> title_taken (sheetnames wb @ [t0]) k"
    proof
      assume "title_taken (sheetnames wb @ [t0]) k"
      then have "\<exists>n \<in> set (TEMPLATE # done @ [t0]). py_lower n = py_lower k"
        using names by (simp add: title_taken_def image_iff) metis
      then obtain n where n: "n \<in> set (TEMPLATE # done @ [t0])" "py_lower n = py_lower k"
        by blast
      from n(2) lk t0 have "n \<noteq> t0" by auto
      with n(1) dn(1) have "n \<in> set (TEMPLATE # K)" "n = TEMPLATE \<or> n \<in> set done" by auto
      with uk n(2) have "n = k" "n = TEMPLATE \<or> n \<in> set done" by auto
      with False dn(2) show False by auto
    qed
    from t(2) vk nt1 have "t1 = k" by (simp add: set_title_def)
    with t(3) names have n1: "sheetnames wb1 = TEMPLATE # done @ [k]" by (simp add: sheetnames_def)
    from step p r have
      "write_group (wb1, out @ [Creating_sheet k] @ out1) i (get_header_map L (sheets wb1 ! i) 4) k grp
         = Inr (wb', out')"
      by (simp add: create_step_def)
    from write_group_names [OF cols_ok_get_header_map this] n1 False show ?thesis by simp
  qed
qed

lemma create_groups_names:
  assumes acc: "keys_accepted K"
  shows "distinct (map fst gs) \<Longrightarrow> set (map fst gs) \<subseteq> set K \<Longrightarrow> sheetnames wb = TEMPLATE # done
           \<Longrightarrow> set done \<subseteq> set K \<Longrightarrow> set done \<inter> set (map fst gs) = {}
           \<Longrightarrow> create_groups L (wb, out) gs = Inr (wb', out')
           \<Longrightarrow> sheetnames wb' = TEMPLATE # done @ filter (\<lambda>k. k \<noteq> TEMPLATE) (map fst gs)"
proof (induction gs arbitrary: wb out "done")
  case Nil
  then show ?case by simp
next
  case (Cons g gs)
  obtain k grp where g: "g = (k, grp)" by (cases g)
  from Cons.prems(6) obtain wb1 o1 where
    s: "create_step L (wb, out) g = Inr (wb1, o1)" "create_groups L (wb1, o1) gs = Inr (wb', out')"
    by (cases "create_step L (wb, out) g") auto
  from Cons.prems(2,5) g have k: "k \<in> set K" "k \<notin> set done" by auto
  let ?done1 = "done @ (if k = TEMPLATE then [] else [k])"
  from create_step_names [OF acc k(1) Cons.prems(3,4) k(2) s(1) [unfolded g]]
  have n1: "sheetnames wb1 = TEMPLATE # ?done1" by simp
  have a: "distinct (map fst gs)" "set (map fst gs) \<subseteq> set K" using Cons.prems(1,2) by simp_all
  have b: "set ?done1 \<subseteq> set K" using Cons.prems(4) k(1) by auto
  have c: "set ?done1 \<inter> set (map fst gs) = {}" using Cons.prems(1,5) g by auto
  from Cons.IH [OF a n1 b c s(2)] g show ?case by simp
qed

lemma load_and_rename_single:
  assumes "files w out = Some (Xlsx twb)" and "sheets twb = [s0]" and "active twb = 0"
      and "title s0 = TEMPLATE \<or> py_lower (title s0) \<noteq> py_lower TEMPLATE"
      and "supported_format out"
  shows "\<exists>wb0. load_and_rename L w out = Inr wb0 \<and> sheetnames wb0 = [TEMPLATE]"
proof -
  have l: "load_workbook w out = Inr twb" using assms(1,5) by (simp add: load_workbook_def)
  have "set_title L (sheetnames twb) (title (sheets twb ! 0)) TEMPLATE = Inr TEMPLATE"
    using assms(2,4) by (auto simp: set_title_def valid_template_titles title_taken_def sheetnames_def)
  then have "rename_sheet L twb 0 TEMPLATE = Inr (set_sheet twb 0 ((sheets twb ! 0)\<lparr>title := TEMPLATE\<rparr>))"
    by (simp add: rename_sheet_def)
  with l assms(2,3) show ?thesis
    by (simp add: load_and_rename_def sheetnames_def set_sheet_def)
qed

lemma main_create_names:
  assumes "main_create L w tp out ds = (w', o', Finished wbs e)"
      and "files w tp = Some (Xlsx twb)" and "\<not> path_exists w out"
      and "sheets twb = [s0]" and "active twb = 0"
      and "title s0 = TEMPLATE \<or> py_lower (title s0) \<noteq> py_lower TEMPLATE"
      and "keys_accepted (map fst (group_by_batea ds))"
  shows "sheetnames wbs = filter (\<lambda>k. k \<noteq> TEMPLATE) (map fst (group_by_batea ds))"
proof -
  from assms(1) obtain w1 where c: "shutil_copy w tp out = Inr w1"
    by (cases "shutil_copy w tp out") (auto simp: main_create_def Let_def)
  from assms(3) have "out \<notin> dirs w" by (simp add: path_exists_def)
  with shutil_copy_files [OF c] assms(2) have f1: "files w1 out = Some (Xlsx twb)" by auto
  from assms(1) c obtain wbx where "load_and_rename L w1 out = Inr wbx"
    by (cases "load_and_rename L w1 out") (auto simp: main_create_def Let_def)
  then obtain wby where "load_workbook w1 out = Inr wby"
    by (cases "load_workbook w1 out") (auto simp: load_and_rename_def)
  from load_workbook_supported [OF this] have sf: "supported_format out" .
  from load_and_rename_single [OF f1 assms(4,5,6) sf, of L] obtain wb0 where
    l: "load_and_rename L w1 out = Inr wb0" and n0: "sheetnames wb0 = [TEMPLATE]" by blast
  from assms(1) c l obtain wb2 o2 where
    g: "create_groups L (wb0, [Creating_new_file out]) (group_by_batea ds) = Inr (wb2, o2)"
    by (cases "create_groups L (wb0, [Creating_new_file out]) (group_by_batea ds)")
       (auto simp: main_create_def Let_def)
  from n0 have n0': "sheetnames wb0 = TEMPLATE # []" by simp
  from create_groups_names [OF assms(7) group_keys(1) _ n0' _ _ g]
  have n2: "sheetnames wb2 = TEMPLATE # filter (\<lambda>k. k \<noteq> TEMPLATE) (map fst (group_by_batea ds))"
    by simp
  from assms(1) c l g have "finish w1 wb2 out o2 = (w', o', Finished wbs e)"
    by (simp add: main_create_def Let_def)
  from finish_outcome [OF this] obtain o3 where "remove_template wb2 = Inr (wbs, o3)" by auto
  with remove_template_result [of wb2] n2 show ?thesis by auto
qed

section \<open>A create-mode run with accepted keys\<close>

lemma accepted_titles:
  assumes acc: "keys_accepted K" and k: "k \<in> set K" "k \<noteq> TEMPLATE"
      and names: "sheetnames wb = TEMPLATE # done" and dn: "set done \<subseteq> set K" "k \<notin> set done"
  shows "set_title L (sheetnames wb) [] ''TEMPLATE Copy'' = Inr ''TEMPLATE Copy''"
    and "set_title L (sheetnames wb @ [''TEMPLATE Copy'']) ''TEMPLATE Copy'' k = Inr k"
proof -
  have nt0: "\<not> title_taken (sheetnames wb) ''TEMPLATE Copy''"
  proof
    assume "title_taken (sheetnames wb) ''TEMPLATE Copy''"
    then have "\<exists>n \<in> set (TEMPLATE # done). py_lower n = py_lower ''TEMPLATE Copy''"
      using names by (simp add: title_taken_def image_iff) metis
    then obtain n where n: "n \<in> set (TEMPLATE # done)" "py_lower n = py_lower ''TEMPLATE Copy''"
      by blast
    show False
    proof (cases "n = TEMPLATE")
      case True
      with n(2) lower_template_copy show False by simp
    next
      case False
      with n(1) dn(1) have "n \<in> set K" by auto
      with acc n(2) show False by (auto simp: keys_accepted_def)
    qed
  qed
  then show "set_title L (sheetnames wb) [] ''TEMPLATE Copy'' = Inr ''TEMPLATE Copy''"
    by (simp add: set_title_def valid_template_titles)
  from acc k(1) have vk: "valid_title k" and lk: "py_lower k \<noteq> py_lower ''TEMPLATE Copy''"
    and uk: "\<forall>k' \<in> set (TEMPLATE # K). py_lower k' = py_lower k \<longrightarrow> k' = k"
    by (auto simp: keys_accepted_def)
  have nt1: "\<not> title_taken (sheetnames wb @ [''TEMPLATE Copy'']) k"
  proof
    assume "title_taken (sheetnames wb @ [''TEMPLATE Copy'']) k"
    then have "\<exists>n \<in> set (TEMPLATE # done @ [''TEMPLATE Copy'']). py_lower n = py_lower k"
      using names by (simp add: title_taken_def image_iff) metis
    then obtain n where n: "n \<in> set (TEMPLATE # done @ [''TEMPLATE Copy''])" "py_lower n = py_lower k"
      by blast
    from n(2) lk have "n \<noteq> ''TEMPLATE Copy''" by auto
    with n(1) dn(1) have "n \<in> set (TEMPLATE # K)" "n = TEMPLATE \<or> n \<in> set done" by auto
    with uk n(2) have "n = k" "n = TEMPLATE \<or> n \<in> set done" by auto
    with k(2) dn(2) show False by auto
  qed
  with vk show "set_title L (sheetnames wb @ [''TEMPLATE Copy'']) ''TEMPLATE Copy'' k = Inr k"
    by (simp add: set_title_def)
qed

lemma provision_accepted:
  assumes acc: "keys_accepted K" and k: "k \<in> set K" "k \<noteq> TEMPLATE"
      and names: "sheetnames wb = TEMPLATE # done" and dn: "set done \<subseteq> set K" "k \<notin> set done"
  shows "get_or_create_sheet L wb k TEMPLATE
           = Inr (Some (length (sheets wb)),
                  wb\<lparr>sheets := sheets wb @ [\<lparr>title = k, rows = rows (sheets wb ! 0)\<rparr>]\<rparr>,
                  [Sheet_not_found_creating k TEMPLATE])"
proof -
  from names k(2) dn(2) have nk: "k \<notin> set (sheetnames wb)" by simp
  have ti: "sheet_index wb TEMPLATE = Some 0" using names by (simp add: sheet_index_def)
  from sheet_index_SomeD [OF ti] have t0: "title (sheets wb ! 0) = TEMPLATE" by simp
  note a = accepted_titles [OF acc k names dn, of L]
  let ?wbc = "wb\<lparr>sheets := sheets wb @ [\<lparr>title = ''TEMPLATE Copy'', rows = rows (sheets wb ! 0)\<rparr>]\<rparr>"
  have c: "copy_worksheet L wb 0 = Inr ?wbc"
    using a(1) t0
    by (simp add: copy_worksheet_def create_sheet_def template_copy_title set_sheet_def empty_sheet_def)
  have n: "sheetnames ?wbc = sheetnames wb @ [''TEMPLATE Copy'']" by (simp add: sheetnames_def)
  have r: "rename_sheet L ?wbc (length (sheets wb)) k
             = Inr (wb\<lparr>sheets := sheets wb @ [\<lparr>title = k, rows = rows (sheets wb ! 0)\<rparr>]\<rparr>)"
    using a(2) by (simp add: rename_sheet_def n set_sheet_def)
  from nk ti c r show ?thesis by (simp add: get_or_create_sheet_def)
qed

lemma create_step_run:
  assumes acc: "keys_accepted K" and k: "k \<in> set K"
      and names: "sheetnames wb = TEMPLATE # done" and dn: "set done \<subseteq> set K" "k \<notin> set done"
      and src: "\<forall>x \<in> set grp. has_source x"
  shows "\<exists>wb' out'. create_step L (wb, out) (k, grp) = Inr (wb', out')
           \<and> sheetnames wb' = TEMPLATE # done @ (if k = TEMPLATE then [] else [k])"
proof (cases "k = TEMPLATE")
  case True
  with names have "k \<in> set (sheetnames wb)" by simp
  from provision_existing [OF this, of L TEMPLATE] obtain i where
    p: "get_or_create_sheet L wb k TEMPLATE = Inr (Some i, wb, [])" "title (sheets wb ! i) = k"
    by blast
  from create_step_provisioned [OF src p, of out] names True show ?thesis by auto
next
  case False
  let ?wb1 = "wb\<lparr>sheets := sheets wb @ [\<lparr>title = k, rows = rows (sheets wb ! 0)\<rparr>]\<rparr>"
  note p = provision_accepted [OF acc k False names dn, of L]
  have t: "title (sheets ?wb1 ! length (sheets wb)) = k" by simp
  have n1: "sheetnames ?wb1 = TEMPLATE # done @ [k]" using names by (simp add: sheetnames_def)
  from create_step_provisioned [OF src p t, of out] n1 False show ?thesis by auto
qed

lemma create_groups_run:
  assumes acc: "keys_accepted K"
  shows "distinct (map fst gs) \<Longrightarrow> set (map fst gs) \<subseteq> set K \<Longrightarrow> sheetnames wb = TEMPLATE # done
           \<Longrightarrow> set done \<subseteq> set K \<Longrightarrow> set done \<inter> set (map fst gs) = {}
           \<Longrightarrow> \<forall>g \<in> set gs. \<forall>x \<in> set (snd g). has_source x
           \<Longrightarrow> \<exists>wb' out'. create_groups L (wb, out) gs = Inr (wb', out')
                  \<and> sheetnames wb' = TEMPLATE # done @ filter (\<lambda>k. k \<noteq> TEMPLATE) (map fst gs)"
proof (induction gs arbitrary: wb out "done")
  case Nil
  then show ?case by simp
next
  case (Cons g gs)
  obtain k grp where g: "g = (k, grp)" by (cases g)
  from Cons.prems(2,5) g have k: "k \<in> set K" "k \<notin> set done" by auto
  from Cons.prems(6) g have src: "\<forall>x \<in> set grp. has_source x" by simp
  let ?done1 = "done @ (if k = TEMPLATE then [] else [k])"
  from create_step_run [OF acc k(1) Cons.prems(3,4) k(2) src, of L out] obtain wb1 o1 where
    s: "create_step L (wb, out) (k, grp) = Inr (wb1, o1)" "sheetnames wb1 = TEMPLATE # ?done1"
    by auto
  have a: "distinct (map fst gs)" "set (map fst gs) \<subseteq> set K" using Cons.prems(1,2) by simp_all
  have b: "set ?done1 \<subseteq> set K" using Cons.prems(4) k(1) by auto
  have c: "set ?done1 \<inter> set (map fst gs) = {}" using Cons.prems(1,5) g by auto
  have d: "\<forall>g \<in> set gs. \<forall>x \<in> set (snd g). has_source x" using Cons.prems(6) by simp
  from Cons.IH [OF a s(2) b c d, of o1] obtain wb' out' where
    r: "create_groups L (wb1, o1) gs = Inr (wb', out')"
       "sheetnames wb' = TEMPLATE # ?done1 @ filter (\<lambda>k. k \<noteq> TEMPLATE) (map fst gs)"
    by blast
  from s(1) r g show ?case by simp
qed

lemma group_rows_subset:
  assumes "g \<in> set (group_by_batea ds)"
  shows "set (snd g) \<subseteq> set ds"
proof -
  obtain k grp where g: "g = (k, grp)" by (cases g)
  with assms group_keys(1) [of ds] have "map_of (group_by_batea ds) k = Some grp" by simp
  then have "grp = filter (\<lambda>x. create_key x = k) ds"
    by (simp add: map_of_group_by_batea split: if_splits)
  with g show ?thesis by auto
qed

lemma main_create_run:
  assumes "files w tp = Some (Xlsx twb)" and "\<not> path_exists w out"
      and "sheets twb = [s0]" and "active twb = 0"
      and "title s0 = TEMPLATE \<or> py_lower (title s0) \<noteq> py_lower TEMPLATE"
      and "keys_accepted (map fst (group_by_batea ds))"
      and "\<forall>d \<in> set ds. has_source d"
      and "dirname out = [] \<or> dirname out \<in> dirs w" and "out \<notin> locked w"
      and "filter (\<lambda>k. k \<noteq> TEMPLATE) (map fst (group_by_batea ds)) \<noteq> []"
      and "supported_format out"
  shows "\<exists>w' o' wbs. main_create L w tp out ds = (w', o', Finished wbs None)
           \<and> files w' out = Some (Xlsx wbs)
           \<and> sheetnames wbs = filter (\<lambda>k. k \<noteq> TEMPLATE) (map fst (group_by_batea ds))"
proof -
  let ?w1 = "w\<lparr>files := (files w)(out \<mapsto> Xlsx twb)\<rparr>"
  from assms(2) have nd: "out \<notin> dirs w" by (simp add: path_exists_def)
  have wr: "write_file v out c = Inr (v\<lparr>files := (files v)(out \<mapsto> c)\<rparr>)"
    if "dirs v = dirs w" "locked v = locked w" for v c
    using that assms(8,9) nd by (cases "dirname out = []") (simp_all add: write_file_def)
  have c: "shutil_copy w tp out = Inr ?w1"
    using assms(1) nd wr [of w "Xlsx twb"] by (simp add: shutil_copy_def)
  have f1: "files ?w1 out = Some (Xlsx twb)" by simp
  from load_and_rename_single [OF f1 assms(3,4,5,11), of L] obtain wb0 where
    l: "load_and_rename L ?w1 out = Inr wb0" and n0: "sheetnames wb0 = TEMPLATE # []" by auto
  have src: "\<forall>g \<in> set (group_by_batea ds). \<forall>x \<in> set (snd g). has_source x"
    using group_rows_subset assms(7) by blast
  from create_groups_run [OF assms(6) group_keys(1) _ n0 _ _ src, of L "[Creating_new_file out]"]
  obtain wb2 o2 where
    g: "create_groups L (wb0, [Creating_new_file out]) (group_by_batea ds) = Inr (wb2, o2)"
       "sheetnames wb2 = TEMPLATE # filter (\<lambda>k. k \<noteq> TEMPLATE) (map fst (group_by_batea ds))"
    by auto
  from remove_template_result [of wb2] g(2) obtain wbs o3 where
    r: "remove_template wb2 = Inr (wbs, o3)"
       "sheetnames wbs = filter (\<lambda>k. k \<noteq> TEMPLATE) (map fst (group_by_batea ds))"
    by auto
  from r(2) assms(10) have ne: "sheets wbs \<noteq> []" by (auto simp: sheetnames_def)
  let ?w2 = "?w1\<lparr>files := (files ?w1)(out \<mapsto> Xlsx wbs)\<rparr>"
  have sv: "save_workbook ?w1 wbs out = (?w2, None)"
    using ne wr [of ?w1 "Xlsx wbs"] by (simp add: save_workbook_def)
  have fin: "finish ?w1 wb2 out o2
               = (?w2, o2 @ o3 @ [Success_saved out, Processing_finished], Finished wbs None)"
    unfolding finish_def using r(1) sv by simp
  have "main_create L w tp out ds = finish ?w1 wb2 out o2"
    unfolding main_create_def Let_def using c l g(1) by simp
  with fin have "main_create L w tp out ds
          = (?w2, o2 @ o3 @ [Success_saved out, Processing_finished], Finished wbs None)"
    by simp
  moreover have "files ?w2 out = Some (Xlsx wbs)" by simp
  ultimately show ?thesis using r(2) by blast
qed

lemma lib_fresh_ex_lib: "lib_fresh ex_lib"
proof -
  have "v @ replicate (Suc (sum_list (map length names))) CHR ''1'' \<notin> set names" for v names
  proof
    assume "v @ replicate (Suc (sum_list (map length names))) CHR ''1'' \<in> set names"
    then have "length (v @ replicate (Suc (sum_list (map length names))) CHR ''1'')
                 \<le> sum_list (map length names)"
      using member_le_sum_list [of "length (v @ replicate (Suc (sum_list (map length names))) CHR ''1'')"
              "map length names"]
      by force
    then show False by simp
  qed
  then show ?thesis by (simp add: lib_fresh_def ex_lib_def)
qed

lemma ex_keys:
  "create_key ex_row3 = ''B7''" "create_key ex_row_template = ''TEMPLATE''"
  by (simp_all add: create_key_def dict_get_def ex_row3_def ex_row_template_def py_strip_def
        is_space_def)

lemma ex_groups_keys: "map fst (group_by_batea [ex_row3, ex_row_template]) = [''B7'', ''TEMPLATE'']"
  by (simp add: group_by_batea_def ex_keys)

lemma lower_examples:
  "py_lower ''B7'' = ''b7''" "py_lower ''TEMPLATE'' = ''template''"
  "py_lower ''TEMPLATE Copy'' = ''template copy''" "py_lower ''Hoja1'' = ''hoja1''"
  by (simp_all add: py_lower_def lower_char_def)

lemma salida_supported: "supported_format ''salida.xlsx''"
  by (simp add: supported_format_def splitext_def basename_def py_lower_def lower_char_def Let_def)

lemma ex_keys_accepted: "keys_accepted [''B7'', ''TEMPLATE'']"
  by (simp add: keys_accepted_def valid_title_def invalid_title_chars_def TEMPLATE_def lower_examples)

lemma create_world_facts:
  "files create_world ''PLANTILLA.xlsx'' = Some (Xlsx plantilla_wb)"
  "path_exists create_world ''PLANTILLA.xlsx''"
  "\<not> path_exists create_world ''salida.xlsx''"
  "dirname ''salida.xlsx'' = []" "''salida.xlsx'' \<notin> locked create_world"
  "with_xlsx ''salida'' = ''salida.xlsx''"
  by (simp_all add: create_world_def path_exists_def dirname_def with_xlsx_def ends_with_def
        py_lower_def lower_char_def)

lemma plantilla_facts:
  "sheets plantilla_wb = [template_sheet\<lparr>title := ''Hoja1''\<rparr>]" "active plantilla_wb = 0"
  "py_lower (title (template_sheet\<lparr>title := ''Hoja1''\<rparr>)) \<noteq> py_lower TEMPLATE"
  by (simp_all add: plantilla_wb_def TEMPLATE_def lower_examples)

lemma wf_create_world: "wf_world create_world"
  by (auto simp: wf_world_def create_world_def plantilla_wb_def sheetnames_def split: if_splits)

lemma ex_create_run:
  "\<exists>w' o' wbs. main_excel ex_lib create_world ex_now ''PLANTILLA.xlsx'' ''salida''
                   [ex_row3, ex_row_template] = (w', o', Finished wbs None)
      \<and> files w' ''salida.xlsx'' = Some (Xlsx wbs) \<and> sheetnames wbs = [''B7'']"
proof -
  have src: "\<forall>d \<in> set [ex_row3, ex_row_template]. has_source d"
    by (simp add: has_source_def ex_row3_def ex_row_template_def)
  have acc: "keys_accepted (map fst (group_by_batea [ex_row3, ex_row_template]))"
    by (simp add: ex_groups_keys ex_keys_accepted)
  have ne: "filter (\<lambda>k. k \<noteq> TEMPLATE) (map fst (group_by_batea [ex_row3, ex_row_template])) \<noteq> []"
    by (simp add: ex_groups_keys TEMPLATE_def)
  from main_create_run [OF create_world_facts(1,3) plantilla_facts(1,2) _ acc src _ create_world_facts(5) ne
                          salida_supported, of ex_lib]
       plantilla_facts(3) create_world_facts(4)
  obtain w' o' wbs where
    r: "main_create ex_lib create_world ''PLANTILLA.xlsx'' ''salida.xlsx'' [ex_row3, ex_row_template]
          = (w', o', Finished wbs None)"
       "files w' ''salida.xlsx'' = Some (Xlsx wbs)"
       "sheetnames wbs = filter (\<lambda>k. k \<noteq> TEMPLATE) (map fst (group_by_batea [ex_row3, ex_row_template]))"
    by auto
  have "main_excel ex_lib create_world ex_now ''PLANTILLA.xlsx'' ''salida'' [ex_row3, ex_row_template]
          = main_create ex_lib create_world ''PLANTILLA.xlsx'' ''salida.xlsx'' [ex_row3, ex_row_template]"
    by (simp add: main_excel_def create_world_facts)
  moreover from r(3) have "sheetnames wbs = [''B7'']" by (simp add: ex_groups_keys TEMPLATE_def)
  ultimately show ?thesis using r(1,2) by auto
qed

text \<open>
  Claim C2, as stated, fails: in a create-mode run whose rows have the keys \<^verbatim>\<open>B7\<close> and
  \<^verbatim>\<open>TEMPLATE\<close> the saved workbook has the one sheet \<^verbatim>\<open>B7\<close>; the key \<^verbatim>\<open>TEMPLATE\<close> has no
  sheet in it.
\<close>

theorem one_sheet_per_key_counterexample:
  "saved_names (main_excel ex_lib create_world ex_now ''PLANTILLA.xlsx'' ''salida''
                  [ex_row3, ex_row_template]) = Some [''B7'']
   \<and> map create_key [ex_row3, ex_row_template] = [''B7'', ''TEMPLATE'']"
proof -
  from ex_create_run obtain w' o' wbs where
    "main_excel ex_lib create_world ex_now ''PLANTILLA.xlsx'' ''salida'' [ex_row3, ex_row_template]
       = (w', o', Finished wbs None)"
    "sheetnames wbs = [''B7'']"
    by blast
  then show ?thesis by (simp add: saved_names_def saved_workbook_def ex_keys)
qed

text \<open>
  Claim C2, amended. With a library that never substitutes a title already in the workbook
  and workbook files whose sheet titles are distinct, every run that reaches the terminal
  save step, in either mode, hands to \<^verbatim>\<open>save\<close> a workbook without a sheet named
  TEMPLATE. In create mode, from a template file with a single sheet (whose title is
  TEMPLATE or differs from it by more than case) and with keys the library stores unchanged,
  the sheets of that workbook are, in the order of their first rows, the distinct category
  keys of the extracted rows other than TEMPLATE: one sheet for each such key and no other
  sheet; a key equal to that reserved name has no sheet in it.
\<close>

theorem template_removed_one_sheet_per_other_key:
  assumes "lib_fresh L" and "wf_world w"
      and "main_excel L w now tp name ds = (w', o', Finished wbs e)"
  shows "TEMPLATE \<notin> set (sheetnames wbs)
         \<and> (\<forall>twb s0. \<not> path_exists w (with_xlsx name) \<and> files w tp = Some (Xlsx twb)
               \<and> sheets twb = [s0] \<and> active twb = 0
               \<and> (title s0 = TEMPLATE \<or> py_lower (title s0) \<noteq> py_lower TEMPLATE)
               \<and> keys_accepted (map fst (group_by_batea ds)) \<longrightarrow>
               sheetnames wbs = filter (\<lambda>k. k \<noteq> TEMPLATE) (map fst (group_by_batea ds)))
         \<and> distinct (map fst (group_by_batea ds))
         \<and> set (map fst (group_by_batea ds)) = create_key ` set ds"
proof -
  have a: "TEMPLATE \<notin> set (sheetnames wbs)" using assms by (rule main_excel_no_template)
  have b: "\<forall>twb s0. \<not> path_exists w (with_xlsx name) \<and> files w tp = Some (Xlsx twb)
               \<and> sheets twb = [s0] \<and> active twb = 0
               \<and> (title s0 = TEMPLATE \<or> py_lower (title s0) \<noteq> py_lower TEMPLATE)
               \<and> keys_accepted (map fst (group_by_batea ds)) \<longrightarrow>
               sheetnames wbs = filter (\<lambda>k. k \<noteq> TEMPLATE) (map fst (group_by_batea ds))"
  proof (intro allI impI, elim conjE)
    fix twb s0
    assume h: "\<not> path_exists w (with_xlsx name)" "files w tp = Some (Xlsx twb)"
      "sheets twb = [s0]" "active twb = 0"
      "title s0 = TEMPLATE \<or> py_lower (title s0) \<noteq> py_lower TEMPLATE"
      "keys_accepted (map fst (group_by_batea ds))"
    from assms(3) h(1,2) have "main_create L w tp (with_xlsx name) ds = (w', o', Finished wbs e)"
      by (simp add: main_excel_def path_exists_def split: if_splits)
    from main_create_names [OF this h(2,1,3,4,5,6)]
    show "sheetnames wbs = filter (\<lambda>k. k \<noteq> TEMPLATE) (map fst (group_by_batea ds))" .
  qed
  from a b group_keys [of ds] show ?thesis by blast
qed

theorem template_removed_one_sheet_per_other_key_witness:
  "lib_fresh ex_lib \<and> wf_world create_world
   \<and> (\<exists>w' o' wbs. main_excel ex_lib create_world ex_now ''PLANTILLA.xlsx'' ''salida''
                     [ex_row3, ex_row_template] = (w', o', Finished wbs None)
         \<and> TEMPLATE \<notin> set (sheetnames wbs)
         \<and> sheetnames wbs = [''B7''])"
proof -
  from ex_create_run obtain w' o' wbs where
    r: "main_excel ex_lib create_world ex_now ''PLANTILLA.xlsx'' ''salida'' [ex_row3, ex_row_template]
          = (w', o', Finished wbs None)"
    by blast
  note t = template_removed_one_sheet_per_other_key [OF lib_fresh_ex_lib wf_create_world r]
  have h: "\<not> path_exists create_world (with_xlsx ''salida'')
             \<and> files create_world ''PLANTILLA.xlsx'' = Some (Xlsx plantilla_wb)
             \<and> sheets plantilla_wb = [template_sheet\<lparr>title := ''Hoja1''\<rparr>] \<and> active plantilla_wb = 0
             \<and> (title (template_sheet\<lparr>title := ''Hoja1''\<rparr>) = TEMPLATE
                  \<or> py_lower (title (template_sheet\<lparr>title := ''Hoja1''\<rparr>)) \<noteq> py_lower TEMPLATE)
             \<and> keys_accepted (map fst (group_by_batea [ex_row3, ex_row_template]))"
    using create_world_facts plantilla_facts by (simp add: ex_groups_keys ex_keys_accepted)
  from t have a: "TEMPLATE \<notin> set (sheetnames wbs)" by blast
  from t h have "sheetnames wbs
      = filter (\<lambda>k. k \<noteq> TEMPLATE) (map fst (group_by_batea [ex_row3, ex_row_template]))"
    by blast
  then have b: "sheetnames wbs = [''B7'']" by (simp add: ex_groups_keys TEMPLATE_def)
  from r a b lib_fresh_ex_lib wf_create_world show ?thesis by blast
qed

section \<open>Rows keyed with the template name\<close>

lemma write_data_to_sheet_5:
  "\<exists>s' ow. write_data_to_sheet s (get_header_map L s 4) d 5 = Inr (s', ow)
      \<and> ow = header_warnings (get_header_map L s 4) (title s) field_to_header_map
      \<and> title s' = title s
      \<and> (\<forall>r. r < 5 \<longrightarrow> rows s' r = rows s r)
      \<and> (\<forall>c. cell_at s' 5 c = written_cell (get_header_map L s 4) d c)"
proof -
  have "(1::nat) \<le> 5" by simp
  from write_data_to_sheet_ok [OF this cols_ok_get_header_map, of s L s 4 d] show ?thesis by blast
qed

lemma update_step_existing_eq:
  assumes "update_key d = k" and "k \<noteq> []" and "source_file d = Inr src"
      and "sheet_index wb k = Some j"
      and "write_data_to_sheet (sheets wb ! j) (get_header_map L (sheets wb ! j) 4) d 5 = Inr (s', ow)"
  shows "update_step L (wb, out) d = Inr (set_sheet wb j s', out @ Writing_data src k 5 # ow)"
proof -
  from assms(4) have k: "k \<in> set (sheetnames wb)"
    using index_of_None [of k "sheetnames wb"] by (auto simp: sheet_index_def)
  from provision_existing [OF k, of L TEMPLATE] assms(4)
  have p: "get_or_create_sheet L wb k TEMPLATE = Inr (Some j, wb, [])" by auto
  show ?thesis
    using assms(1,2,3,5) p by (simp add: update_step_def update_key_def write_row_def)
qed

lemma update_step_modulo_template:
  assumes x: "has_source x" "update_key x = [] \<or> update_key x \<in> set (sheetnames wb1)"
      and n: "sheetnames wb1 = sheetnames wb2" and a: "active wb1 = active wb2"
      and e: "\<forall>j. j \<noteq> i \<longrightarrow> sheets wb1 ! j = sheets wb2 ! j"
  shows "\<exists>wa oa wc oc. update_step L (wb1, o1) x = Inr (wa, oa) \<and> update_step L (wb2, o2) x = Inr (wc, oc)
           \<and> sheetnames wa = sheetnames wc \<and> sheetnames wa = sheetnames wb1 \<and> active wa = active wc
           \<and> (\<forall>j. j \<noteq> i \<longrightarrow> sheets wa ! j = sheets wc ! j)"
proof -
  from source_file_has_source [OF x(1)] obtain src where src: "source_file x = Inr src" ..
  show ?thesis
  proof (cases "update_key x = []")
    case True
    then have "update_step L (wb, out) x = Inr (wb, out @ [Warn_no_batea src])" for wb out
      using src by (simp add: update_step_def update_key_def)
    with n a e show ?thesis by simp
  next
    case False
    with x(2) have k: "update_key x \<in> set (sheetnames wb1)" by simp
    from index_of_Some [OF k] obtain j where j: "sheet_index wb1 (update_key x) = Some j"
      by (auto simp: sheet_index_def)
    with n have j2: "sheet_index wb2 (update_key x) = Some j" by (simp add: sheet_index_def)
    from write_data_to_sheet_5 [of "sheets wb1 ! j" L x] obtain s1 ow1 where
      w1: "write_data_to_sheet (sheets wb1 ! j) (get_header_map L (sheets wb1 ! j) 4) x 5 = Inr (s1, ow1)"
          "title s1 = title (sheets wb1 ! j)"
      by blast
    from write_data_to_sheet_5 [of "sheets wb2 ! j" L x] obtain s2 ow2 where
      w2: "write_data_to_sheet (sheets wb2 ! j) (get_header_map L (sheets wb2 ! j) 4) x 5 = Inr (s2, ow2)"
          "title s2 = title (sheets wb2 ! j)"
      by blast
    have same: "j \<noteq> i \<Longrightarrow> s1 = s2" using e w1(1) w2(1) by auto
    from update_step_existing_eq [OF refl False src j w1(1), of o1]
    have u1: "update_step L (wb1, o1) x
                = Inr (set_sheet wb1 j s1, o1 @ Writing_data src (update_key x) 5 # ow1)" .
    from update_step_existing_eq [OF refl False src j2 w2(1), of o2]
    have u2: "update_step L (wb2, o2) x
                = Inr (set_sheet wb2 j s2, o2 @ Writing_data src (update_key x) 5 # ow2)" .
    have n1: "sheetnames (set_sheet wb1 j s1) = sheetnames wb1"
      using w1(2) by (rule sheetnames_set_sheet)
    have n2: "sheetnames (set_sheet wb2 j s2) = sheetnames wb2"
      using w2(2) by (rule sheetnames_set_sheet)
    have len: "length (sheets wb1) = length (sheets wb2)"
      using n by (simp add: sheetnames_def) (metis length_map)
    have e': "\<forall>j'. j' \<noteq> i \<longrightarrow> sheets (set_sheet wb1 j s1) ! j' = sheets (set_sheet wb2 j s2) ! j'"
    proof (intro allI impI)
      fix j' assume ji: "j' \<noteq> i"
      show "sheets (set_sheet wb1 j s1) ! j' = sheets (set_sheet wb2 j s2) ! j'"
      proof (cases "j' = j")
        case True
        with ji same have "s1 = s2" by simp
        moreover from e ji True have "sheets wb1 ! j = sheets wb2 ! j" by simp
        ultimately show ?thesis using True len
          by (cases "j < length (sheets wb1)") (simp_all add: set_sheet_def list_update_beyond)
      next
        case False
        with e ji show ?thesis by (simp add: set_sheet_def)
      qed
    qed
    have "active (set_sheet wb1 j s1) = active (set_sheet wb2 j s2)"
      using a by (simp add: set_sheet_def)
    with u1 u2 n1 n2 n e' show ?thesis by simp
  qed
qed

lemma update_rows_modulo_template:
  assumes "\<forall>x \<in> set post. has_source x \<and> (update_key x = [] \<or> update_key x \<in> set (sheetnames wb1))"
      and "sheetnames wb1 = sheetnames wb2" and "active wb1 = active wb2"
      and "\<forall>j. j \<noteq> i \<longrightarrow> sheets wb1 ! j = sheets wb2 ! j"
  shows "\<exists>wa oa wc oc. update_rows L (wb1, o1) post = Inr (wa, oa) \<and> update_rows L (wb2, o2) post = Inr (wc, oc)
           \<and> sheetnames wa = sheetnames wc \<and> sheetnames wa = sheetnames wb1 \<and> active wa = active wc
           \<and> (\<forall>j. j \<noteq> i \<longrightarrow> sheets wa ! j = sheets wc ! j)"
  using assms
proof (induction post arbitrary: wb1 wb2 o1 o2)
  case Nil
  then show ?case by simp
next
  case (Cons x post)
  from Cons.prems(1) have x: "has_source x" "update_key x = [] \<or> update_key x \<in> set (sheetnames wb1)"
    by simp_all
  from update_step_modulo_template [OF x Cons.prems(2,3,4), of L o1 o2] obtain wa oa wc oc where
    s: "update_step L (wb1, o1) x = Inr (wa, oa)" "update_step L (wb2, o2) x = Inr (wc, oc)"
       "sheetnames wa = sheetnames wc" "sheetnames wa = sheetnames wb1" "active wa = active wc"
       "\<forall>j. j \<noteq> i \<longrightarrow> sheets wa ! j = sheets wc ! j"
    by blast
  from Cons.prems(1) s(4)
  have rest: "\<forall>x \<in> set post. has_source x \<and> (update_key x = [] \<or> update_key x \<in> set (sheetnames wa))"
    by simp
  from Cons.IH [OF rest s(3,5,6), of oa oc] s(1,2,4) show ?case by auto
qed

lemma remove_template_modulo:
  assumes "sheetnames wa = sheetnames wc" and "active wa = active wc"
      and "\<forall>j. j \<noteq> i \<longrightarrow> sheets wa ! j = sheets wc ! j"
      and "sheet_index wa TEMPLATE = Some i"
  shows "\<exists>wbs o1. remove_template wa = Inr (wbs, o1) \<and> remove_template wc = Inr (wbs, o1)
           \<and> sheets wbs = take i (sheets wa) @ drop (Suc i) (sheets wa)"
proof -
  from assms(1,4) have ic: "sheet_index wc TEMPLATE = Some i" by (simp add: sheet_index_def)
  from sheet_index_SomeD [OF assms(4)] have ta: "TEMPLATE \<in> set (sheetnames wa)"
    by (force simp: sheetnames_def in_set_conv_nth)
  have len: "length (sheets wa) = length (sheets wc)"
    using assms(1) by (simp add: sheetnames_def) (metis length_map)
  have t: "take i (sheets wa) = take i (sheets wc)"
    using len assms(3) by (auto intro!: nth_equalityI)
  have d: "drop (Suc i) (sheets wa) = drop (Suc i) (sheets wc)"
    using len assms(3) by (auto intro!: nth_equalityI)
  have eq: "wa\<lparr>sheets := take i (sheets wa) @ drop (Suc i) (sheets wa)\<rparr>
              = wc\<lparr>sheets := take i (sheets wc) @ drop (Suc i) (sheets wc)\<rparr>"
    using t d assms(2) by (simp add: workbook.equality)
  have "remove_template wa
          = Inr (wa\<lparr>sheets := take i (sheets wa) @ drop (Suc i) (sheets wa)\<rparr>, [Removing_template])"
    using ta assms(4) by (simp add: remove_template_def del_sheet_def)
  moreover have "remove_template wc
          = Inr (wc\<lparr>sheets := take i (sheets wc) @ drop (Suc i) (sheets wc)\<rparr>, [Removing_template])"
    using ta assms(1) ic by (simp add: remove_template_def del_sheet_def)
  ultimately show ?thesis using eq t d by simp
qed


lemma load_and_rename_single_eq:
  assumes "files w out = Some (Xlsx twb)" and "sheets twb = [s0]" and "active twb = 0"
      and "title s0 = TEMPLATE \<or> py_lower (title s0) \<noteq> py_lower TEMPLATE"
      and "supported_format out"
  shows "load_and_rename L w out = Inr (twb\<lparr>sheets := [s0\<lparr>title := TEMPLATE\<rparr>]\<rparr>)"
proof -
  have l: "load_workbook w out = Inr twb" using assms(1,5) by (simp add: load_workbook_def)
  have "set_title L (sheetnames twb) (title (sheets twb ! 0)) TEMPLATE = Inr TEMPLATE"
    using assms(2,4) by (auto simp: set_title_def valid_template_titles title_taken_def sheetnames_def)
  then have "rename_sheet L twb 0 TEMPLATE = Inr (set_sheet twb 0 ((sheets twb ! 0)\<lparr>title := TEMPLATE\<rparr>))"
    by (simp add: rename_sheet_def)
  with l assms(2,3) show ?thesis
    by (simp add: load_and_rename_def set_sheet_def)
qed

lemma main_create_trace:
  assumes "files w tp = Some (Xlsx twb)" and "\<not> path_exists w out"
      and "sheets twb = [s0]" and "active twb = 0"
      and "title s0 = TEMPLATE \<or> py_lower (title s0) \<noteq> py_lower TEMPLATE"
      and "dirname out = [] \<or> dirname out \<in> dirs w" and "out \<notin> locked w"
      and "create_groups L (twb\<lparr>sheets := [s0\<lparr>title := TEMPLATE\<rparr>]\<rparr>, [Creating_new_file out])
             (group_by_batea ds) = Inr (wb2, o2)"
      and "sheetnames wb2 = TEMPLATE # rest" and "rest \<noteq> []"
      and "supported_format out"
  shows "\<exists>w' o' wbs. main_create L w tp out ds = (w', o', Finished wbs None)
           \<and> sheets wbs = tl (sheets wb2) \<and> sheetnames wbs = rest"
proof -
  let ?w1 = "w\<lparr>files := (files w)(out \<mapsto> Xlsx twb)\<rparr>"
  from assms(2) have nd: "out \<notin> dirs w" by (simp add: path_exists_def)
  have wr: "write_file v out c = Inr (v\<lparr>files := (files v)(out \<mapsto> c)\<rparr>)"
    if "dirs v = dirs w" "locked v = locked w" for v c
    using that assms(6,7) nd by (cases "dirname out = []") (simp_all add: write_file_def)
  have c: "shutil_copy w tp out = Inr ?w1"
    using assms(1) nd wr [of w "Xlsx twb"] by (simp add: shutil_copy_def)
  have f1: "files ?w1 out = Some (Xlsx twb)" by simp
  note l = load_and_rename_single_eq [OF f1 assms(3,4,5,11), of L]
  from remove_template_result [of wb2] assms(9) obtain wbs o3 where
    r: "remove_template wb2 = Inr (wbs, o3)" "sheetnames wbs = rest" "sheets wbs = tl (sheets wb2)"
    by auto
  from r(2) assms(10) have ne: "sheets wbs \<noteq> []" by (auto simp: sheetnames_def)
  let ?w2 = "?w1\<lparr>files := (files ?w1)(out \<mapsto> Xlsx wbs)\<rparr>"
  have sv: "save_workbook ?w1 wbs out = (?w2, None)"
    using ne wr [of ?w1 "Xlsx wbs"] by (simp add: save_workbook_def)
  have fin: "finish ?w1 wb2 out o2
               = (?w2, o2 @ o3 @ [Success_saved out, Processing_finished], Finished wbs None)"
    unfolding finish_def using r(1) sv by simp
  have "main_create L w tp out ds = finish ?w1 wb2 out o2"
    unfolding main_create_def Let_def using c l assms(8) by simp
  with fin r(2,3) show ?thesis by simp
qed

lemma template_header: "get_header_map ex_lib template_sheet 4 = ex_header_map"
  by (simp add: get_header_map_def template_sheet_def hdr_def truthy_def py_str_def py_strip_def
        is_space_def ex_header_map_def fun_eq_iff)

lemma ex_keys_accepted_rev: "keys_accepted [''TEMPLATE'', ''B7'']"
  by (simp add: keys_accepted_def valid_title_def invalid_title_chars_def TEMPLATE_def lower_examples)

lemma cell_at_rows: "rows s = rows s' \<Longrightarrow> cell_at s r c = cell_at s' r c"
  by (simp add: cell_at_def)

lemma ex_template_run:
  "\<exists>w' o' wbs. main_excel ex_lib create_world ex_now ''PLANTILLA.xlsx'' ''salida''
                   [ex_row_template, ex_row3] = (w', o', Finished wbs None)
      \<and> sheetnames wbs = [''B7'']
      \<and> cell_at (sheets wbs ! 0) 6 1 = written_cell ex_header_map ex_row_template 1"
proof -
  let ?out = "''salida.xlsx''"
  let ?wb0 = "plantilla_wb\<lparr>sheets := [template_sheet\<lparr>title := ''Hoja1''\<rparr>\<lparr>title := TEMPLATE\<rparr>]\<rparr>"
  let ?o0 = "[Creating_new_file ?out]"
  have T: "''TEMPLATE'' = TEMPLATE" by (simp add: TEMPLATE_def)
  have s0: "sheets ?wb0 ! 0 = template_sheet" by (simp add: template_sheet_def TEMPLATE_def)
  have n0: "sheetnames ?wb0 = TEMPLATE # []" by (simp add: sheetnames_def)
  have grp: "group_by_batea [ex_row_template, ex_row3]
               = [(TEMPLATE, [ex_row_template]), (''B7'', [ex_row3])]"
    by (simp add: group_by_batea_def ex_keys TEMPLATE_def)
  have src1: "\<forall>x \<in> set [ex_row_template]. has_source x"
    by (simp add: has_source_def ex_row_template_def)
  have src2: "\<forall>x \<in> set [ex_row3]. has_source x" by (simp add: has_source_def ex_row3_def)
  have "TEMPLATE \<in> set (sheetnames ?wb0)" using n0 by simp
  from provision_existing [OF this, of ex_lib TEMPLATE] obtain i where
    "get_or_create_sheet ex_lib ?wb0 TEMPLATE TEMPLATE = Inr (Some i, ?wb0, [])"
    "sheet_index ?wb0 TEMPLATE = Some i" "title (sheets ?wb0 ! i) = TEMPLATE"
    by blast
  moreover have "sheet_index ?wb0 TEMPLATE = Some 0" using n0 by (simp add: sheet_index_def)
  ultimately have p1: "get_or_create_sheet ex_lib ?wb0 TEMPLATE TEMPLATE = Inr (Some 0, ?wb0, [])"
    and t1: "title (sheets ?wb0 ! 0) = TEMPLATE"
    by simp_all
  from create_step_provisioned [OF src1 p1 t1, of ?o0] obtain wb1 o1 where
    a: "create_step ex_lib (?wb0, ?o0) (TEMPLATE, [ex_row_template]) = Inr (wb1, o1)"
       "sheetnames wb1 = sheetnames ?wb0"
       "stacked (sheets ?wb0 ! 0) (sheets wb1 ! 0) (get_header_map ex_lib (sheets ?wb0 ! 0) 4)
          [ex_row_template]"
       "length (sheets wb1) = length (sheets ?wb0)"
    by blast
  from a(2) n0 have n1: "sheetnames wb1 = TEMPLATE # []" by simp
  from a(4) have l1: "length (sheets wb1) = 1" by simp
  from a(3) have st1: "stacked template_sheet (sheets wb1 ! 0) ex_header_map [ex_row_template]"
    by (simp only: s0 template_header)
  let ?wb1c = "wb1\<lparr>sheets := sheets wb1 @ [\<lparr>title = ''B7'', rows = rows (sheets wb1 ! 0)\<rparr>]\<rparr>"
  have k: "''B7'' \<in> set [''TEMPLATE'', ''B7'']" "''B7'' \<noteq> TEMPLATE" by (simp_all add: TEMPLATE_def)
  have dn: "set [] \<subseteq> set [''TEMPLATE'', ''B7'']" "''B7'' \<notin> set []" by simp_all
  from provision_accepted [OF ex_keys_accepted_rev k n1 dn, of ex_lib] l1
  have p2: "get_or_create_sheet ex_lib wb1 ''B7'' TEMPLATE
              = Inr (Some 1, ?wb1c, [Sheet_not_found_creating ''B7'' TEMPLATE])"
    by simp
  have c1: "sheets ?wb1c ! 1 = \<lparr>title = ''B7'', rows = rows (sheets wb1 ! 0)\<rparr>"
    using l1 by (simp add: nth_append)
  then have t2: "title (sheets ?wb1c ! 1) = ''B7''" by simp
  from create_step_provisioned [OF src2 p2 t2, of o1] obtain wb2 o2 where
    b: "create_step ex_lib (wb1, o1) (''B7'', [ex_row3]) = Inr (wb2, o2)"
       "sheetnames wb2 = sheetnames ?wb1c"
       "stacked (sheets ?wb1c ! 1) (sheets wb2 ! 1) (get_header_map ex_lib (sheets ?wb1c ! 1) 4)
          [ex_row3]"
       "length (sheets wb2) = length (sheets ?wb1c)"
    by blast
  from b(2) n1 have n2: "sheetnames wb2 = TEMPLATE # [''B7'']" by (simp add: sheetnames_def)
  from b(4) l1 have l2: "length (sheets wb2) = 2" by simp
  have g: "create_groups ex_lib (?wb0, ?o0) (group_by_batea [ex_row_template, ex_row3]) = Inr (wb2, o2)"
    using a(1) b(1) by (simp add: grp)
  have ne: "[''B7''] \<noteq> []" by simp
  from main_create_trace [OF create_world_facts(1,3) plantilla_facts(1,2) _ _ create_world_facts(5) g n2 ne
                           salida_supported]
       plantilla_facts(3) create_world_facts(4)
  obtain w' o' wbs where
    r: "main_create ex_lib create_world ''PLANTILLA.xlsx'' ?out [ex_row_template, ex_row3]
          = (w', o', Finished wbs None)"
       "sheets wbs = tl (sheets wb2)" "sheetnames wbs = [''B7'']"
    by auto
  have m: "main_excel ex_lib create_world ex_now ''PLANTILLA.xlsx'' ''salida'' [ex_row_template, ex_row3]
          = main_create ex_lib create_world ''PLANTILLA.xlsx'' ?out [ex_row_template, ex_row3]"
    by (simp add: main_excel_def create_world_facts)
  from r(2) l2 have "sheets wbs ! 0 = sheets wb2 ! 1" by (simp add: nth_tl)
  then have "cell_at (sheets wbs ! 0) 6 1 = cell_at (sheets wb2 ! 1) (5 + length [ex_row3]) 1"
    by simp
  also from stacked_cells(3) [OF b(3), rule_format, of 5 1]
  have "\<dots> = cell_at (sheets ?wb1c ! 1) 5 1" by simp
  also have "\<dots> = cell_at (sheets wb1 ! 0) 5 1" unfolding c1 by (simp add: cell_at_def)
  also from stacked_cells(2) [OF st1, rule_format, of 0 1]
  have "\<dots> = written_cell ex_header_map ex_row_template 1" by simp
  finally have v: "cell_at (sheets wbs ! 0) 6 1 = written_cell ex_header_map ex_row_template 1" .
  from m r(1,3) v show ?thesis by simp
qed

text \<open>
  Claim C10, as stated, fails in its last part: in a create-mode run whose first row has the
  key \<^verbatim>\<open>TEMPLATE\<close> and whose second row has the key \<^verbatim>\<open>B7\<close>, the sheet \<^verbatim>\<open>B7\<close> of the saved
  workbook holds the date of the first row in row 6: the sheet was cloned from the template
  after the row had been written into the template.
\<close>

theorem template_keyed_row_in_output_counterexample:
  "saved_value (main_excel ex_lib create_world ex_now ''PLANTILLA.xlsx'' ''salida''
                  [ex_row_template, ex_row3]) ''B7'' 6 1 = Some (Str ''16/05'')
   \<and> create_key ex_row_template = ''TEMPLATE''"
proof -
  from ex_template_run obtain w' o' wbs where
    r: "main_excel ex_lib create_world ex_now ''PLANTILLA.xlsx'' ''salida'' [ex_row_template, ex_row3]
          = (w', o', Finished wbs None)"
       "sheetnames wbs = [''B7'']"
       "cell_at (sheets wbs ! 0) 6 1 = written_cell ex_header_map ex_row_template 1"
    by blast
  from r(3) have "cvalue (cell_at (sheets wbs ! 0) 6 1) = Str ''16/05''"
    by (simp add: written_cell_def field_to_header_map_def put_field_def ex_header_map_def
          ex_row_template_def dict_get_def coerce_def py_float_def float_strip_def is_float_space_def py_strip_def is_space_def
          abs_float_value_def py_lower_def lower_char_def float_number_def digitpart_def
          is_digit_def float_exponent_def)
  moreover from r(2) have "sheet_index wbs ''B7'' = Some 0" by (simp add: sheet_index_def)
  ultimately show ?thesis using r(1) by (simp add: saved_value_def saved_workbook_def ex_keys)
qed

text \<open>
  Claim C10, amended. Let the workbook have a sheet named TEMPLATE (its first one of that
  name at index \<open>i\<close>) and distinct sheet titles, and let \<open>d\<close> be a row whose category key
  is TEMPLATE. The Sheet Provisioner returns that sheet, with the workbook unchanged and no
  message. The round of the update loop for \<open>d\<close> writes the row into row 5 of that sheet;
  its messages are the progress line and the header warnings, none about a skip. A sheet
  cloned from the template afterwards, for a key that names no sheet yet, carries the row
  in its row 5. When every later row has an empty key or the key of a sheet that exists
  already (so that nothing is cloned), the run with \<open>d\<close> and the run without it hand the
  same workbook to \<^verbatim>\<open>save\<close>, without a sheet named TEMPLATE: the data of \<open>d\<close> is absent
  from the output.
\<close>

theorem template_keyed_row_written_then_removed:
  assumes "update_key d = TEMPLATE" and "has_source d"
      and "sheet_index wb TEMPLATE = Some i" and "distinct (sheetnames wb)"
  shows "get_or_create_sheet L wb TEMPLATE TEMPLATE = Inr (Some i, wb, [])
       \<and> (\<exists>s' src. source_file d = Inr src
            \<and> update_step L (wb, out) d
                = Inr (set_sheet wb i s',
                       out @ Writing_data src TEMPLATE 5
                         # header_warnings (get_header_map L (sheets wb ! i) 4) TEMPLATE field_to_header_map)
            \<and> (\<forall>c. cell_at s' 5 c = written_cell (get_header_map L (sheets wb ! i) 4) d c)
            \<and> (\<forall>k n wb2 o2. k \<notin> set (sheetnames wb)
                   \<and> get_or_create_sheet L (set_sheet wb i s') k TEMPLATE = Inr (Some n, wb2, o2)
                 \<longrightarrow> (\<forall>c. cell_at (sheets wb2 ! n) 5 c
                             = written_cell (get_header_map L (sheets wb ! i) 4) d c)))
       \<and> ((\<forall>x \<in> set post. has_source x \<and> (update_key x = [] \<or> update_key x \<in> set (sheetnames wb)))
            \<longrightarrow> (\<exists>wa oa wc oc wbs o1. update_rows L (wb, out) (d # post) = Inr (wa, oa)
                  \<and> update_rows L (wb, out) post = Inr (wc, oc)
                  \<and> remove_template wa = Inr (wbs, o1) \<and> remove_template wc = Inr (wbs, o1)
                  \<and> TEMPLATE \<notin> set (sheetnames wbs)))"
proof -
  let ?hm = "get_header_map L (sheets wb ! i) 4"
  from sheet_index_SomeD [OF assms(3)]
  have i: "i < length (sheets wb)" "title (sheets wb ! i) = TEMPLATE" by simp_all
  then have k: "TEMPLATE \<in> set (sheetnames wb)" by (force simp: sheetnames_def in_set_conv_nth)
  have ne: "TEMPLATE \<noteq> []" by (simp add: TEMPLATE_def)
  from provision_existing [OF k, of L TEMPLATE] assms(3)
  have p: "get_or_create_sheet L wb TEMPLATE TEMPLATE = Inr (Some i, wb, [])" by auto
  from source_file_has_source [OF assms(2)] obtain src where src: "source_file d = Inr src" ..
  from write_data_to_sheet_5 [of "sheets wb ! i" L d] obtain s' ow where
    w: "write_data_to_sheet (sheets wb ! i) ?hm d 5 = Inr (s', ow)"
       "ow = header_warnings ?hm (title (sheets wb ! i)) field_to_header_map"
       "title s' = title (sheets wb ! i)"
       "\<forall>c. cell_at s' 5 c = written_cell ?hm d c"
    by blast
  let ?wb1 = "set_sheet wb i s'"
  let ?o1 = "out @ Writing_data src TEMPLATE 5 # header_warnings ?hm TEMPLATE field_to_header_map"
  from update_step_existing_eq [OF assms(1) ne src assms(3) w(1), of out] w(2) i(2)
  have u: "update_step L (wb, out) d = Inr (?wb1, ?o1)" by simp
  have n1: "sheetnames ?wb1 = sheetnames wb" using w(3) by (rule sheetnames_set_sheet)
  have i1: "sheet_index ?wb1 TEMPLATE = Some i" using w(3) assms(3) by (simp add: sheet_index_set_sheet)
  have s1: "sheets ?wb1 ! i = s'" using i(1) by (simp add: sheets_set_sheet)
  have clone: "\<forall>k n wb2 o2. k \<notin> set (sheetnames wb)
                   \<and> get_or_create_sheet L ?wb1 k TEMPLATE = Inr (Some n, wb2, o2)
                 \<longrightarrow> (\<forall>c. cell_at (sheets wb2 ! n) 5 c = written_cell ?hm d c)"
  proof (intro allI impI, elim conjE)
    fix k n wb2 o2 c
    assume nk: "k \<notin> set (sheetnames wb)"
       and g: "get_or_create_sheet L ?wb1 k TEMPLATE = Inr (Some n, wb2, o2)"
    from nk n1 have nk1: "k \<notin> set (sheetnames ?wb1)" by simp
    from provision_new [OF nk1 g] i1 obtain t1 where
      "n = length (sheets ?wb1)"
      "wb2 = ?wb1\<lparr>sheets := sheets ?wb1 @ [\<lparr>title = t1, rows = rows (sheets ?wb1 ! i)\<rparr>]\<rparr>"
      by auto
    then have "sheets wb2 ! n = \<lparr>title = t1, rows = rows s'\<rparr>" by (simp add: s1)
    then have "cell_at (sheets wb2 ! n) 5 c = cell_at s' 5 c" by (simp add: cell_at_def)
    with w(4) show "cell_at (sheets wb2 ! n) 5 c = written_cell ?hm d c" by simp
  qed
  have loop: "\<exists>wa oa wc oc wbs o1. update_rows L (wb, out) (d # post) = Inr (wa, oa)
                  \<and> update_rows L (wb, out) post = Inr (wc, oc)
                  \<and> remove_template wa = Inr (wbs, o1) \<and> remove_template wc = Inr (wbs, o1)
                  \<and> TEMPLATE \<notin> set (sheetnames wbs)"
    if post: "\<forall>x \<in> set post. has_source x \<and> (update_key x = [] \<or> update_key x \<in> set (sheetnames wb))"
  proof -
    from post n1
    have post1: "\<forall>x \<in> set post. has_source x \<and> (update_key x = [] \<or> update_key x \<in> set (sheetnames ?wb1))"
      by simp
    have a1: "active ?wb1 = active wb" by (simp add: set_sheet_def)
    have e1: "\<forall>j. j \<noteq> i \<longrightarrow> sheets ?wb1 ! j = sheets wb ! j" by (simp add: sheets_set_sheet)
    from update_rows_modulo_template [OF post1 n1 a1 e1, of L ?o1 out] obtain wa oa wc oc where
      r: "update_rows L (?wb1, ?o1) post = Inr (wa, oa)" "update_rows L (wb, out) post = Inr (wc, oc)"
         "sheetnames wa = sheetnames wc" "sheetnames wa = sheetnames ?wb1" "active wa = active wc"
         "\<forall>j. j \<noteq> i \<longrightarrow> sheets wa ! j = sheets wc ! j"
      by blast
    from r(4) n1 assms(3) have ia: "sheet_index wa TEMPLATE = Some i" by (simp add: sheet_index_def)
    from remove_template_modulo [OF r(3,5,6) ia] obtain wbs o1 where
      m: "remove_template wa = Inr (wbs, o1)" "remove_template wc = Inr (wbs, o1)" by blast
    from r(4) n1 assms(4) have "distinct (sheetnames wa)" by simp
    with remove_template_result [of wa] m(1) have "TEMPLATE \<notin> set (sheetnames wbs)" by auto
    moreover have "update_rows L (wb, out) (d # post) = Inr (wa, oa)" using u r(1) by simp
    ultimately show ?thesis using r(2) m by blast
  qed
  from p src u w(4) clone loop show ?thesis by blast
qed

lemma ex_wb_template:
  "sheet_index ex_wb TEMPLATE = Some 1" "distinct (sheetnames ex_wb)"
  "update_key ex_row_template = TEMPLATE" "has_source ex_row_template"
  by (simp_all add: ex_names sheet_index_def TEMPLATE_def update_key_def dict_get_def
        ex_row_template_def py_strip_def is_space_def has_source_def)

lemma ex_wb_template_sheet: "sheets ex_wb ! 1 = template_sheet"
  by (simp add: ex_wb_def)

theorem template_keyed_row_written_then_removed_witness:
  "get_or_create_sheet ex_lib ex_wb TEMPLATE TEMPLATE = Inr (Some 1, ex_wb, [])
   \<and> (\<exists>s' out'. update_step ex_lib (ex_wb, []) ex_row_template = Inr (set_sheet ex_wb 1 s', out')
         \<and> cvalue (cell_at s' 5 1) = Str ''16/05'')
   \<and> (\<exists>wa oa wc oc wbs o1.
         update_rows ex_lib (ex_wb, []) [ex_row_template, ex_row3] = Inr (wa, oa)
         \<and> update_rows ex_lib (ex_wb, []) [ex_row3] = Inr (wc, oc)
         \<and> remove_template wa = Inr (wbs, o1) \<and> remove_template wc = Inr (wbs, o1)
         \<and> TEMPLATE \<notin> set (sheetnames wbs))"
proof -
  have post: "\<forall>x \<in> set [ex_row3]. has_source x \<and> (update_key x = [] \<or> update_key x \<in> set (sheetnames ex_wb))"
    by (simp add: has_source_ex_rows update_key_ex_rows ex_names)
  note t = template_keyed_row_written_then_removed [OF ex_wb_template(3,4,1,2), of ex_lib "[]" "[ex_row3]"]
  from t have a: "get_or_create_sheet ex_lib ex_wb TEMPLATE TEMPLATE = Inr (Some 1, ex_wb, [])"
    by blast
  from t obtain s' out' where
    s: "update_step ex_lib (ex_wb, []) ex_row_template = Inr (set_sheet ex_wb 1 s', out')"
       "\<forall>c. cell_at s' 5 c = written_cell (get_header_map ex_lib (sheets ex_wb ! 1) 4) ex_row_template c"
    by blast
  from s(2) [rule_format, of 1] have "cell_at s' 5 1 = written_cell ex_header_map ex_row_template 1"
    unfolding ex_wb_template_sheet template_header .
  then have v: "cvalue (cell_at s' 5 1) = Str ''16/05''"
    by (simp add: written_cell_def field_to_header_map_def put_field_def ex_header_map_def
          ex_row_template_def dict_get_def coerce_def py_float_def float_strip_def is_float_space_def py_strip_def is_space_def
          abs_float_value_def py_lower_def lower_char_def float_number_def digitpart_def
          is_digit_def float_exponent_def)
  from t post have c: "\<exists>wa oa wc oc wbs o1.
         update_rows ex_lib (ex_wb, []) [ex_row_template, ex_row3] = Inr (wa, oa)
         \<and> update_rows ex_lib (ex_wb, []) [ex_row3] = Inr (wc, oc)
         \<and> remove_template wa = Inr (wbs, o1) \<and> remove_template wc = Inr (wbs, o1)
         \<and> TEMPLATE \<notin> set (sheetnames wbs)"
    by blast
  from a s(1) v c show ?thesis by blast
qed

end
